theory Spec2Isabelle
  imports Complex_Main "HOL-Library.Word"
begin

unbundle bit_operations_syntax

section \<open>Single-precision arithmetic\<close>

text \<open>
  The source computes in \<open>float\<close>, the IEEE 754 binary32 format. Every finite \<open>float\<close>
  is a real number, so \<open>float\<close> values are modelled as reals. In
  \<open>calcAutoSmoothingCutoff\<close>, in the assignment of an auto cutoff, in the first-call
  feedforward cutoff and in \<open>serializeFloat\<close>, each operation of the source is followed
  by \<open>f32\<close>, which rounds the exact result to the nearest binary32 number, a tie going to
  the even significand. A result beyond the largest finite \<open>float\<close>, which the source
  turns into an infinity, is rounded with the largest exponent instead. Elsewhere (channel
  values, rates, filter gains and states, the training sum and its average) the model does
  the arithmetic of the source without rounding.

  \<open>lrintf\<close>: the nearest integer, a tie going to the even neighbour (the default
  rounding mode).
\<close>

definition lrintf :: "real \<Rightarrow> int" where
  "lrintf x =
     (let f = \<lfloor>x\<rfloor>; d = x - of_int f
      in if d < 1 / 2 then f
         else if 1 / 2 < d then f + 1
         else if even f then f else f + 1)"

text \<open>
  The binary32 exponent of a magnitude \<open>a\<close>: the largest \<open>e\<close> from \<open>-125\<close> to 127 with
  \<open>2^e \<le> a\<close>, found by scanning downwards from 127, and \<open>-126\<close> when there is none
  (zero and the subnormal numbers have the exponent of the smallest normal numbers).
\<close>

primrec f32_scan :: "nat \<Rightarrow> real \<Rightarrow> int" where
  "f32_scan 0 a = - 126"
| "f32_scan (Suc n) a = (if 2 powi (int n - 125) \<le> a then int n - 125 else f32_scan n a)"

definition f32_exponent :: "real \<Rightarrow> int" where
  "f32_exponent x = f32_scan 253 \<bar>x\<bar>"

text \<open>
  Rounding to binary32: the numbers with exponent \<open>e\<close> are the whole multiples of
  \<open>2^(e - 23)\<close>.
\<close>

definition f32 :: "real \<Rightarrow> real" where
  "f32 x = (let u = 2 powi (f32_exponent x - 23) in real_of_int (lrintf (x / u)) * u)"

text \<open>
  Two positive numbers that are at most \<open>n\<close> roundings apart: each is at most the other
  times \<open>(1 + 2^-23)^n\<close>.
\<close>

definition f32_near :: "nat \<Rightarrow> real \<Rightarrow> real \<Rightarrow> bool" where
  "f32_near n x y \<longleftrightarrow>
     0 < x \<and> 0 < y \<and> y \<le> x * (1 + 1 / 2 ^ 23) ^ n \<and> x \<le> y * (1 + 1 / 2 ^ 23) ^ n"

section \<open>Arming state machine (board.h)\<close>

text \<open>
  The arming record \<open>m_arming\<close> of class \<open>Board\<close>, with the eight flags that
  \<open>readyToArm\<close>, \<open>attemptToArm\<close> and \<open>updateFromReceiver\<close> read and write.
\<close>

record arming =
  isArmed :: bool
  haveSignal :: bool
  gotFailsafe :: bool
  throttleIsDown :: bool
  switchOkay :: bool
  angleOkay :: bool
  gyroDoneCalibrating :: bool
  accDoneCalibrating :: bool

text \<open>
  The part of \<open>Board\<close> the arming code touches: the arming record, the function-static
  \<open>_doNotRepeat\<close> of \<open>attemptToArm\<close>, and the number of \<open>m_esc->stop()\<close> calls made
  so far. The LED and the warning blinker are written by \<open>updateFromReceiver\<close> too, but
  never read by the arming code; they are left out.
\<close>

record board =
  m_arming :: arming
  doNotRepeat :: bool
  escStopCalls :: nat

definition readyToArm :: "board \<Rightarrow> bool" where
  "readyToArm b \<longleftrightarrow>
     accDoneCalibrating (m_arming b) \<and>
     angleOkay (m_arming b) \<and>
     \<not> gotFailsafe (m_arming b) \<and>
     haveSignal (m_arming b) \<and>
     gyroDoneCalibrating (m_arming b) \<and>
     switchOkay (m_arming b) \<and>
     throttleIsDown (m_arming b)"

definition set_isArmed :: "bool \<Rightarrow> board \<Rightarrow> board" where
  "set_isArmed v b = b\<lparr>m_arming := (m_arming b)\<lparr>isArmed := v\<rparr>\<rparr>"

definition disarm :: "board \<Rightarrow> board" where
  "disarm b =
     set_isArmed False
       (if isArmed (m_arming b) then b\<lparr>escStopCalls := escStopCalls b + 1\<rparr> else b)"

text \<open>
  \<open>attemptToArm usec aux1IsSet\<close>. The only use of \<open>usec\<close> is the call
  \<open>m_esc->isReady(usec)\<close>, whose result is the argument \<open>escIsReady\<close>. The two early
  \<open>return\<close>s of the source skip the \<open>_doNotRepeat\<close> update at the end.
\<close>

definition attemptToArm :: "board \<Rightarrow> bool \<Rightarrow> bool \<Rightarrow> board" where
  "attemptToArm b escIsReady aux1IsSet =
     (if aux1IsSet \<and> readyToArm b \<and> isArmed (m_arming b) then b
      else if aux1IsSet \<and> readyToArm b \<and> \<not> escIsReady then b
      else
        let b1 =
          (if aux1IsSet then
             (if readyToArm b then set_isArmed True b else b)
           else
             (if isArmed (m_arming b) then set_isArmed False (disarm b) else b))
        in
          if \<not> (isArmed (m_arming b1) \<or> doNotRepeat b1 \<or> \<not> readyToArm b1)
          then b1\<lparr>doNotRepeat := True\<rparr>
          else b1)"

definition updateFromReceiver :: "board \<Rightarrow> bool \<Rightarrow> bool \<Rightarrow> bool \<Rightarrow> board" where
  "updateFromReceiver b throttleDown aux1IsSet signal =
     (let b1 =
        (if isArmed (m_arming b) then
           (if \<not> signal \<and> haveSignal (m_arming b)
            then disarm (b\<lparr>m_arming := (m_arming b)\<lparr>gotFailsafe := True\<rparr>\<rparr>)
            else b)
         else
           (let b2 = b\<lparr>m_arming := (m_arming b)\<lparr>throttleIsDown := throttleDown\<rparr>\<rparr>
            in if \<not> readyToArm b2 \<and> aux1IsSet
               then b2\<lparr>m_arming := (m_arming b2)\<lparr>switchOkay := False\<rparr>\<rparr>
               else if \<not> aux1IsSet
               then b2\<lparr>m_arming := (m_arming b2)\<lparr>switchOkay := True\<rparr>\<rparr>
               else b2))
      in b1\<lparr>m_arming := (m_arming b1)\<lparr>haveSignal := signal\<rparr>\<rparr>)"

text \<open>The receiver's task state, \<open>Receiver::state_e\<close>.\<close>

datatype state_e = STATE_CHECK | STATE_PROCESS | STATE_MODES | STATE_UPDATE | STATE_COUNT

text \<open>
  What one call of \<open>updateArmingFromReceiver\<close> reads from outside the arming record:
  \<open>receiver->getState()\<close>, \<open>throttleIsDown()\<close>, \<open>aux1IsSet()\<close>, \<open>hasSignal()\<close>, and
  the answer of \<open>m_esc->isReady(usec)\<close>.
\<close>

record rx_update =
  rxState :: state_e
  rxThrottleIsDown :: bool
  rxAux1IsSet :: bool
  rxHasSignal :: bool
  escReady :: bool

definition updateArmingFromReceiver :: "board \<Rightarrow> rx_update \<Rightarrow> board" where
  "updateArmingFromReceiver b u =
     (case rxState u of
        STATE_UPDATE \<Rightarrow> attemptToArm b (escReady u) (rxAux1IsSet u)
      | STATE_CHECK \<Rightarrow>
          updateFromReceiver b (rxThrottleIsDown u) (rxAux1IsSet u) (rxHasSignal u)
      | _ \<Rightarrow> b)"

text \<open>A sequence of receiver updates, oldest first.\<close>

definition receiverUpdates :: "board \<Rightarrow> rx_update list \<Rightarrow> board" where
  "receiverUpdates b us = foldl updateArmingFromReceiver b us"

text \<open>Cold boot: every flag false.\<close>

definition bootArming :: arming where
  "bootArming = \<lparr>isArmed = False, haveSignal = False, gotFailsafe = False,
     throttleIsDown = False, switchOkay = False, angleOkay = False,
     gyroDoneCalibrating = False, accDoneCalibrating = False\<rparr>"

definition bootBoard :: board where
  "bootBoard = \<lparr>m_arming = bootArming, doNotRepeat = False, escStopCalls = 0\<rparr>"

text \<open>A board that is armed, with every readiness flag set.\<close>

definition armedBoard :: board where
  "armedBoard = \<lparr>m_arming = \<lparr>isArmed = True, haveSignal = True, gotFailsafe = False,
     throttleIsDown = True, switchOkay = True, angleOkay = True,
     gyroDoneCalibrating = True, accDoneCalibrating = True\<rparr>,
     doNotRepeat = False, escStopCalls = 0\<rparr>"

text \<open>
  A board after calibration and before the first receiver update: disarmed, the
  accelerometer, gyro and angle checks passed, every other flag as at boot.
\<close>

definition calibratedBoard :: board where
  "calibratedBoard = \<lparr>m_arming = \<lparr>isArmed = False, haveSignal = False, gotFailsafe = False,
     throttleIsDown = False, switchOkay = False, angleOkay = True,
     gyroDoneCalibrating = True, accDoneCalibrating = True\<rparr>,
     doNotRepeat = False, escStopCalls = 0\<rparr>"

definition rxUpdate :: "state_e \<Rightarrow> bool \<Rightarrow> bool \<Rightarrow> bool \<Rightarrow> bool \<Rightarrow> rx_update" where
  "rxUpdate st t x s e =
     \<lparr>rxState = st, rxThrottleIsDown = t, rxAux1IsSet = x, rxHasSignal = s, escReady = e\<rparr>"

section \<open>Receiver: channel validity and failsafe fallback (receiver.h)\<close>

text \<open>
  The receiver keeps channel values in \<open>float\<close> variables, modelled as real numbers;
  comparisons are exact.

  Converting a \<open>float\<close> to an unsigned integer type discards the fractional part
  (truncation toward zero). C defines the result only when the truncated value fits the
  target type; the model takes the low bits of the truncated value otherwise.
\<close>

definition trunc_toward_zero :: "real \<Rightarrow> int" where
  "trunc_toward_zero x = (if 0 \<le> x then \<lfloor>x\<rfloor> else \<lceil>x\<rceil>)"

definition float_to_u16 :: "real \<Rightarrow> 16 word" where
  "float_to_u16 x = word_of_int (trunc_toward_zero x)"

definition float_to_u32 :: "real \<Rightarrow> 32 word" where
  "float_to_u32 x = word_of_int (trunc_toward_zero x)"

definition u16_to_float :: "16 word \<Rightarrow> real" where
  "u16_to_float w = real (unat w)"

definition CHANNEL_COUNT :: nat where
  "CHANNEL_COUNT = 18"

definition PWM_PULSE_MIN :: nat where
  "PWM_PULSE_MIN = 750"

definition PWM_PULSE_MAX :: nat where
  "PWM_PULSE_MAX = 2250"

definition MAX_INVALID__PULSE_TIME :: "32 word" where
  "MAX_INVALID__PULSE_TIME = 300"

text \<open>
  Modelled from the spec: the channel indices \<open>THROTTLE\<close>, \<open>ROLL\<close>, \<open>PITCH\<close>, \<open>YAW\<close>,
  \<open>AUX1\<close>, \<open>AUX2\<close> of \<open>datatypes.h\<close>, which is not among the sources. The spec's
  channel frame has throttle, roll, pitch, yaw in the first four slots, aux1 in slot 4
  and aux2 in slot 5.
\<close>

definition THROTTLE :: nat where "THROTTLE = 0"
definition ROLL :: nat where "ROLL = 1"
definition PITCH :: nat where "PITCH = 2"
definition YAW :: nat where "YAW = 3"
definition AUX1 :: nat where "AUX1 = 4"
definition AUX2 :: nat where "AUX2 = 5"

text \<open>\<open>failsafeChannelMode_e\<close>, as the \<open>uint8_t\<close> values the \<open>mode\<close> field stores.\<close>

definition FAILSAFE_MODE_AUTO :: "8 word" where "FAILSAFE_MODE_AUTO = 0"
definition FAILSAFE_MODE_HOLD :: "8 word" where "FAILSAFE_MODE_HOLD = 1"
definition FAILSAFE_MODE_SET :: "8 word" where "FAILSAFE_MODE_SET = 2"
definition FAILSAFE_MODE_INVALID :: "8 word" where "FAILSAFE_MODE_INVALID = 3"

record failsafeChannelConfig =
  mode :: "8 word"
  step :: "8 word"

text \<open>
  \<open>cmp32\<close>: the difference of two unsigned 32-bit counters, read as a signed number.
\<close>

definition cmp32 :: "32 word \<Rightarrow> 32 word \<Rightarrow> int" where
  "cmp32 a b = sint (a - b)"

text \<open>
  \<open>rxfail_step_to_channel_value\<close>: the sum is computed in \<open>int\<close> and returned through
  the function's \<open>uint8_t\<close> return type, which keeps its low eight bits.
\<close>

definition rxfail_step_to_channel_value :: "8 word \<Rightarrow> 8 word" where
  "rxfail_step_to_channel_value s = word_of_nat (PWM_PULSE_MIN + 25 * unat s)"

text \<open>\<open>isPulseValid\<close> takes a \<open>uint16_t\<close>; its callers pass a \<open>float\<close>.\<close>

definition isPulseValid :: "16 word \<Rightarrow> bool" where
  "isPulseValid pulseDuration \<longleftrightarrow> 885 \<le> pulseDuration \<and> pulseDuration \<le> 2115"

text \<open>
  The configuration table that \<open>getFailValue\<close> builds on each call, by its three loops
  and one assignment. The local array starts uninitialised in the source; every field is
  written before it is read.
\<close>

definition failsafeChannelConfigs :: "failsafeChannelConfig list" where
  "failsafeChannelConfigs =
     (let c0 = replicate CHANNEL_COUNT \<lparr>mode = 0, step = 0\<rparr>;
          c1 = fold (\<lambda>i c. c[i := (c ! i)\<lparr>step := 30\<rparr>]) [0..<CHANNEL_COUNT] c0;
          c2 = c1[3 := (c1 ! 3)\<lparr>step := 5\<rparr>];
          c3 = fold (\<lambda>i c. c[i := (c ! i)\<lparr>mode := 0\<rparr>]) [0..<4] c2;
          c4 = fold (\<lambda>i c. c[i := (c ! i)\<lparr>mode := 1\<rparr>]) [4..<CHANNEL_COUNT] c3
      in c4)"

text \<open>The \<open>switch\<close> of \<open>getFailValue\<close> on one channel's configuration.\<close>

definition failValueOfConfig :: "failsafeChannelConfig \<Rightarrow> real list \<Rightarrow> nat \<Rightarrow> 16 word" where
  "failValueOfConfig channelFailsafeConfig rcData channel =
     (if mode channelFailsafeConfig = FAILSAFE_MODE_AUTO then
        (if channel = ROLL \<or> channel = PITCH \<or> channel = YAW then 1500 else 885)
      else if mode channelFailsafeConfig = FAILSAFE_MODE_INVALID
            \<or> mode channelFailsafeConfig = FAILSAFE_MODE_HOLD then
        float_to_u16 (rcData ! channel)
      else if mode channelFailsafeConfig = FAILSAFE_MODE_SET then
        ucast (rxfail_step_to_channel_value (step channelFailsafeConfig))
      else 0)"

text \<open>
  \<open>getFailValue rcData channel\<close>, for \<open>channel < CHANNEL_COUNT\<close>: the source indexes
  two arrays of that size with it, and every caller stays below the bound.
\<close>

definition getFailValue :: "real list \<Rightarrow> nat \<Rightarrow> 16 word" where
  "getFailValue rcData channel =
     failValueOfConfig (failsafeChannelConfigs ! channel) rcData channel"

section \<open>MSP parser and reply serialisation (parser.hpp)\<close>

text \<open>
  The output buffer as the serialisation helpers see it: the byte array, the number of
  bytes written and the running checksum. The array is indexed by \<open>uint8_t\<close> values,
  so it is a function on bytes.
\<close>

record outbuf =
  ob_buffer :: "8 word \<Rightarrow> 8 word"
  ob_size :: "8 word"
  ob_checksum :: "8 word"

definition addToOutBuf :: "outbuf \<Rightarrow> bool \<Rightarrow> 8 word \<Rightarrow> outbuf" where
  "addToOutBuf b ready byte =
     b\<lparr>ob_buffer := (ob_buffer b)(ob_size b := (if ready then byte else ob_buffer b (ob_size b))),
       ob_size := (if ready then ob_size b + 1 else ob_size b)\<rparr>"

definition serialize :: "outbuf \<Rightarrow> bool \<Rightarrow> 8 word \<Rightarrow> outbuf" where
  "serialize b ready byte =
     (let b1 = addToOutBuf b ready byte
      in b1\<lparr>ob_checksum := (if ready then ob_checksum b1 XOR byte else ob_checksum b1)\<rparr>)"

definition prepareToSerialize :: "outbuf \<Rightarrow> bool \<Rightarrow> 8 word \<Rightarrow> 8 word \<Rightarrow> 8 word \<Rightarrow> outbuf" where
  "prepareToSerialize b ready type count sz =
     (let b0 = b\<lparr>ob_size := (if ready then 0 else ob_size b),
                  ob_checksum := (if ready then 0 else ob_checksum b)\<rparr>;
          b1 = addToOutBuf b0 ready 0x24;
          b2 = addToOutBuf b1 ready 0x4D;
          b3 = addToOutBuf b2 ready 0x3E;
          b4 = serialize b3 ready (count * sz)
      in serialize b4 ready type)"

definition completeSend :: "outbuf \<Rightarrow> bool \<Rightarrow> outbuf" where
  "completeSend b ready = serialize b ready (ob_checksum b)"

definition prepareToSerializeFloats :: "outbuf \<Rightarrow> bool \<Rightarrow> 8 word \<Rightarrow> 8 word \<Rightarrow> outbuf" where
  "prepareToSerializeFloats b ready type count = prepareToSerialize b ready type count 4"

text \<open>
  \<open>serializeFloat\<close>: \<open>uint32_t uintval = 1000 * (value + 2)\<close> adds and multiplies in
  \<open>float\<close> and converts the product to an unsigned 32-bit integer, then the four bytes
  go out lowest first.
\<close>

definition serializeFloat :: "outbuf \<Rightarrow> bool \<Rightarrow> real \<Rightarrow> outbuf" where
  "serializeFloat b ready v =
     (let uintval = float_to_u32 (f32 (1000 * f32 (v + 2)));
          b1 = serialize b ready (ucast (uintval AND 0xFF));
          b2 = serialize b1 ready (ucast (drop_bit 8 uintval AND 0xFF));
          b3 = serialize b2 ready (ucast (drop_bit 16 uintval AND 0xFF))
      in serialize b3 ready (ucast (drop_bit 24 uintval AND 0xFF)))"

text \<open>
  The function-static variables of \<open>parser_parse\<close> (the source's \<open>parser_state_\<close>,
  \<open>type_\<close>, ... carry the suffix \<open>_s\<close> here, since a name cannot end in an underscore),
  the caller's buffer with its size and read index, and the two motor outputs.
\<close>

record parser =
  parser_state_s :: "8 word"
  type_s :: "8 word"
  crc_s :: "8 word"
  size_s :: "8 word"
  index_s :: "8 word"
  buffer_size_s :: "8 word"
  buffer_checksum_s :: "8 word"
  buffer :: "8 word \<Rightarrow> 8 word"
  buffer_size :: "8 word"
  buffer_index :: "8 word"
  motor_index :: "8 word"
  motor_percent :: "8 word"

text \<open>
  What one call reads from outside: the serial stream variables, the vehicle state
  arguments and the receiver stream variables.
\<close>

record msp_in =
  stream_serialByte :: "8 word"
  stream_serialAvailable :: bool
  state_phi :: real
  state_theta :: real
  state_psi :: real
  stream_receiverThrottle :: real
  stream_receiverRoll :: real
  stream_receiverPitch :: real
  stream_receiverYaw :: real
  stream_receiverAux1 :: real
  stream_receiverAux2 :: real

text \<open>The payload test of \<open>parser_parse\<close>, on the values of the statics before the call.\<close>

definition in_payload :: "parser \<Rightarrow> msp_in \<Rightarrow> bool" where
  "in_payload p i \<longleftrightarrow>
     (let size1 = (if parser_state_s p = 3 then stream_serialByte i else size_s p);
          index1 = (if parser_state_s p = 5 then index_s p + 1 else 0)
      in 200 \<le> type_s p \<and> parser_state_s p = 5 \<and> index1 \<le> size1)"

definition parser_parse :: "parser \<Rightarrow> msp_in \<Rightarrow> parser" where
  "parser_parse p i =
     (let byte = stream_serialByte i;
          st = parser_state_s p;
          size1 = (if st = 3 then byte else size_s p);
          index1 = (if st = 5 then index_s p + 1 else 0);
          inp = (200 \<le> type_s p \<and> st = 5 \<and> index1 \<le> size1);
          type1 = (if st = 4 then byte else type_s p);
          crc1 = (if st = 3 then byte
                  else if st = 4 then crc_s p XOR byte
                  else if inp then crc_s p XOR byte
                  else if st = 5 then crc_s p
                  else 0);
          st1 = (if st = 0 \<and> byte = 0x24 then 1
                 else if st = 1 \<and> byte = 0x4D then 2
                 else if st = 2 \<and> (byte = 0x3C \<or> byte = 0x3E) then 3
                 else if st = 3 then 4
                 else if st = 4 then 5
                 else if st = 5 \<and> inp then 5
                 else if st = 5 then 0
                 else st);
          pindex = (if inp then index1 - 1 else 0);
          buf1 = (buffer p)(pindex := (if inp then byte else buffer p pindex));
          ready = (stream_serialAvailable i \<and> st1 = 0 \<and> crc1 = byte);
          bidx1 = (if ready then 0 else buffer_index p);
          ob = \<lparr>ob_buffer = buf1, ob_size = buffer_size_s p,
                ob_checksum = buffer_checksum_s p\<rparr>;
          ob1 =
            (if type1 = 121 then
               completeSend
                 (serializeFloat
                   (serializeFloat
                     (serializeFloat
                       (serializeFloat
                         (serializeFloat
                           (serializeFloat
                             (prepareToSerializeFloats ob ready type1 6)
                             ready (stream_receiverThrottle i))
                           ready (stream_receiverRoll i))
                         ready (stream_receiverPitch i))
                       ready (stream_receiverYaw i))
                     ready (stream_receiverAux1 i))
                   ready (stream_receiverAux2 i))
                 ready
             else if type1 = 122 then
               completeSend
                 (serializeFloat
                   (serializeFloat
                     (serializeFloat
                       (prepareToSerializeFloats ob ready type1 3)
                       ready (state_phi i))
                     ready (state_theta i))
                   ready (state_psi i))
                 ready
             else ob)
      in \<lparr>parser_state_s = st1, type_s = type1, crc_s = crc1, size_s = size1, index_s = index1,
          buffer_size_s = ob_size ob1, buffer_checksum_s = ob_checksum ob1,
          buffer = ob_buffer ob1, buffer_size = ob_size ob1, buffer_index = bidx1,
          motor_index = (if type1 = 215 then ob_buffer ob1 0 else 0),
          motor_percent = (if type1 = 215 then ob_buffer ob1 1 else 0)\<rparr>)"




text \<open>The statics at program start, with a zeroed buffer.\<close>

definition initParser :: parser where
  "initParser = \<lparr>parser_state_s = 0, type_s = 0, crc_s = 0, size_s = 0, index_s = 0,
     buffer_size_s = 0, buffer_checksum_s = 0, buffer = (\<lambda>_. 0), buffer_size = 0,
     buffer_index = 0, motor_index = 0, motor_percent = 0\<rparr>"

text \<open>Feeding a sequence of serial bytes, each one available, with fixed other inputs.\<close>

definition feed :: "msp_in \<Rightarrow> parser \<Rightarrow> 8 word list \<Rightarrow> parser" where
  "feed i p bs =
     foldl (\<lambda>q b. parser_parse q (i\<lparr>stream_serialByte := b, stream_serialAvailable := True\<rparr>))
       p bs"



definition xor_bytes :: "8 word list \<Rightarrow> 8 word" where
  "xor_bytes bs = foldl (XOR) 0 bs"

definition quietInput :: msp_in where
  "quietInput = \<lparr>stream_serialByte = 0, stream_serialAvailable = False,
     state_phi = 0, state_theta = 0, state_psi = 0,
     stream_receiverThrottle = 0, stream_receiverRoll = 0, stream_receiverPitch = 0,
     stream_receiverYaw = 0, stream_receiverAux1 = 0, stream_receiverAux2 = 0\<rparr>"








text \<open>
  A motor-override frame without its checksum byte: \<open>$M<\<close>, size 2, type 215 and the
  payload motor 3 at 50 percent. The checksum byte that completes it is 228.
\<close>

definition motorFrame :: "8 word list" where
  "motorFrame = [0x24, 0x4D, 0x3C, 2, 215, 3, 50]"

section \<open>Receiver state (receiver.h)\<close>

text \<open>\<open>pt3Filter_t\<close> and \<open>demands_t\<close>, with the fields the receiver uses.\<close>

record pt3Filter =
  state :: real
  state1 :: real
  state2 :: real
  k :: real

record demands =
  throttle :: real
  roll :: real
  pitch :: real
  yaw :: real

record smoothingFilter =
  autoSmoothnessFactorSetpoint :: "8 word"
  averageFrameTimeUs :: "32 word"
  autoSmoothnessFactorThrottle :: "8 word"
  feedforwardCutoffFrequency :: "16 word"
  ffCutoffSetting :: "8 word"
  filterThrottle :: pt3Filter
  filterRoll :: pt3Filter
  filterPitch :: pt3Filter
  filterYaw :: pt3Filter
  filterDeflectionRoll :: pt3Filter
  filterDeflectionPitch :: pt3Filter
  filterInitialized :: bool
  setpointCutoffFrequency :: "16 word"
  setpointCutoffSetting :: "8 word"
  throttleCutoffFrequency :: "16 word"
  throttleCutoffSetting :: "8 word"
  trainingSum :: real
  trainingCount :: "32 word"
  trainingMax :: "16 word"
  trainingMin :: "16 word"

text \<open>
  The members of \<open>Receiver\<close> that the functions modelled below read or write. Arrays are
  lists of \<open>CHANNEL_COUNT\<close> elements (\<open>m_command\<close>: four).
\<close>

record receiver =
  m_smoothingFilter :: smoothingFilter
  m_auxiliaryProcessingRequired :: bool
  m_calculatedCutoffs :: bool
  m_channelData :: "16 word list"
  m_command :: "real list"
  m_commands :: demands
  m_dataProcessingRequired :: bool
  m_dataToSmooth :: demands
  m_gotNewData :: bool
  m_inFailsafeMode :: bool
  m_initializedFilter :: bool
  m_invalidPulsePeriod :: "32 word list"
  m_isRateValid :: bool
  m_nextUpdateAtUs :: "32 word"
  m_previousFrameTimeUs :: "32 word"
  m_raw :: "real list"
  m_refreshPeriod :: "32 word"
  m_signalReceived :: bool
  m_validFrameTimeMs :: "32 word"

text \<open>
  Modelled from the spec: \<open>constrain_f\<close> of \<open>maths.h\<close>, which is not among the sources.
  The spec calls its results clamped to the two bounds.
\<close>

definition constrain_f :: "real \<Rightarrow> real \<Rightarrow> real \<Rightarrow> real" where
  "constrain_f amt low high = (if amt < low then low else if amt > high then high else amt)"

definition DELAY_15_HZ :: "32 word" where
  "DELAY_15_HZ = 1000000 div 15"

definition applyChannelRangeConfiguraton :: "real \<Rightarrow> real" where
  "applyChannelRangeConfiguraton sample =
     (if sample = 0 then 0 else constrain_f sample (real PWM_PULSE_MIN) (real PWM_PULSE_MAX))"

text \<open>
  \<open>readChannelsApplyRanges\<close>. \<open>convert\<close> is pure virtual in \<open>Receiver\<close>; the protocol's
  conversion is the parameter \<open>conv\<close>.
\<close>

definition readChannelsApplyRanges ::
    "(16 word list \<Rightarrow> nat \<Rightarrow> real) \<Rightarrow> receiver \<Rightarrow> receiver" where
  "readChannelsApplyRanges conv r =
     r\<lparr>m_raw :=
        fold (\<lambda>channel raw.
                raw[channel :=
                  (let sample = conv (m_channelData r) channel
                   in if channel < 4 then applyChannelRangeConfiguraton sample else sample)])
             [0..<CHANNEL_COUNT] (m_raw r)\<rparr>"

text \<open>
  One round of the first loop of \<open>detectAndApplySignalLossBehaviour\<close>, on the array
  \<open>raw\<close>, the array \<open>m_invalidPulsePeriod\<close> and the flag \<open>flightChannelsValid\<close>. The
  \<open>continue\<close> of the source leaves all three as they are.
\<close>

definition signalLossChannel ::
    "32 word \<Rightarrow> bool \<Rightarrow> nat \<Rightarrow> real list \<times> 32 word list \<times> bool
       \<Rightarrow> real list \<times> 32 word list \<times> bool" where
  "signalLossChannel currentTimeMs useValueFromRx channel s =
     (case s of (raw, invalidPulsePeriod, flightChannelsValid) \<Rightarrow>
        let sample = raw ! channel;
            validPulse = (useValueFromRx \<and> isPulseValid (float_to_u16 sample))
        in if validPulse then
             (raw[channel := sample],
              invalidPulsePeriod[channel := currentTimeMs + MAX_INVALID__PULSE_TIME],
              flightChannelsValid)
           else if cmp32 currentTimeMs (invalidPulsePeriod ! channel) < 0 then
             (raw, invalidPulsePeriod, flightChannelsValid)
           else
             (raw[channel := u16_to_float (getFailValue raw channel)],
              invalidPulsePeriod,
              (if channel < 4 then False else flightChannelsValid)))"

text \<open>
  Which of the two \<open>Failsafe\<close> methods a call makes; their effect on the \<open>Failsafe\<close>
  object and the arming data is outside the receiver.
\<close>

datatype failsafe_call = OnValidDataReceived | OnValidDataFailed

definition detectAndApplySignalLossBehaviour ::
    "receiver \<Rightarrow> 32 word \<Rightarrow> receiver \<times> failsafe_call" where
  "detectAndApplySignalLossBehaviour r currentTimeUs =
     (let currentTimeMs = currentTimeUs div 1000;
          useValueFromRx = (m_signalReceived r \<and> \<not> m_inFailsafeMode r)
      in case fold (signalLossChannel currentTimeMs useValueFromRx) [0..<CHANNEL_COUNT]
                (m_raw r, m_invalidPulsePeriod r, True) of
           (raw, invalidPulsePeriod, flightChannelsValid) \<Rightarrow>
             if flightChannelsValid then
               (r\<lparr>m_raw := raw, m_invalidPulsePeriod := invalidPulsePeriod\<rparr>,
                OnValidDataReceived)
             else
               (r\<lparr>m_inFailsafeMode := True,
                  m_invalidPulsePeriod := invalidPulsePeriod,
                  m_raw :=
                    fold (\<lambda>channel raw'.
                            raw'[channel := u16_to_float (getFailValue raw' channel)])
                         [0..<CHANNEL_COUNT] raw\<rparr>,
                OnValidDataFailed))"

text \<open>
  \<open>calculateChannelsAndUpdateFailsafe\<close> on \<open>m_raw\<close>, as \<open>poll\<close> calls it: the updated
  receiver, the returned flag and the \<open>Failsafe\<close> call made, if any.
\<close>

definition calculateChannelsAndUpdateFailsafe ::
    "(16 word list \<Rightarrow> nat \<Rightarrow> real) \<Rightarrow> receiver \<Rightarrow> 32 word
       \<Rightarrow> receiver \<times> bool \<times> failsafe_call option" where
  "calculateChannelsAndUpdateFailsafe conv r currentTimeUs =
     (let r1 = (if m_auxiliaryProcessingRequired r
                then r\<lparr>m_auxiliaryProcessingRequired := False\<rparr> else r)
      in if \<not> m_dataProcessingRequired r1 then (r1, False, None)
         else
           let r2 = r1\<lparr>m_dataProcessingRequired := False,
                       m_nextUpdateAtUs := currentTimeUs + DELAY_15_HZ\<rparr>;
               r3 = readChannelsApplyRanges conv r2
           in case detectAndApplySignalLossBehaviour r3 currentTimeUs of
                (r4, call) \<Rightarrow> (r4, True, Some call))"

text \<open>
  A frame arriving: what \<open>check\<close> leaves behind when \<open>devCheck\<close> reports a complete frame
  without failsafe or drop flags, with the new channel data \<open>chans\<close>.
\<close>

definition frameReceived :: "receiver \<Rightarrow> 16 word list \<Rightarrow> receiver" where
  "frameReceived r chans =
     r\<lparr>m_channelData := chans, m_inFailsafeMode := False, m_signalReceived := True,
       m_dataProcessingRequired := True\<rparr>"

text \<open>A conversion that passes the channel data on as microseconds.\<close>

definition convertMicroseconds :: "16 word list \<Rightarrow> nat \<Rightarrow> real" where
  "convertMicroseconds chanData chanId = u16_to_float (chanData ! chanId)"

definition zeroFilter :: pt3Filter where
  "zeroFilter = \<lparr>state = 0, state1 = 0, state2 = 0, k = 0\<rparr>"

definition zeroDemands :: demands where
  "zeroDemands = \<lparr>throttle = 0, roll = 0, pitch = 0, yaw = 0\<rparr>"

text \<open>The receiver object at program start: every member zero.\<close>

definition bootReceiver :: receiver where
  "bootReceiver =
     \<lparr>m_smoothingFilter =
        \<lparr>autoSmoothnessFactorSetpoint = 0, averageFrameTimeUs = 0,
         autoSmoothnessFactorThrottle = 0, feedforwardCutoffFrequency = 0,
         ffCutoffSetting = 0, filterThrottle = zeroFilter, filterRoll = zeroFilter,
         filterPitch = zeroFilter, filterYaw = zeroFilter,
         filterDeflectionRoll = zeroFilter, filterDeflectionPitch = zeroFilter,
         filterInitialized = False, setpointCutoffFrequency = 0,
         setpointCutoffSetting = 0, throttleCutoffFrequency = 0,
         throttleCutoffSetting = 0, trainingSum = 0, trainingCount = 0,
         trainingMax = 0, trainingMin = 0\<rparr>,
      m_auxiliaryProcessingRequired = False, m_calculatedCutoffs = False,
      m_channelData = replicate CHANNEL_COUNT 0, m_command = replicate 4 0,
      m_commands = zeroDemands, m_dataProcessingRequired = False,
      m_dataToSmooth = zeroDemands, m_gotNewData = False, m_inFailsafeMode = False,
      m_initializedFilter = False, m_invalidPulsePeriod = replicate CHANNEL_COUNT 0,
      m_isRateValid = False, m_nextUpdateAtUs = 0, m_previousFrameTimeUs = 0,
      m_raw = replicate CHANNEL_COUNT 0, m_refreshPeriod = 0, m_signalReceived = False,
      m_validFrameTimeMs = 0\<rparr>"

text \<open>
  Two frames 100 ms apart: all channels at 1500, then the same with roll at 800, each
  followed by \<open>calculateChannelsAndUpdateFailsafe\<close>.
\<close>

definition afterValidFrame :: receiver where
  "afterValidFrame =
     fst (calculateChannelsAndUpdateFailsafe convertMicroseconds
            (frameReceived bootReceiver (replicate CHANNEL_COUNT 1500)) 6000000)"

definition afterInvalidRoll :: receiver where
  "afterInvalidRoll =
     fst (calculateChannelsAndUpdateFailsafe convertMicroseconds
            (frameReceived afterValidFrame ((replicate CHANNEL_COUNT 1500)[ROLL := 800]))
            6100000)"

section \<open>Receiver: smoothing filter and demands (receiver.h)\<close>

definition SMOOTHING_CUTOFF_MIN_HZ :: "16 word" where
  "SMOOTHING_CUTOFF_MIN_HZ = 15"

definition SMOOTHING_FEEDFORWARD_INITIAL_HZ :: "16 word" where
  "SMOOTHING_FEEDFORWARD_INITIAL_HZ = 100"

definition SMOOTHING_FILTER_RETRAINING_DELAY_MS :: "32 word" where
  "SMOOTHING_FILTER_RETRAINING_DELAY_MS = 2000"

definition SMOOTHING_FILTER_RETRAINING_SAMPLES :: "32 word" where
  "SMOOTHING_FILTER_RETRAINING_SAMPLES = 20"

definition SMOOTHING_FILTER_STARTUP_DELAY_MS :: "32 word" where
  "SMOOTHING_FILTER_STARTUP_DELAY_MS = 5000"

definition SMOOTHING_FILTER_TRAINING_DELAY_MS :: "32 word" where
  "SMOOTHING_FILTER_TRAINING_DELAY_MS = 1000"

definition SMOOTHING_FILTER_TRAINING_SAMPLES :: "32 word" where
  "SMOOTHING_FILTER_TRAINING_SAMPLES = 50"

definition SMOOTHING_RATE_CHANGE_PERCENT :: real where
  "SMOOTHING_RATE_CHANGE_PERCENT = 20"

definition RATE_LIMIT :: real where
  "RATE_LIMIT = 1998"

definition RC_EXPO :: real where "RC_EXPO = 0"
definition RC_RATE :: real where "RC_RATE = 7"
definition RATE :: real where "RATE = 67"
definition COMMAND_DIVIDER :: real where "COMMAND_DIVIDER = 500"
definition YAW_COMMAND_DIVIDER :: real where "YAW_COMMAND_DIVIDER = 500"

text \<open>
  Constants of \<open>clock.h\<close> and \<open>pwm.h\<close>, which are not among the sources, taken as
  parameters: \<open>Clock::PERIOD()\<close>, \<open>Clock::DT()\<close>, \<open>PWM_MIN\<close> and \<open>PWM_MAX\<close>.
\<close>

record platform =
  clock_PERIOD :: real
  clock_DT :: real
  PWM_MIN :: real
  PWM_MAX :: real

text \<open>
  \<open>anglePid_t\<close>, with the two members the receiver writes. The array's length is in a
  declaration that is not among the sources, so it is a function of the index.
\<close>

record anglePid =
  feedforwardLpfInitialized :: bool
  feedforwardPt3 :: "nat \<Rightarrow> pt3Filter"

text \<open>
  \<open>pt3FilterGain\<close>. For \<open>f_cut = 0\<close> the source divides by zero: \<open>RC\<close> is \<open>+\<infinity>\<close> in
  \<open>float\<close> arithmetic and the gain \<open>dT / (RC + dT)\<close> is 0.
\<close>

definition pt3FilterGain :: "real \<Rightarrow> real \<Rightarrow> real" where
  "pt3FilterGain f_cut dT =
     (let order = 3;
          orderCutoffCorrection = 1 / sqrt (2 powr (1 / order) - 1)
      in if f_cut = 0 then 0
         else
           let RC = 1 / (2 * orderCutoffCorrection * pi * f_cut)
           in dT / (RC + dT))"

definition pt3FilterInit :: "real \<Rightarrow> pt3Filter" where
  "pt3FilterInit gain = \<lparr>state = 0, state1 = 0, state2 = 0, k = gain\<rparr>"

definition pt3FilterUpdateCutoff :: "pt3Filter \<Rightarrow> real \<Rightarrow> pt3Filter" where
  "pt3FilterUpdateCutoff flt gain = flt\<lparr>k := gain\<rparr>"

text \<open>
  Modelled from the spec: \<open>pt3FilterApply\<close> of \<open>filters/pt3.h\<close>, which is not among the
  sources. The spec has a third-order low-pass with gain \<open>k\<close>, the source three state
  variables: three first-order stages in cascade, each moving its state towards its
  input by the fraction \<open>k\<close>. The result is the updated filter and its output.
\<close>

definition pt3FilterApply :: "pt3Filter \<Rightarrow> real \<Rightarrow> pt3Filter \<times> real" where
  "pt3FilterApply flt input =
     (let s1 = state1 flt + k flt * (input - state1 flt);
          s2 = state2 flt + k flt * (s1 - state2 flt);
          s = state flt + k flt * (s2 - state flt)
      in (flt\<lparr>state := s, state1 := s1, state2 := s2\<rparr>, s))"

definition applyRates :: "real \<Rightarrow> real \<Rightarrow> real" where
  "applyRates commandf commandfAbs =
     (let expof0 = RC_EXPO / 100;
          expof = commandfAbs * (commandf ^ 5 * expof0 + commandf * (1 - expof0));
          centerSensitivity = RC_RATE * 10;
          stickMovement = max 0 (RATE * 10 - centerSensitivity);
          angleRate = commandf * centerSensitivity + stickMovement * expof
      in angleRate)"

definition getRawSetpoint :: "real \<Rightarrow> real \<Rightarrow> real" where
  "getRawSetpoint command divider =
     (let commandf = command / divider;
          commandfAbs = \<bar>commandf\<bar>;
          angleRate = applyRates commandf commandfAbs
      in constrain_f angleRate (- RATE_LIMIT) RATE_LIMIT)"

text \<open>
  \<open>calcAutoSmoothingCutoff\<close>. Its first parameter is an \<open>int\<close>; the callers pass the
  \<open>uint32_t\<close> member \<open>averageFrameTimeUs\<close>. Every operation is a \<open>float\<close> operation:
  the frame time is converted to \<open>float\<close>, \<open>1e-6f\<close> is the \<open>float\<close> nearest to
  \<open>1/1000000\<close>, and the product, the quotients and the sum are rounded. The smoothness
  factor, a \<open>uint8_t\<close>, and the constants 1, 1.5 and 10 are \<open>float\<close> numbers as they are.
\<close>

definition calcAutoSmoothingCutoff :: "int \<Rightarrow> 8 word \<Rightarrow> int" where
  "calcAutoSmoothingCutoff avgRxFrameTimeUs autoSmoothnessFactor =
     (if avgRxFrameTimeUs > 0 then
        let cutoffFactor = f32 (1.5 / f32 (1.0 + f32 (real (unat autoSmoothnessFactor) / 10.0)));
            cutoff = f32 (1 / f32 (f32 (real_of_int avgRxFrameTimeUs) * f32 (1 / 1000000)));
            cutoff' = f32 (cutoff * cutoffFactor)
        in lrintf cutoff'
      else 0)"

definition rcSmoothingResetAccumulation :: "smoothingFilter \<Rightarrow> smoothingFilter" where
  "rcSmoothingResetAccumulation sf =
     sf\<lparr>trainingSum := 0, trainingCount := 0, trainingMin := 65535, trainingMax := 0\<rparr>"

definition ratePidFeedforwardLpfInit :: "platform \<Rightarrow> anglePid \<Rightarrow> 16 word \<Rightarrow> anglePid" where
  "ratePidFeedforwardLpfInit pf a filterCutoff =
     (if filterCutoff > 0 then
        a\<lparr>feedforwardLpfInitialized := True,
          feedforwardPt3 := (feedforwardPt3 a)
            (0 := pt3FilterInit (pt3FilterGain (u16_to_float filterCutoff) (clock_DT pf)),
             1 := pt3FilterInit (pt3FilterGain (u16_to_float filterCutoff) (clock_DT pf)),
             2 := pt3FilterInit (pt3FilterGain (u16_to_float filterCutoff) (clock_DT pf)))\<rparr>
      else a)"

definition ratePidFeedforwardLpfUpdate :: "platform \<Rightarrow> anglePid \<Rightarrow> 16 word \<Rightarrow> anglePid" where
  "ratePidFeedforwardLpfUpdate pf a filterCutoff =
     (if filterCutoff > 0 then
        a\<lparr>feedforwardPt3 :=
            fold (\<lambda>axis fs. fs(axis := pt3FilterUpdateCutoff (fs axis)
                     (pt3FilterGain (u16_to_float filterCutoff) (clock_DT pf))))
                 [ROLL..<Suc YAW] (feedforwardPt3 a)\<rparr>
      else a)"

definition smoothingFilterInit ::
    "smoothingFilter \<Rightarrow> pt3Filter \<Rightarrow> real \<Rightarrow> real \<Rightarrow> pt3Filter" where
  "smoothingFilterInit sf flt cutoffFrequency dT =
     (if \<not> filterInitialized sf
      then pt3FilterInit (pt3FilterGain cutoffFrequency dT)
      else pt3FilterUpdateCutoff flt (pt3FilterGain cutoffFrequency dT))"

definition smoothingFilterInitRollPitchYaw ::
    "smoothingFilter \<Rightarrow> pt3Filter \<Rightarrow> real \<Rightarrow> pt3Filter" where
  "smoothingFilterInitRollPitchYaw sf flt dT =
     smoothingFilterInit sf flt (u16_to_float (setpointCutoffFrequency sf)) dT"

definition levelFilterInit :: "smoothingFilter \<Rightarrow> pt3Filter \<Rightarrow> real \<Rightarrow> pt3Filter" where
  "levelFilterInit sf flt dT =
     (if \<not> filterInitialized sf
      then pt3FilterInit (pt3FilterGain (u16_to_float (setpointCutoffFrequency sf)) dT)
      else pt3FilterUpdateCutoff flt
             (pt3FilterGain (u16_to_float (setpointCutoffFrequency sf)) dT))"

definition smoothingFilterApply ::
    "smoothingFilter \<Rightarrow> pt3Filter \<Rightarrow> real \<Rightarrow> pt3Filter \<times> real" where
  "smoothingFilterApply sf flt dataToSmooth =
     (if filterInitialized sf then pt3FilterApply flt dataToSmooth
      else (flt, dataToSmooth))"

text \<open>
  The value an auto cutoff is set to: the \<open>float\<close> that \<open>fmaxf\<close> returns for the
  minimum and the calculated cutoff (an \<open>int\<close>, converted to \<open>float\<close>), and what the
  \<open>uint16_t\<close> member holds after the assignment.
\<close>

definition autoCutoffValue :: "smoothingFilter \<Rightarrow> 8 word \<Rightarrow> real" where
  "autoCutoffValue sf autoSmoothnessFactor =
     max (u16_to_float SMOOTHING_CUTOFF_MIN_HZ)
         (f32 (real_of_int
            (calcAutoSmoothingCutoff (sint (averageFrameTimeUs sf)) autoSmoothnessFactor)))"

definition autoCutoff :: "smoothingFilter \<Rightarrow> 8 word \<Rightarrow> 16 word" where
  "autoCutoff sf autoSmoothnessFactor = float_to_u16 (autoCutoffValue sf autoSmoothnessFactor)"

definition setSmoothingFilterCutoffs ::
    "platform \<Rightarrow> anglePid \<Rightarrow> smoothingFilter \<Rightarrow> anglePid \<times> smoothingFilter" where
  "setSmoothingFilterCutoffs pf a sf =
     (let dT = clock_PERIOD pf * (1 / 1000000);
          oldCutoff = setpointCutoffFrequency sf;
          sf1 = (if setpointCutoffSetting sf = 0
                 then sf\<lparr>setpointCutoffFrequency :=
                          autoCutoff sf (autoSmoothnessFactorSetpoint sf)\<rparr>
                 else sf);
          sf2 = (if throttleCutoffSetting sf1 = 0
                 then sf1\<lparr>throttleCutoffFrequency :=
                          autoCutoff sf1 (autoSmoothnessFactorThrottle sf1)\<rparr>
                 else sf1);
          sf3 = (if setpointCutoffFrequency sf2 \<noteq> oldCutoff \<or> \<not> filterInitialized sf2
                 then sf2\<lparr>filterThrottle :=
                            smoothingFilterInit sf2 (filterThrottle sf2)
                              (u16_to_float (throttleCutoffFrequency sf2)) dT,
                          filterRoll := smoothingFilterInitRollPitchYaw sf2 (filterRoll sf2) dT,
                          filterPitch := smoothingFilterInitRollPitchYaw sf2 (filterPitch sf2) dT,
                          filterYaw := smoothingFilterInitRollPitchYaw sf2 (filterYaw sf2) dT,
                          filterDeflectionRoll :=
                            levelFilterInit sf2 (filterDeflectionRoll sf2) dT,
                          filterDeflectionPitch :=
                            levelFilterInit sf2 (filterDeflectionPitch sf2) dT\<rparr>
                 else sf2);
          oldCutoff' = feedforwardCutoffFrequency sf3;
          sf4 = (if ffCutoffSetting sf3 = 0
                 then sf3\<lparr>feedforwardCutoffFrequency :=
                          autoCutoff sf3 (autoSmoothnessFactorSetpoint sf3)\<rparr>
                 else sf3);
          a' = (if \<not> filterInitialized sf4
                then ratePidFeedforwardLpfInit pf a (feedforwardCutoffFrequency sf4)
                else if feedforwardCutoffFrequency sf4 \<noteq> oldCutoff'
                then ratePidFeedforwardLpfUpdate pf a (feedforwardCutoffFrequency sf4)
                else a)
      in (a', sf4))"

text \<open>
  \<open>rcSmoothingAccumulateSample\<close>: the updated filter and the returned flag. The sum is a
  \<open>float\<close>, the minimum and maximum go through \<open>fminf\<close> and \<open>fmaxf\<close> back into
  \<open>uint16_t\<close> members, and the average goes through \<open>lrintf\<close> into a \<open>uint32_t\<close>.
\<close>

definition rcSmoothingAccumulateSample :: "smoothingFilter \<Rightarrow> int \<Rightarrow> smoothingFilter \<times> bool" where
  "rcSmoothingAccumulateSample sf frameTimeUs =
     (let sf1 = sf\<lparr>trainingSum := trainingSum sf + real_of_int frameTimeUs,
                    trainingCount := trainingCount sf + 1,
                    trainingMax :=
                      float_to_u16 (max (u16_to_float (trainingMax sf)) (real_of_int frameTimeUs)),
                    trainingMin :=
                      float_to_u16 (min (u16_to_float (trainingMin sf)) (real_of_int frameTimeUs))\<rparr>;
          sampleLimit = (if filterInitialized sf1 then SMOOTHING_FILTER_RETRAINING_SAMPLES
                         else SMOOTHING_FILTER_TRAINING_SAMPLES)
      in if trainingCount sf1 \<ge> sampleLimit then
           let sum' = trainingSum sf1 - u16_to_float (trainingMin sf1)
                        - u16_to_float (trainingMax sf1);
               sf2 = sf1\<lparr>trainingSum := sum',
                         averageFrameTimeUs :=
                           word_of_int (lrintf (sum' / real (unat (trainingCount sf1 - 2))))\<rparr>
           in (rcSmoothingResetAccumulation sf2, True)
         else (sf1, False))"

definition rcSmoothingAutoCalculate :: "smoothingFilter \<Rightarrow> bool" where
  "rcSmoothingAutoCalculate sf \<longleftrightarrow>
     setpointCutoffSetting sf = 0 \<or> ffCutoffSetting sf = 0 \<or> throttleCutoffSetting sf = 0"

text \<open>
  The auto cutoff in the spec's words, before rounding and flooring: the link frequency
  \<open>1e6 / avg\<close> times \<open>1.5 / (1 + s / 10)\<close>.
\<close>

definition cutoffFormula :: "real \<Rightarrow> real \<Rightarrow> real" where
  "cutoffFormula avg s = (1000000 / avg) * 1.5 / (1 + s / 10)"

text \<open>
  Concrete inputs for the examples: a platform with an 8 kHz loop and PWM range 1000 to
  2000, an angle PID with zeroed feedforward filters, and the smoothing filter as the first
  call of \<open>processSmoothingFilter\<close> sets it up (smoothness factors 30, all cutoff
  settings auto) with a given average frame time.
\<close>

definition nominalPlatform :: platform where
  "nominalPlatform = \<lparr>clock_PERIOD = 125, clock_DT = 1 / 8000, PWM_MIN = 1000, PWM_MAX = 2000\<rparr>"

definition zeroAnglePid :: anglePid where
  "zeroAnglePid = \<lparr>feedforwardLpfInitialized = False, feedforwardPt3 = (\<lambda>_. zeroFilter)\<rparr>"

definition autoFilter :: "32 word \<Rightarrow> smoothingFilter" where
  "autoFilter avg =
     rcSmoothingResetAccumulation
       ((m_smoothingFilter bootReceiver)
          \<lparr>autoSmoothnessFactorSetpoint := 30, autoSmoothnessFactorThrottle := 30,
           averageFrameTimeUs := avg\<rparr>)"

text \<open>
  A sequence of calls of \<open>rcSmoothingAccumulateSample\<close>, one per frame interval: the
  filter after the last call and the flags returned, in order.
\<close>

primrec accumulateSamples :: "smoothingFilter \<Rightarrow> int list \<Rightarrow> smoothingFilter \<times> bool list" where
  "accumulateSamples sf [] = (sf, [])"
| "accumulateSamples sf (x # xs) =
     (case rcSmoothingAccumulateSample sf x of
        (sf1, b) \<Rightarrow>
          (case accumulateSamples sf1 xs of (sf2, bs) \<Rightarrow> (sf2, b # bs)))"

text \<open>
  The test \<open>percentChange < SMOOTHING_RATE_CHANGE_PERCENT\<close> of
  \<open>processSmoothingFilter\<close>. The difference is taken in \<open>uint32_t\<close> and divided as a
  \<open>float\<close>. For an average of 0 the quotient is infinite or not a number in \<open>float\<close>
  arithmetic, and the comparison is false.
\<close>

definition rateChangeBelowLimit :: "smoothingFilter \<Rightarrow> 32 word \<Rightarrow> bool" where
  "rateChangeBelowLimit sf refreshPeriod \<longleftrightarrow>
     averageFrameTimeUs sf \<noteq> 0 \<and>
     \<bar>real (unat (refreshPeriod - averageFrameTimeUs sf)) / real (unat (averageFrameTimeUs sf))\<bar>
       * 100 < SMOOTHING_RATE_CHANGE_PERCENT"

text \<open>
  \<open>processSmoothingFilter\<close>, first part: the block run on the first call, while
  \<open>m_initializedFilter\<close> is false.
\<close>

definition smoothingFirstCallInit :: "platform \<Rightarrow> receiver \<Rightarrow> anglePid \<Rightarrow> receiver \<times> anglePid" where
  "smoothingFirstCallInit pf r a =
     (let sf0 = rcSmoothingResetAccumulation
                  ((m_smoothingFilter r)
                     \<lparr>filterInitialized := False, averageFrameTimeUs := 0,
                      autoSmoothnessFactorSetpoint := 30, autoSmoothnessFactorThrottle := 30,
                      setpointCutoffSetting := 0, throttleCutoffSetting := 0,
                      ffCutoffSetting := 0\<rparr>);
          sf1 = sf0\<lparr>setpointCutoffFrequency := ucast (setpointCutoffSetting sf0),
                     throttleCutoffFrequency := ucast (throttleCutoffSetting sf0)\<rparr>;
          sf2 = (if ffCutoffSetting sf1 = 0 then
                   let cutoffFactor =
                         f32 (1.5 / f32 (1.0 +
                           f32 (real (unat (autoSmoothnessFactorSetpoint sf1)) / 10.0)));
                       ffCutoff =
                         f32 (u16_to_float SMOOTHING_FEEDFORWARD_INITIAL_HZ * cutoffFactor)
                   in sf1\<lparr>feedforwardCutoffFrequency := word_of_int (lrintf ffCutoff)\<rparr>
                 else sf1\<lparr>feedforwardCutoffFrequency := ucast (ffCutoffSetting sf1)\<rparr>);
          calc = rcSmoothingAutoCalculate sf2;
          r1 = r\<lparr>m_smoothingFilter := sf2, m_calculatedCutoffs := calc\<rparr>
      in if \<not> calc then
           (case setSmoothingFilterCutoffs pf a sf2 of
              (a', sf3) \<Rightarrow> (r1\<lparr>m_smoothingFilter := sf3\<lparr>filterInitialized := True\<rparr>\<rparr>, a'))
         else (r1, a))"

text \<open>
  \<open>processSmoothingFilter\<close>, second part: the examination of a new frame's interval when
  the cutoffs are calculated automatically.
\<close>

definition smoothingTrainOnFrame ::
    "platform \<Rightarrow> receiver \<Rightarrow> anglePid \<Rightarrow> 32 word \<Rightarrow> receiver \<times> anglePid" where
  "smoothingTrainOnFrame pf r a currentTimeUs =
     (let currentTimeMs = currentTimeUs div 1000
      in if currentTimeMs > SMOOTHING_FILTER_STARTUP_DELAY_MS then
           if m_signalReceived r \<and> m_isRateValid r then
             let r1 = (if m_validFrameTimeMs r = 0
                       then r\<lparr>m_validFrameTimeMs :=
                                currentTimeMs +
                                (if filterInitialized (m_smoothingFilter r)
                                 then SMOOTHING_FILTER_RETRAINING_DELAY_MS
                                 else SMOOTHING_FILTER_TRAINING_DELAY_MS)\<rparr>
                       else r);
                 sf = m_smoothingFilter r1
             in if currentTimeMs > m_validFrameTimeMs r1 then
                  if filterInitialized sf \<and> rateChangeBelowLimit sf (m_refreshPeriod r1) then
                    (r1\<lparr>m_smoothingFilter := rcSmoothingResetAccumulation sf\<rparr>, a)
                  else
                    (case rcSmoothingAccumulateSample sf (sint (m_refreshPeriod r1)) of
                       (sf1, collected) \<Rightarrow>
                         if collected then
                           (case setSmoothingFilterCutoffs pf a sf1 of
                              (a', sf2) \<Rightarrow>
                                (r1\<lparr>m_smoothingFilter := sf2\<lparr>filterInitialized := True\<rparr>,
                                    m_validFrameTimeMs := 0\<rparr>, a'))
                         else (r1\<lparr>m_smoothingFilter := sf1\<rparr>, a))
                else (r1, a)
           else (r\<lparr>m_smoothingFilter := rcSmoothingResetAccumulation (m_smoothingFilter r)\<rparr>, a)
         else (r, a))"

text \<open>
  \<open>processSmoothingFilter\<close>, last part: on each call the data to smooth goes through
  the four filters. The results are the new throttle command, stored in the receiver, and
  the three values written to \<open>setpointRate\<close>.
\<close>

definition smoothingApplyFilters :: "receiver \<Rightarrow> receiver \<times> real list" where
  "smoothingApplyFilters r =
     (let sf = m_smoothingFilter r;
          ft = smoothingFilterApply sf (filterThrottle sf) (throttle (m_dataToSmooth r));
          fr = smoothingFilterApply sf (filterRoll sf) (roll (m_dataToSmooth r));
          fp = smoothingFilterApply sf (filterPitch sf) (pitch (m_dataToSmooth r));
          fy = smoothingFilterApply sf (filterYaw sf) (yaw (m_dataToSmooth r))
      in (r\<lparr>m_commands := (m_commands r)\<lparr>throttle := snd ft\<rparr>,
            m_smoothingFilter :=
              sf\<lparr>filterThrottle := fst ft, filterRoll := fst fr,
                 filterPitch := fst fp, filterYaw := fst fy\<rparr>\<rparr>,
          [snd fr, snd fp, snd fy]))"

text \<open>
  \<open>processSmoothingFilter\<close>: the updated receiver and angle PID data and the three
  values written to \<open>setpointRate\<close>.
\<close>

definition processSmoothingFilter ::
    "platform \<Rightarrow> receiver \<Rightarrow> 32 word \<Rightarrow> anglePid \<Rightarrow> real list
       \<Rightarrow> receiver \<times> anglePid \<times> real list" where
  "processSmoothingFilter pf r currentTimeUs a rawSetpoint =
     (case (if \<not> m_initializedFilter r then smoothingFirstCallInit pf r a else (r, a)) of
        (r1, a1) \<Rightarrow>
          let r2 = r1\<lparr>m_initializedFilter := True\<rparr>
          in case (if m_gotNewData r2 then
                     (case (if m_calculatedCutoffs r2
                            then smoothingTrainOnFrame pf r2 a1 currentTimeUs
                            else (r2, a1)) of
                        (r', a') \<Rightarrow>
                          (r'\<lparr>m_dataToSmooth :=
                               \<lparr>throttle = throttle (m_commands r'),
                                roll = rawSetpoint ! 0, pitch = rawSetpoint ! 1,
                                yaw = rawSetpoint ! 2\<rparr>\<rparr>, a'))
                   else (r2, a1)) of
               (r3, a3) \<Rightarrow>
                 (case smoothingApplyFilters r3 of
                    (r4, setpointRate) \<Rightarrow> (r4, a3, setpointRate)))"

definition getDemands ::
    "platform \<Rightarrow> receiver \<Rightarrow> 32 word \<Rightarrow> anglePid \<Rightarrow> receiver \<times> anglePid \<times> demands" where
  "getDemands pf r currentTimeUs a =
     (let r1 = (if m_gotNewData r then r\<lparr>m_previousFrameTimeUs := 0\<rparr> else r);
          rawSetpoint =
            (if m_gotNewData r then
               [getRawSetpoint (m_command r ! ROLL) COMMAND_DIVIDER,
                getRawSetpoint (m_command r ! PITCH) COMMAND_DIVIDER,
                getRawSetpoint (m_command r ! YAW) YAW_COMMAND_DIVIDER]
             else [0, 0, 0])
      in case processSmoothingFilter pf r1 currentTimeUs a rawSetpoint of
           (r2, a', setpointRate) \<Rightarrow>
             (r2\<lparr>m_gotNewData := False\<rparr>, a',
              \<lparr>throttle =
                 constrain_f ((throttle (m_commands r2) - PWM_MIN pf) / (PWM_MAX pf - PWM_MIN pf))
                   0 1,
               roll = setpointRate ! 0, pitch = setpointRate ! 1, yaw = setpointRate ! 2\<rparr>))"

text \<open>
  What the rest of the receiver (\<open>check\<close>, \<open>poll\<close>, \<open>processData\<close>,
  \<open>updateCommands\<close>) may have written between two calls of \<open>getDemands\<close>, with the time
  of the call. Any values are allowed.
\<close>

record rx_inputs =
  inCommand :: "real list"
  inThrottle :: real
  inGotNewData :: bool
  inSignalReceived :: bool
  inIsRateValid :: bool
  inRefreshPeriod :: "32 word"
  inTimeUs :: "32 word"

definition receiveInputs :: "receiver \<Rightarrow> rx_inputs \<Rightarrow> receiver" where
  "receiveInputs r i =
     r\<lparr>m_command := inCommand i,
       m_commands := (m_commands r)\<lparr>throttle := inThrottle i\<rparr>,
       m_gotNewData := inGotNewData i,
       m_signalReceived := inSignalReceived i,
       m_isRateValid := inIsRateValid i,
       m_refreshPeriod := inRefreshPeriod i\<rparr>"

text \<open>The demands produced by successive calls of \<open>getDemands\<close>, oldest first.\<close>

primrec demandsTrace :: "platform \<Rightarrow> receiver \<Rightarrow> anglePid \<Rightarrow> rx_inputs list \<Rightarrow> demands list" where
  "demandsTrace pf r a [] = []"
| "demandsTrace pf r a (i # is) =
     (case getDemands pf (receiveInputs r i) (inTimeUs i) a of
        (r', a', d) \<Rightarrow> d # demandsTrace pf r' a' is)"

text \<open>
  The range of the demands, and the invariant of the receiver that keeps them there: the
  data to smooth and the three states of each setpoint filter lie within the rate limit,
  and each filter gain lies in \<open>[0, 1]\<close>.
\<close>

definition inBand :: "real \<Rightarrow> bool" where
  "inBand x \<longleftrightarrow> - RATE_LIMIT \<le> x \<and> x \<le> RATE_LIMIT"

definition demandsInRange :: "demands \<Rightarrow> bool" where
  "demandsInRange d \<longleftrightarrow>
     0 \<le> throttle d \<and> throttle d \<le> 1 \<and> inBand (roll d) \<and> inBand (pitch d) \<and> inBand (yaw d)"

definition filterOk :: "pt3Filter \<Rightarrow> bool" where
  "filterOk f \<longleftrightarrow>
     inBand (state f) \<and> inBand (state1 f) \<and> inBand (state2 f) \<and> 0 \<le> k f \<and> k f \<le> 1"

definition setpointFiltersOk :: "smoothingFilter \<Rightarrow> bool" where
  "setpointFiltersOk sf \<longleftrightarrow>
     filterOk (filterRoll sf) \<and> filterOk (filterPitch sf) \<and> filterOk (filterYaw sf)"

definition smoothingInvariant :: "receiver \<Rightarrow> bool" where
  "smoothingInvariant r \<longleftrightarrow>
     setpointFiltersOk (m_smoothingFilter r) \<and>
     inBand (roll (m_dataToSmooth r)) \<and> inBand (pitch (m_dataToSmooth r)) \<and>
     inBand (yaw (m_dataToSmooth r))"

text \<open>
  Inputs for a training run. Each call sees new data of a valid frame with a refresh
  period of 4000 us, the roll command at 1000 (a raw setpoint of 2540 degrees per second
  before the clamp) and the throttle command at 2500 (a quotient of 1.5 before the clamp).
  The first call comes 6 s after boot, the next 50 calls follow from 7.001 s on, 4 ms apart.
\<close>

definition overStick :: "32 word \<Rightarrow> rx_inputs" where
  "overStick t = \<lparr>inCommand = [0, 1000, 0, 0], inThrottle = 2500, inGotNewData = True,
     inSignalReceived = True, inIsRateValid = True, inRefreshPeriod = 4000, inTimeUs = t\<rparr>"

definition trainingRun :: "rx_inputs list" where
  "trainingRun = overStick 6000000 # map (\<lambda>j. overStick (7001000 + 4000 * of_nat j)) [0..<50]"

text \<open>
  The receiver during that run, after \<open>n\<close> frame intervals have been accumulated and
  before the filters are initialised.
\<close>

definition inTraining :: "nat \<Rightarrow> receiver \<Rightarrow> bool" where
  "inTraining n r \<longleftrightarrow>
     m_initializedFilter r \<and> m_calculatedCutoffs r \<and> m_validFrameTimeMs r = 7000 \<and>
     \<not> filterInitialized (m_smoothingFilter r) \<and>
     setpointCutoffSetting (m_smoothingFilter r) = 0 \<and>
     throttleCutoffSetting (m_smoothingFilter r) = 0 \<and>
     ffCutoffSetting (m_smoothingFilter r) = 0 \<and>
     autoSmoothnessFactorSetpoint (m_smoothingFilter r) = 30 \<and>
     autoSmoothnessFactorThrottle (m_smoothingFilter r) = 30 \<and>
     trainingCount (m_smoothingFilter r) = of_nat n \<and>
     trainingSum (m_smoothingFilter r) = 4000 * real n \<and>
     trainingMax (m_smoothingFilter r) = (if n = 0 then 0 else 4000) \<and>
     trainingMin (m_smoothingFilter r) = (if n = 0 then 65535 else 4000)"

section \<open>Rounding to single precision\<close>

text \<open>
  How \<open>f32\<close> is evaluated at a number whose exponent is known, the size of the
  rounding error, and the numbers that rounding leaves as they are.
\<close>

lemma powi_less_cancel:
  assumes "(2::real) powi i < 2 powi j"
  shows "i < j"
proof (rule ccontr)
  assume "\<not> i < j"
  then have "j \<le> i" by simp
  then have "(2::real) powi j \<le> 2 powi i"
    by (rule power_int_increasing) simp
  with assms show False by simp
qed

lemma f32_scan_eq:
  assumes "- 126 \<le> e" and "e \<le> int n - 126" and "a < 2 powi (e + 1)"
    and "e = - 126 \<or> 2 powi e \<le> a"
  shows "f32_scan n a = e"
  using assms(2)
proof (induction n)
  case 0
  with assms(1) show ?case by simp
next
  case (Suc n)
  show ?case
  proof (cases "2 powi (int n - 125) \<le> a")
    case True
    with assms(3) have "(2::real) powi (int n - 125) < 2 powi (e + 1)" by simp
    then have "int n - 125 < e + 1" by (rule powi_less_cancel)
    with Suc.prems have "e = int n - 125" by simp
    with True show ?thesis by simp
  next
    case False
    have "e \<noteq> int n - 125"
    proof
      assume e: "e = int n - 125"
      then have "e \<noteq> - 126" by simp
      with assms(4) have "2 powi e \<le> a" by simp
      with False e show False by simp
    qed
    with Suc.prems have "e \<le> int n - 126" by simp
    with Suc.IH False show ?thesis by simp
  qed
qed

lemma f32_at:
  assumes "- 126 \<le> e" and "e \<le> 127" and "\<bar>x\<bar> < 2 powi (e + 1)"
    and "e = - 126 \<or> 2 powi e \<le> \<bar>x\<bar>"
  shows "f32 x = real_of_int (lrintf (x / 2 powi (e - 23))) * 2 powi (e - 23)"
proof -
  have "f32_scan 253 \<bar>x\<bar> = e"
    using assms by (intro f32_scan_eq) simp_all
  then show ?thesis
    by (simp add: f32_def f32_exponent_def Let_def)
qed


lemma f32_scan_spec:
  assumes "a < 2 powi (int n - 125)"
  shows "- 126 \<le> f32_scan n a \<and> f32_scan n a \<le> int n - 126 \<and>
     a < 2 powi (f32_scan n a + 1) \<and> (f32_scan n a = - 126 \<or> 2 powi (f32_scan n a) \<le> a)"
  using assms
proof (induction n)
  case 0
  then show ?case by simp
next
  case (Suc n)
  show ?case
  proof (cases "2 powi (int n - 125) \<le> a")
    case True
    have "int n - 125 + 1 = int (Suc n) - 125" by simp
    with True Suc.prems show ?thesis by (simp add: add.commute)
  next
    case False
    then have "a < 2 powi (int n - 125)" by simp
    from Suc.IH [OF this] False show ?thesis by simp
  qed
qed

lemma lrintf_near: "\<bar>real_of_int (lrintf y) - y\<bar> \<le> 1 / 2"
  unfolding lrintf_def Let_def by (auto simp add: abs_if) linarith+

lemma lrintf_of_int: "lrintf (of_int z) = z"
  by (simp add: lrintf_def Let_def)

lemma f32_normal:
  assumes "2 powi (- 126) \<le> x" and "x < 2 powi 128"
  obtains e m where "f32 x = real_of_int m * 2 powi (e - 23)"
    and "m = lrintf (x / 2 powi (e - 23))"
    and "2 ^ 23 * 2 powi (e - 23) \<le> x" and "x < 2 powi (e + 1)"
    and "\<bar>real_of_int m * 2 powi (e - 23) - x\<bar> \<le> 2 powi (e - 23) / 2"
    and "2 ^ 23 \<le> m"
proof -
  have x0: "0 < x"
    using assms(1) zero_less_power_int [of "2::real" "- 126"] by linarith
  define e where "e = f32_scan 253 \<bar>x\<bar>"
  have "\<bar>x\<bar> < 2 powi (int 253 - 125)"
    using assms(2) x0 by simp
  from f32_scan_spec [OF this]
  have e: "- 126 \<le> e" "e \<le> 127" "\<bar>x\<bar> < 2 powi (e + 1)" "e = - 126 \<or> 2 powi e \<le> \<bar>x\<bar>"
    by (simp_all add: e_def)
  have lo: "2 powi e \<le> x"
    using e(4) assms(1) x0 by auto
  define u :: real where "u = 2 powi (e - 23)"
  have u0: "0 < u" by (simp add: u_def)
  define m where "m = lrintf (x / u)"
  have fx: "f32 x = real_of_int m * u"
    using f32_at [OF e] by (simp add: m_def u_def)
  have "\<bar>real_of_int m - x / u\<bar> \<le> 1 / 2"
    unfolding m_def by (rule lrintf_near)
  then have "\<bar>real_of_int m - x / u\<bar> * u \<le> 1 / 2 * u"
    using u0 by (intro mult_right_mono) simp_all
  moreover have "real_of_int m * u - x = (real_of_int m - x / u) * u"
    using u0 by (simp add: left_diff_distrib)
  then have "\<bar>real_of_int m * u - x\<bar> = \<bar>real_of_int m - x / u\<bar> * u"
    using u0 by (simp only: abs_mult abs_of_pos)
  ultimately have err: "\<bar>real_of_int m * u - x\<bar> \<le> u / 2"
    by simp
  have "(2::real) powi (23 + (e - 23)) = 2 powi 23 * 2 powi (e - 23)"
    by (rule power_int_add) simp
  then have "2 ^ 23 * u = 2 powi e"
    by (simp add: u_def)
  then have sc: "2 ^ 23 * u \<le> x"
    using lo by simp
  from sc have "2 ^ 23 \<le> x / u"
    using u0 by (simp add: pos_le_divide_eq)
  then have "8388608 \<le> x / u" by simp
  moreover define y where "y = x / u"
  moreover note \<open>\<bar>real_of_int m - x / u\<bar> \<le> 1 / 2\<close>
  ultimately have "8388608 \<le> y" and "\<bar>real_of_int m - y\<bar> \<le> 1 / 2"
    by simp_all
  then have "8388607 < real_of_int m" by linarith
  then have "8388607 < m" by linarith
  then have m: "2 ^ 23 \<le> m" by simp
  have hi: "x < 2 powi (e + 1)"
    using e(3) x0 by simp
  from fx m_def sc hi err m show ?thesis
    unfolding u_def by (rule that)
qed


lemma f32_near_round:
  assumes "2 powi (- 126) \<le> x" and "x < 2 powi 128"
  shows "f32_near 1 x (f32 x)"
proof -
  have x0: "0 < x"
    using assms(1) zero_less_power_int [of "2::real" "- 126"] by linarith
  from assms obtain e m where fx: "f32 x = real_of_int m * 2 powi (e - 23)"
    and sc: "2 ^ 23 * 2 powi (e - 23) \<le> x"
    and err: "\<bar>real_of_int m * 2 powi (e - 23) - x\<bar> \<le> 2 powi (e - 23) / 2"
    and m: "2 ^ 23 \<le> m"
    by (rule f32_normal)
  define u :: real where "u = 2 powi (e - 23)"
  define p where "p = real_of_int m * u"
  have u0: "0 < u" by (simp add: u_def)
  have "8388608 \<le> real_of_int m" using m by simp
  then have "8388608 * u \<le> real_of_int m * u"
    using u0 by (intro mult_right_mono) simp_all
  then have pu: "8388608 * u \<le> p" by (simp add: p_def)
  have xu: "8388608 * u \<le> x" using sc by (simp add: u_def)
  have e: "\<bar>p - x\<bar> \<le> u / 2" using err by (simp add: p_def u_def)
  have "0 < p" using pu u0 by linarith
  moreover have "p \<le> x + x / 8388608" using e xu by linarith
  then have "p \<le> x * (1 + 1 / 8388608)" by (simp add: algebra_simps)
  moreover have "x \<le> p + p / 8388608" using e pu by linarith
  then have "x \<le> p * (1 + 1 / 8388608)" by (simp add: algebra_simps)
  ultimately show ?thesis
    using x0 by (simp add: f32_near_def fx p_def u_def)
qed

lemma f32_near_refl: "0 < x \<Longrightarrow> f32_near 0 x x"
  by (simp add: f32_near_def)

lemma f32_near_mult:
  assumes "f32_near m x y" and "f32_near n x' y'"
  shows "f32_near (m + n) (x * x') (y * y')"
proof -
  let ?q = "1 + 1 / 2 ^ 23 :: real"
  from assms have p: "0 < x" "0 < y" "0 < x'" "0 < y'"
    and b: "y \<le> x * ?q ^ m" "x \<le> y * ?q ^ m" "y' \<le> x' * ?q ^ n" "x' \<le> y' * ?q ^ n"
    by (simp_all add: f32_near_def)
  have "y * y' \<le> (x * ?q ^ m) * (x' * ?q ^ n)"
    using b(1,3) p by (intro mult_mono) simp_all
  moreover have "x * x' \<le> (y * ?q ^ m) * (y' * ?q ^ n)"
    using b(2,4) p by (intro mult_mono) simp_all
  ultimately show ?thesis
    using p by (simp add: f32_near_def power_add mult_ac)
qed

lemma f32_near_inverse:
  assumes "f32_near n x y"
  shows "f32_near n (1 / x) (1 / y)"
  using assms by (simp add: f32_near_def field_simps)

lemma f32_near_divide:
  assumes "f32_near m x y" and "f32_near n x' y'"
  shows "f32_near (m + n) (x / x') (y / y')"
  using f32_near_mult [OF assms(1) f32_near_inverse [OF assms(2)]] by simp

lemma f32_near_trans:
  assumes "f32_near m x y" and "f32_near n y z"
  shows "f32_near (m + n) x z"
proof -
  let ?q = "1 + 1 / 2 ^ 23 :: real"
  from assms have p: "0 < x" "0 < y" "0 < z"
    and b: "y \<le> x * ?q ^ m" "x \<le> y * ?q ^ m" "z \<le> y * ?q ^ n" "y \<le> z * ?q ^ n"
    by (simp_all add: f32_near_def)
  have q: "0 \<le> ?q ^ n" "0 \<le> ?q ^ m" by simp_all
  have "z \<le> y * ?q ^ n" by (rule b(3))
  also have "\<dots> \<le> (x * ?q ^ m) * ?q ^ n"
    using b(1) q(1) by (rule mult_right_mono)
  finally have 1: "z \<le> x * ?q ^ (m + n)"
    by (simp add: power_add mult_ac)
  have "x \<le> y * ?q ^ m" by (rule b(2))
  also have "\<dots> \<le> (z * ?q ^ n) * ?q ^ m"
    using b(4) q(2) by (rule mult_right_mono)
  finally have 2: "x \<le> z * ?q ^ (m + n)"
    by (simp add: power_add mult_ac)
  from 1 2 p show ?thesis by (simp add: f32_near_def)
qed

lemma f32_near_one_plus:
  assumes "(x = 0 \<and> y = 0) \<or> f32_near n x y"
  shows "f32_near n (1 + x) (1 + y)"
proof -
  let ?q = "1 + 1 / 2 ^ 23 :: real"
  have q1: "1 \<le> ?q ^ n" by (rule one_le_power) simp
  from assms show ?thesis
  proof
    assume "x = 0 \<and> y = 0"
    with q1 show ?thesis by (simp add: f32_near_def)
  next
    assume a: "f32_near n x y"
    then have p: "0 < x" "0 < y" and b: "y \<le> x * ?q ^ n" "x \<le> y * ?q ^ n"
      by (simp_all add: f32_near_def)
    have "1 + y \<le> ?q ^ n + x * ?q ^ n" using q1 b(1) by linarith
    moreover have "1 + x \<le> ?q ^ n + y * ?q ^ n" using q1 b(2) by linarith
    ultimately show ?thesis
      using p by (simp add: f32_near_def algebra_simps)
  qed
qed

lemma f32_near_bounds:
  assumes "f32_near n x y" and "n \<le> 8"
  shows "x / 2 \<le> y" and "y \<le> 2 * x" and "\<bar>y - x\<bar> \<le> x / 1000000"
proof -
  let ?q = "1 + 1 / 2 ^ 23 :: real"
  from assms(1) have p: "0 < x" "0 < y" and b: "y \<le> x * ?q ^ n" "x \<le> y * ?q ^ n"
    by (simp_all add: f32_near_def)
  have "?q ^ n \<le> ?q ^ 8"
    using assms(2) by (intro power_increasing) simp_all
  also have "\<dots> \<le> 1 + 1 / 1000000" by (simp add: power_divide)
  finally have q: "?q ^ n \<le> 1 + 1 / 1000000" .
  have "x * ?q ^ n \<le> x * (1 + 1 / 1000000)"
    using q p(1) by (intro mult_left_mono) simp_all
  with b(1) have up: "y \<le> x * (1 + 1 / 1000000)" by linarith
  have "y * ?q ^ n \<le> y * (1 + 1 / 1000000)"
    using q p(2) by (intro mult_left_mono) simp_all
  with b(2) have lo: "x \<le> y * (1 + 1 / 1000000)" by linarith
  from up lo p show "x / 2 \<le> y" and "y \<le> 2 * x" by (simp_all add: algebra_simps)
  from up have up': "y \<le> x + x / 1000000" by (simp add: algebra_simps)
  from lo have lo': "x \<le> y + y / 1000000" by (simp add: algebra_simps)
  from up' lo' show "\<bar>y - x\<bar> \<le> x / 1000000" by linarith
qed

lemma f32_near_mono:
  assumes "f32_near m x y" and "m \<le> n"
  shows "f32_near n x y"
proof -
  let ?q = "1 + 1 / 2 ^ 23 :: real"
  from assms(1) have p: "0 < x" "0 < y" and b: "y \<le> x * ?q ^ m" "x \<le> y * ?q ^ m"
    by (simp_all add: f32_near_def)
  have q: "?q ^ m \<le> ?q ^ n"
    using assms(2) by (intro power_increasing) simp_all
  have 1: "x * ?q ^ m \<le> x * ?q ^ n" using q p(1) by (intro mult_left_mono) simp_all
  have 2: "y * ?q ^ m \<le> y * ?q ^ n" using q p(2) by (intro mult_left_mono) simp_all
  from b 1 2 have "y \<le> x * ?q ^ n" "x \<le> y * ?q ^ n" by linarith+
  with p show ?thesis by (simp add: f32_near_def)
qed

lemma f32_near_step:
  assumes "f32_near n x y" and "n \<le> 7" and "1 / 100000 \<le> x" and "x \<le> 2 ^ 32"
  shows "f32_near (Suc n) x (f32 y)"
proof -
  from assms(2) have "n \<le> 8" by simp
  note b = f32_near_bounds(1,2) [OF assms(1) this]
  have "(2::real) powi (- 126) \<le> 1 / 200000" by simp
  with b(1) assms(3) have lo: "2 powi (- 126) \<le> y" by linarith
  have "(2::real) * 2 ^ 32 < 2 powi 128" by simp
  with b(2) assms(4) have hi: "y < 2 powi 128" by linarith
  from f32_near_trans [OF assms(1) f32_near_round [OF lo hi]] show ?thesis by simp
qed


lemma f32_zero: "f32 0 = 0"
  using f32_at [of "- 126" 0] by (simp add: lrintf_def)

lemma f32_of_int:
  assumes "0 \<le> z" and "z < 2 ^ 24"
  shows "f32 (real_of_int z) = real_of_int z"
proof (cases "z = 0")
  case True
  then show ?thesis by (simp add: f32_zero)
next
  case False
  with assms(1) have z1: "1 \<le> real_of_int z" by simp
  have zh: "real_of_int z < 16777216" using assms(2) by simp
  have lo: "2 powi (- 126) \<le> real_of_int z"
    using z1 by simp
  have hi: "real_of_int z < 2 powi 128"
    using zh by simp
  from lo hi obtain e m where fx: "f32 (real_of_int z) = real_of_int m * 2 powi (e - 23)"
    and m: "m = lrintf (real_of_int z / 2 powi (e - 23))"
    and sc: "2 ^ 23 * 2 powi (e - 23) \<le> real_of_int z"
    by (rule f32_normal)
  have "(2::real) powi (e - 23) < 2 powi 1"
    using sc zh by simp
  then have "e - 23 < 1" by (rule powi_less_cancel)
  then have e: "e - 23 \<le> 0" by simp
  define sh where "sh = nat (23 - e)"
  have u: "(2::real) powi (e - 23) = 1 / 2 ^ sh"
    using e by (auto simp add: power_int_def sh_def field_simps)
  have "real_of_int z / 2 powi (e - 23) = real_of_int (z * 2 ^ sh)"
    by (simp add: u)
  then have "m = z * 2 ^ sh"
    unfolding m by (simp only: lrintf_of_int)
  then show ?thesis
    by (simp add: fx u)
qed

section \<open>Arming: failsafe latch and switch interlock\<close>

lemma gotFailsafe_attemptToArm:
  "gotFailsafe (m_arming (attemptToArm b e x)) = gotFailsafe (m_arming b)"
  by (simp add: attemptToArm_def set_isArmed_def disarm_def Let_def)

lemma isArmed_attemptToArm_failsafe:
  "gotFailsafe (m_arming b) \<Longrightarrow> \<not> isArmed (m_arming b) \<Longrightarrow>
   \<not> isArmed (m_arming (attemptToArm b e x))"
  by (simp add: attemptToArm_def set_isArmed_def disarm_def readyToArm_def Let_def)

lemma updateFromReceiver_failsafe:
  "gotFailsafe (m_arming b) \<Longrightarrow> \<not> isArmed (m_arming b) \<Longrightarrow>
   gotFailsafe (m_arming (updateFromReceiver b t x s)) \<and>
   \<not> isArmed (m_arming (updateFromReceiver b t x s))"
  by (simp add: updateFromReceiver_def Let_def)

lemma latch_step:
  "gotFailsafe (m_arming b) \<Longrightarrow> \<not> isArmed (m_arming b) \<Longrightarrow>
   gotFailsafe (m_arming (updateArmingFromReceiver b u)) \<and>
   \<not> isArmed (m_arming (updateArmingFromReceiver b u))"
  by (cases "rxState u")
     (simp_all add: updateArmingFromReceiver_def gotFailsafe_attemptToArm
        isArmed_attemptToArm_failsafe updateFromReceiver_failsafe)

lemma latch_run:
  "gotFailsafe (m_arming b) \<Longrightarrow> \<not> isArmed (m_arming b) \<Longrightarrow>
   gotFailsafe (m_arming (receiverUpdates b us)) \<and>
   \<not> isArmed (m_arming (receiverUpdates b us))"
  unfolding receiverUpdates_def
proof (induction us arbitrary: b)
  case Nil
  then show ?case by simp
next
  case (Cons u us)
  from latch_step [OF Cons.prems] Cons.IH show ?case by simp
qed

lemma failsafe_entry:
  "\<not> gotFailsafe (m_arming b) \<Longrightarrow> gotFailsafe (m_arming (updateArmingFromReceiver b u)) \<Longrightarrow>
   \<not> isArmed (m_arming (updateArmingFromReceiver b u))"
  by (cases "rxState u")
     (auto simp add: updateArmingFromReceiver_def gotFailsafe_attemptToArm
        updateFromReceiver_def disarm_def set_isArmed_def Let_def split: if_splits)

text \<open>
  Claim C1 (failsafe latching). Take any board state in which \<open>gotFailsafe\<close> is false
  and a receiver update that makes it true. Right after that update \<open>isArmed\<close> is false,
  and after every further sequence of receiver updates (whatever their signal, throttle,
  switch and ESC inputs) \<open>gotFailsafe\<close> still holds, \<open>readyToArm\<close> is false and
  \<open>isArmed\<close> is false. In particular \<open>isArmed\<close> stays false at least until a valid
  frame has arrived and the arm switch has been deasserted: no receiver update of
  \<open>Board\<close> clears \<open>gotFailsafe\<close>.
\<close>

theorem failsafe_latching:
  assumes "\<not> gotFailsafe (m_arming b)"
    and "gotFailsafe (m_arming (updateArmingFromReceiver b u))"
  shows "\<not> isArmed (m_arming (updateArmingFromReceiver b u)) \<and>
    (\<forall>us. gotFailsafe (m_arming (receiverUpdates (updateArmingFromReceiver b u) us)) \<and>
          \<not> readyToArm (receiverUpdates (updateArmingFromReceiver b u) us) \<and>
          \<not> isArmed (m_arming (receiverUpdates (updateArmingFromReceiver b u) us)))"
proof -
  let ?b = "updateArmingFromReceiver b u"
  have off: "\<not> isArmed (m_arming ?b)"
    using assms by (rule failsafe_entry)
  have "gotFailsafe (m_arming (receiverUpdates ?b us)) \<and>
        \<not> readyToArm (receiverUpdates ?b us) \<and>
        \<not> isArmed (m_arming (receiverUpdates ?b us))" for us
    using latch_run [OF assms(2) off, of us] by (simp add: readyToArm_def)
  with off show ?thesis by blast
qed

text \<open>
  The theorem at an armed board that loses the signal, followed by a good frame with the
  switch off, a good frame with the switch on, and an arming attempt with the ESC ready.
\<close>

theorem failsafe_latching_witness:
  "\<not> gotFailsafe (m_arming armedBoard) \<and>
   gotFailsafe (m_arming
     (updateArmingFromReceiver armedBoard (rxUpdate STATE_CHECK True True False True))) \<and>
   \<not> isArmed (m_arming
     (updateArmingFromReceiver armedBoard (rxUpdate STATE_CHECK True True False True))) \<and>
   \<not> isArmed (m_arming (receiverUpdates
     (updateArmingFromReceiver armedBoard (rxUpdate STATE_CHECK True True False True))
     [rxUpdate STATE_CHECK True False True True,
      rxUpdate STATE_CHECK True True True True,
      rxUpdate STATE_UPDATE True True True True]))"
proof -
  have h1: "\<not> gotFailsafe (m_arming armedBoard)"
    by (simp add: armedBoard_def)
  have h2: "gotFailsafe (m_arming
     (updateArmingFromReceiver armedBoard (rxUpdate STATE_CHECK True True False True)))"
    by (simp add: armedBoard_def rxUpdate_def updateArmingFromReceiver_def
        updateFromReceiver_def disarm_def set_isArmed_def)
  from failsafe_latching [OF h1 h2] h1 h2 show ?thesis by blast
qed

lemma attemptToArm_switch_off:
  "\<not> switchOkay (m_arming b) \<Longrightarrow> \<not> isArmed (m_arming b) \<Longrightarrow> attemptToArm b e x = b"
  by (simp add: attemptToArm_def readyToArm_def Let_def)

lemma updateFromReceiver_switch_on:
  "\<not> switchOkay (m_arming b) \<Longrightarrow> \<not> isArmed (m_arming b) \<Longrightarrow>
   \<not> switchOkay (m_arming (updateFromReceiver b t True s)) \<and>
   \<not> isArmed (m_arming (updateFromReceiver b t True s))"
  by (simp add: updateFromReceiver_def readyToArm_def Let_def)

lemma interlock_step:
  assumes "\<not> switchOkay (m_arming b)" and "\<not> isArmed (m_arming b)"
    and "rxState u = STATE_CHECK \<longrightarrow> rxAux1IsSet u"
  shows "\<not> switchOkay (m_arming (updateArmingFromReceiver b u)) \<and>
         \<not> isArmed (m_arming (updateArmingFromReceiver b u))"
proof (cases "rxState u")
  case STATE_CHECK
  with assms(3) have "rxAux1IsSet u" by simp
  with STATE_CHECK updateFromReceiver_switch_on [OF assms(1,2)] show ?thesis
    by (simp add: updateArmingFromReceiver_def)
next
  case STATE_UPDATE
  with attemptToArm_switch_off [OF assms(1,2)] assms(1,2) show ?thesis
    by (simp add: updateArmingFromReceiver_def)
qed (use assms in \<open>simp_all add: updateArmingFromReceiver_def\<close>)

lemma interlock_run:
  assumes "\<not> switchOkay (m_arming b)" and "\<not> isArmed (m_arming b)"
    and "\<forall>u\<in>set us. rxState u = STATE_CHECK \<longrightarrow> rxAux1IsSet u"
  shows "\<not> switchOkay (m_arming (receiverUpdates b us)) \<and>
         \<not> isArmed (m_arming (receiverUpdates b us))"
  using assms unfolding receiverUpdates_def
proof (induction us arbitrary: b)
  case Nil
  then show ?case by simp
next
  case (Cons u us)
  from Cons.prems have "rxState u = STATE_CHECK \<longrightarrow> rxAux1IsSet u" by simp
  from interlock_step [OF Cons.prems(1,2) this] Cons.IH Cons.prems(3)
  show ?case by simp
qed

lemma switchOkay_rises:
  assumes "\<not> switchOkay (m_arming b)" and "switchOkay (m_arming (updateArmingFromReceiver b u))"
  shows "rxState u = STATE_CHECK \<and> \<not> rxAux1IsSet u"
proof (cases "rxState u")
  case STATE_CHECK
  with assms show ?thesis
    by (auto simp add: updateArmingFromReceiver_def updateFromReceiver_def disarm_def
        set_isArmed_def Let_def split: if_splits)
next
  case STATE_UPDATE
  with assms show ?thesis
    by (auto simp add: updateArmingFromReceiver_def attemptToArm_def disarm_def
        set_isArmed_def Let_def split: if_splits)
qed (use assms in \<open>simp_all add: updateArmingFromReceiver_def\<close>)

lemma switchOkay_forced_off:
  assumes "\<not> isArmed (m_arming b)"
    and "\<not> readyToArm (b\<lparr>m_arming := (m_arming b)\<lparr>throttleIsDown := t\<rparr>\<rparr>)"
  shows "\<not> switchOkay (m_arming (updateFromReceiver b t True s))"
  using assms by (simp add: updateFromReceiver_def Let_def)

text \<open>
  Claim C2 (arm-at-boot interlock). Start from a board that is disarmed and whose
  \<open>switchOkay\<close> flag is false, as at boot, and apply any sequence of receiver updates in
  which every switch observation (an update in receiver state \<open>STATE_CHECK\<close>, the only
  one that calls \<open>updateFromReceiver\<close>) sees aux1 set. Then the board is still disarmed,
  \<open>switchOkay\<close> is still false and \<open>readyToArm\<close> is false. Moreover \<open>switchOkay\<close>
  rises only on a \<open>STATE_CHECK\<close> update in which aux1 is not set, and a disarmed board
  that is not ready to arm (with the throttle flag just read) has \<open>switchOkay\<close> forced
  false by an update with aux1 set.
\<close>

theorem arm_switch_interlock:
  assumes "\<not> isArmed (m_arming b)" and "\<not> switchOkay (m_arming b)"
    and "\<forall>u\<in>set us. rxState u = STATE_CHECK \<longrightarrow> rxAux1IsSet u"
  shows "\<not> isArmed (m_arming (receiverUpdates b us)) \<and>
    \<not> switchOkay (m_arming (receiverUpdates b us)) \<and>
    \<not> readyToArm (receiverUpdates b us) \<and>
    (\<not> switchOkay (m_arming c) \<and> switchOkay (m_arming (updateArmingFromReceiver c v)) \<longrightarrow>
       rxState v = STATE_CHECK \<and> \<not> rxAux1IsSet v) \<and>
    (\<not> isArmed (m_arming c) \<and>
     \<not> readyToArm (c\<lparr>m_arming := (m_arming c)\<lparr>throttleIsDown := t\<rparr>\<rparr>) \<longrightarrow>
       \<not> switchOkay (m_arming (updateFromReceiver c t True s)))"
proof -
  from interlock_run [OF assms(2,1,3)]
  have "\<not> switchOkay (m_arming (receiverUpdates b us))"
    and "\<not> isArmed (m_arming (receiverUpdates b us))" by simp_all
  moreover from this(1) have "\<not> readyToArm (receiverUpdates b us)"
    by (simp add: readyToArm_def)
  ultimately show ?thesis
    using switchOkay_rises [of c v] switchOkay_forced_off [of c t s] by blast
qed

text \<open>
  The theorem at a calibrated board with the switch held on through two frames with
  signal and throttle down and an arming attempt with the ESC ready: the board stays
  disarmed. The same board arms under the same updates once the first frame has seen the
  switch off.
\<close>

theorem arm_switch_interlock_witness:
  "\<not> isArmed (m_arming calibratedBoard) \<and> \<not> switchOkay (m_arming calibratedBoard) \<and>
   \<not> isArmed (m_arming (receiverUpdates calibratedBoard
     [rxUpdate STATE_CHECK True True True True,
      rxUpdate STATE_CHECK True True True True,
      rxUpdate STATE_UPDATE True True True True])) \<and>
   isArmed (m_arming (receiverUpdates calibratedBoard
     [rxUpdate STATE_CHECK True False True True,
      rxUpdate STATE_CHECK True True True True,
      rxUpdate STATE_UPDATE True True True True]))"
proof -
  have h1: "\<not> isArmed (m_arming calibratedBoard)"
    and h2: "\<not> switchOkay (m_arming calibratedBoard)"
    by (simp_all add: calibratedBoard_def)
  have h3: "\<forall>u\<in>set [rxUpdate STATE_CHECK True True True True,
             rxUpdate STATE_CHECK True True True True,
             rxUpdate STATE_UPDATE True True True True].
      rxState u = STATE_CHECK \<longrightarrow> rxAux1IsSet u"
    by (simp add: rxUpdate_def)
  have arms: "isArmed (m_arming (receiverUpdates calibratedBoard
     [rxUpdate STATE_CHECK True False True True,
      rxUpdate STATE_CHECK True True True True,
      rxUpdate STATE_UPDATE True True True True]))"
    by (simp add: receiverUpdates_def calibratedBoard_def rxUpdate_def
        updateArmingFromReceiver_def updateFromReceiver_def attemptToArm_def readyToArm_def
        set_isArmed_def disarm_def Let_def)
  from arm_switch_interlock [OF h1 h2 h3] h1 h2 arms show ?thesis by blast
qed

section \<open>Failsafe fallback values\<close>

lemma failsafeChannelConfigs_table:
  "failsafeChannelConfigs =
     replicate 3 \<lparr>mode = 0, step = 30\<rparr> @ [\<lparr>mode = 0, step = 5\<rparr>] @
     replicate 14 \<lparr>mode = 1, step = 30\<rparr>"
  by (simp add: failsafeChannelConfigs_def CHANNEL_COUNT_def upt_rec numeral_eq_Suc)

lemma mode_flight_channels:
  "channel < 4 \<Longrightarrow> mode (failsafeChannelConfigs ! channel) = FAILSAFE_MODE_AUTO"
  by (auto simp add: failsafeChannelConfigs_table FAILSAFE_MODE_AUTO_def nth_append nth_Cons')

lemma config_aux_channels:
  "4 \<le> channel \<Longrightarrow> channel < CHANNEL_COUNT \<Longrightarrow>
   failsafeChannelConfigs ! channel = \<lparr>mode = FAILSAFE_MODE_HOLD, step = 30\<rparr>"
  by (simp add: failsafeChannelConfigs_table FAILSAFE_MODE_HOLD_def CHANNEL_COUNT_def
      nth_append)

lemma unat_ucast_8_16: "unat (ucast (w :: 8 word) :: 16 word) = unat w"
proof -
  have "unat w < 2 ^ 8"
    using unsigned_less [of w, where 'a = nat] by simp
  then show ?thesis
    by (simp add: unsigned_ucast_eq take_bit_nat_eq_self)
qed

lemma rxfail_step_value:
  "unat (rxfail_step_to_channel_value s) = (750 + 25 * unat s) mod 256"
  unfolding rxfail_step_to_channel_value_def PWM_PULSE_MIN_def
  by (simp only: unat_of_nat) simp

lemma rxfail_step_30: "rxfail_step_to_channel_value 30 = 220"
  by (simp add: rxfail_step_to_channel_value_def PWM_PULSE_MIN_def)

lemma float_to_u16_whole:
  assumes "n < 65536"
  shows "u16_to_float (float_to_u16 (real n)) = real n"
proof -
  have "float_to_u16 (real n) = word_of_nat n"
    by (simp add: float_to_u16_def trunc_toward_zero_def)
  moreover have "unat (word_of_nat n :: 16 word) = n"
    using assms by (simp add: unat_of_nat)
  ultimately show ?thesis
    by (simp add: u16_to_float_def)
qed

lemma getFailValue_aux:
  "4 \<le> channel \<Longrightarrow> channel < CHANNEL_COUNT \<Longrightarrow>
   getFailValue rcData channel = float_to_u16 (rcData ! channel)"
  by (simp add: getFailValue_def config_aux_channels failValueOfConfig_def
      FAILSAFE_MODE_HOLD_def FAILSAFE_MODE_AUTO_def FAILSAFE_MODE_INVALID_def)

lemma getFailValue_flight:
  "channel < 4 \<Longrightarrow>
   getFailValue rcData channel =
     (if channel = ROLL \<or> channel = PITCH \<or> channel = YAW then 1500 else 885)"
  by (simp add: getFailValue_def mode_flight_channels failValueOfConfig_def)

text \<open>
  Claim C4, where it fails: aux2 is a channel in \<open>HOLD\<close> mode, and with 1200.75 in
  it \<open>getFailValue\<close> returns 1200: the current channel value is not kept, its fraction
  is lost in the \<open>uint16_t\<close> return type.
\<close>

theorem failValue_fraction_counterexample:
  "mode (failsafeChannelConfigs ! AUX2) = FAILSAFE_MODE_HOLD \<and>
   getFailValue ((replicate 18 1500)[AUX2 := 1200.75]) AUX2 = 1200 \<and>
   u16_to_float (getFailValue ((replicate 18 1500)[AUX2 := 1200.75]) AUX2)
     \<noteq> ((replicate 18 1500)[AUX2 := 1200.75]) ! AUX2"
proof -
  have "getFailValue ((replicate 18 1500)[AUX2 := 1200.75]) AUX2 = float_to_u16 1200.75"
    by (simp add: getFailValue_aux CHANNEL_COUNT_def AUX2_def)
  also have "\<dots> = 1200"
    by (simp add: float_to_u16_def trunc_toward_zero_def)
  finally show ?thesis
    by (simp add: u16_to_float_def config_aux_channels CHANNEL_COUNT_def AUX2_def)
qed

text \<open>
  Claim C4, amended. \<open>getFailValue\<close> applies its \<open>switch\<close> to the configuration of the
  channel. In \<open>AUTO\<close> mode roll, pitch and yaw yield 1500 and throttle (like any other
  channel) yields 885. In \<open>HOLD\<close> and \<open>INVALID\<close> mode the current channel value is
  returned through the \<open>uint16_t\<close> return type, that is with its fraction discarded; a
  whole value below 65536 is kept as it is. In \<open>SET\<close> mode, which the table built by
  \<open>getFailValue\<close> gives to no channel, the value is the result of
  \<open>rxfail_step_to_channel_value\<close>: \<open>750 + 25 * step\<close> (built on \<open>PWM_PULSE_MIN\<close>, not
  on 885) reduced modulo 256 by the helper's \<open>uint8_t\<close> return type.
\<close>

theorem failValue_table:
  "getFailValue rcData channel =
     failValueOfConfig (failsafeChannelConfigs ! channel) rcData channel \<and>
   (mode c = FAILSAFE_MODE_AUTO \<longrightarrow>
      failValueOfConfig c rcData channel =
        (if channel = ROLL \<or> channel = PITCH \<or> channel = YAW then 1500 else 885) \<and>
      failValueOfConfig c rcData THROTTLE = 885) \<and>
   (mode c = FAILSAFE_MODE_HOLD \<or> mode c = FAILSAFE_MODE_INVALID \<longrightarrow>
      failValueOfConfig c rcData channel = float_to_u16 (rcData ! channel) \<and>
      (\<forall>n. rcData ! channel = real n \<and> n < 65536 \<longrightarrow>
         u16_to_float (failValueOfConfig c rcData channel) = rcData ! channel)) \<and>
   (mode c = FAILSAFE_MODE_SET \<longrightarrow>
      unat (failValueOfConfig c rcData channel) = (750 + 25 * unat (step c)) mod 256) \<and>
   (channel < CHANNEL_COUNT \<longrightarrow>
      mode (failsafeChannelConfigs ! channel) \<noteq> FAILSAFE_MODE_SET)"
proof -
  have auto_mode: "failValueOfConfig c rcData ch =
      (if ch = ROLL \<or> ch = PITCH \<or> ch = YAW then 1500 else 885)"
    if "mode c = FAILSAFE_MODE_AUTO" for ch
    using that by (simp add: failValueOfConfig_def)
  have set_mode: "unat (failValueOfConfig c rcData channel)
      = (750 + 25 * unat (step c)) mod 256"
    if "mode c = FAILSAFE_MODE_SET"
    using that rxfail_step_value [of "step c"]
    by (simp add: failValueOfConfig_def FAILSAFE_MODE_SET_def FAILSAFE_MODE_AUTO_def
        FAILSAFE_MODE_HOLD_def FAILSAFE_MODE_INVALID_def unat_ucast_8_16)
  have hold_mode: "failValueOfConfig c rcData channel = float_to_u16 (rcData ! channel)"
    if "mode c = FAILSAFE_MODE_HOLD \<or> mode c = FAILSAFE_MODE_INVALID"
    using that
    by (auto simp add: failValueOfConfig_def FAILSAFE_MODE_AUTO_def
        FAILSAFE_MODE_HOLD_def FAILSAFE_MODE_INVALID_def)
  have thr: "failValueOfConfig c rcData THROTTLE = 885" if "mode c = FAILSAFE_MODE_AUTO"
    using auto_mode [OF that, of THROTTLE]
    by (simp add: THROTTLE_def ROLL_def PITCH_def YAW_def)
  have no_set: "mode (failsafeChannelConfigs ! channel) \<noteq> FAILSAFE_MODE_SET"
    if "channel < CHANNEL_COUNT"
  proof (cases "channel < 4")
    case True
    then show ?thesis
      by (simp add: mode_flight_channels FAILSAFE_MODE_AUTO_def FAILSAFE_MODE_SET_def)
  next
    case False
    with that show ?thesis
      by (simp add: config_aux_channels FAILSAFE_MODE_HOLD_def FAILSAFE_MODE_SET_def)
  qed
  show ?thesis
    using auto_mode [of channel] thr set_mode hold_mode float_to_u16_whole no_set
    by (auto simp add: getFailValue_def)
qed

text \<open>
  The amended table at concrete inputs: roll and throttle in \<open>AUTO\<close> mode, aux1 at 1500
  in \<open>HOLD\<close> mode, aux1 in \<open>SET\<close> mode with step 5 (\<open>875 mod 256 = 107\<close>), and the mode
  of throttle in the table.
\<close>

theorem failValue_table_witness:
  "failValueOfConfig \<lparr>mode = FAILSAFE_MODE_AUTO, step = 30\<rparr> (replicate 18 1500) ROLL = 1500 \<and>
   failValueOfConfig \<lparr>mode = FAILSAFE_MODE_AUTO, step = 30\<rparr> (replicate 18 1500) THROTTLE = 885 \<and>
   unat (failValueOfConfig \<lparr>mode = FAILSAFE_MODE_SET, step = 5\<rparr> (replicate 18 1500) AUX1)
     = 107 \<and>
   u16_to_float (failValueOfConfig \<lparr>mode = FAILSAFE_MODE_HOLD, step = 30\<rparr>
     (replicate 18 1500) AUX1) = 1500 \<and>
   mode (failsafeChannelConfigs ! THROTTLE) \<noteq> FAILSAFE_MODE_SET"
proof -
  let ?rc = "replicate 18 (1500::real)"
  have a: "failValueOfConfig \<lparr>mode = FAILSAFE_MODE_AUTO, step = 30\<rparr> ?rc ROLL = 1500 \<and>
      failValueOfConfig \<lparr>mode = FAILSAFE_MODE_AUTO, step = 30\<rparr> ?rc THROTTLE = 885"
    using failValue_table [of ?rc ROLL "\<lparr>mode = FAILSAFE_MODE_AUTO, step = 30\<rparr>"]
    by simp
  have b: "unat (failValueOfConfig \<lparr>mode = FAILSAFE_MODE_SET, step = 5\<rparr> ?rc AUX1) = 107"
    using failValue_table [of ?rc AUX1 "\<lparr>mode = FAILSAFE_MODE_SET, step = 5\<rparr>"]
    by simp
  have hold: "mode \<lparr>mode = FAILSAFE_MODE_HOLD, step = 30\<rparr> = FAILSAFE_MODE_HOLD \<or>
      mode \<lparr>mode = FAILSAFE_MODE_HOLD, step = 30\<rparr> = FAILSAFE_MODE_INVALID"
    by simp
  from failValue_table [of ?rc AUX1 "\<lparr>mode = FAILSAFE_MODE_HOLD, step = 30\<rparr>"] hold
  have "\<forall>n. ?rc ! AUX1 = real n \<and> n < 65536 \<longrightarrow>
      u16_to_float (failValueOfConfig \<lparr>mode = FAILSAFE_MODE_HOLD, step = 30\<rparr> ?rc AUX1)
        = ?rc ! AUX1"
    by blast
  from this [rule_format, of 1500]
  have c: "u16_to_float (failValueOfConfig \<lparr>mode = FAILSAFE_MODE_HOLD, step = 30\<rparr>
      ?rc AUX1) = 1500"
    by (simp add: AUX1_def)
  have "THROTTLE < CHANNEL_COUNT"
    by (simp add: THROTTLE_def CHANNEL_COUNT_def)
  with failValue_table [of ?rc THROTTLE "\<lparr>mode = FAILSAFE_MODE_AUTO, step = 30\<rparr>"]
  have d: "mode (failsafeChannelConfigs ! THROTTLE) \<noteq> FAILSAFE_MODE_SET"
    by blast
  from a b c d show ?thesis by simp
qed

text \<open>
  Claim C10, where it fails: with 1500.5 in channel 4 the function returns 1500, not the
  channel's current value.
\<close>

theorem getFailValue_hold_counterexample:
  "getFailValue ((replicate 18 1500)[4 := 1500.5]) 4 = 1500 \<and>
   u16_to_float (getFailValue ((replicate 18 1500)[4 := 1500.5]) 4)
     \<noteq> ((replicate 18 1500)[4 := 1500.5]) ! 4"
proof -
  have "getFailValue ((replicate 18 1500)[4 := 1500.5]) 4 = float_to_u16 1500.5"
    by (simp add: getFailValue_aux CHANNEL_COUNT_def)
  also have "\<dots> = 1500"
    by (simp add: float_to_u16_def trunc_toward_zero_def)
  finally show ?thesis
    by (simp add: u16_to_float_def)
qed

text \<open>
  Claim C10, amended. The table built by \<open>getFailValue\<close> gives mode \<open>AUTO\<close> to channels
  0 to 3 and mode \<open>HOLD\<close> to channels 4 to 17. So for a channel index from 4 to 17 the
  function returns the current \<open>rcData[channel]\<close> converted to its \<open>uint16_t\<close> return
  type (the fraction is discarded; a whole value below 65536 comes back unchanged), no
  channel is in mode \<open>SET\<close>, and the result does not depend on the step values.
\<close>

theorem getFailValue_hardcoded:
  assumes "channel < CHANNEL_COUNT"
  shows "mode (failsafeChannelConfigs ! channel) =
      (if channel < 4 then FAILSAFE_MODE_AUTO else FAILSAFE_MODE_HOLD) \<and>
    (4 \<le> channel \<longrightarrow> getFailValue rcData channel = float_to_u16 (rcData ! channel)) \<and>
    (4 \<le> channel \<and> rcData ! channel = real n \<and> n < 65536 \<longrightarrow>
       u16_to_float (getFailValue rcData channel) = rcData ! channel) \<and>
    mode (failsafeChannelConfigs ! channel) \<noteq> FAILSAFE_MODE_SET \<and>
    failValueOfConfig ((failsafeChannelConfigs ! channel)\<lparr>step := s\<rparr>) rcData channel =
      getFailValue rcData channel"
proof (cases "channel < 4")
  case True
  then have m: "mode (failsafeChannelConfigs ! channel) = FAILSAFE_MODE_AUTO"
    by (rule mode_flight_channels)
  with True show ?thesis
    by (simp add: getFailValue_def failValueOfConfig_def FAILSAFE_MODE_AUTO_def
        FAILSAFE_MODE_SET_def)
next
  case False
  then have ge: "4 \<le> channel" by simp
  note cfg = config_aux_channels [OF ge assms]
  note val = getFailValue_aux [OF ge assms, of rcData]
  have "u16_to_float (getFailValue rcData channel) = rcData ! channel"
    if "rcData ! channel = real n" and "n < 65536"
    using that float_to_u16_whole [of n] by (simp add: val)
  moreover have "failValueOfConfig ((failsafeChannelConfigs ! channel)\<lparr>step := s\<rparr>)
      rcData channel = getFailValue rcData channel"
    by (simp add: val cfg failValueOfConfig_def FAILSAFE_MODE_HOLD_def
        FAILSAFE_MODE_AUTO_def FAILSAFE_MODE_INVALID_def)
  ultimately show ?thesis
    using False cfg val
    by (simp add: FAILSAFE_MODE_HOLD_def FAILSAFE_MODE_SET_def)
qed

text \<open>The amended claim at channel 4 holding 1500 and at channel 3 (yaw).\<close>

theorem getFailValue_hardcoded_witness:
  "mode (failsafeChannelConfigs ! 4) = FAILSAFE_MODE_HOLD \<and>
   getFailValue (replicate 18 1500) 4 = float_to_u16 (replicate 18 1500 ! 4) \<and>
   mode (failsafeChannelConfigs ! 3) = FAILSAFE_MODE_AUTO \<and>
   mode (failsafeChannelConfigs ! 3) \<noteq> FAILSAFE_MODE_SET"
proof -
  have h4: "(4::nat) < CHANNEL_COUNT" and h3: "(3::nat) < CHANNEL_COUNT"
    by (simp_all add: CHANNEL_COUNT_def)
  from getFailValue_hardcoded [OF h4, of "replicate 18 1500"]
    getFailValue_hardcoded [OF h3, of "replicate 18 1500"]
  show ?thesis by (simp add: FAILSAFE_MODE_AUTO_def FAILSAFE_MODE_SET_def)
qed

section \<open>MSP replies and malformed frames\<close>


lemma serialize_not_ready: "serialize b False x = b"
  by (simp add: serialize_def addToOutBuf_def Let_def)

lemma prepareToSerializeFloats_not_ready: "prepareToSerializeFloats b False t c = b"
  by (simp add: prepareToSerializeFloats_def prepareToSerialize_def serialize_not_ready
      addToOutBuf_def Let_def)

lemma serializeFloat_not_ready: "serializeFloat b False v = b"
  by (simp add: serializeFloat_def serialize_not_ready Let_def)

lemma completeSend_not_ready: "completeSend b False = b"
  by (simp add: completeSend_def serialize_not_ready)

lemmas not_ready =
  prepareToSerializeFloats_not_ready serializeFloat_not_ready completeSend_not_ready




lemma upt_18: "[0..<18] = [0, 1, 2, 3, 4, 5, 6, 7, 8, 9, 10, 11, 12, 13, 14, 15, 16, 17]"
  by (simp add: upt_rec)



















lemma parser_state_range:
  "parser_state_s p \<le> 5 \<Longrightarrow> parser_state_s (parser_parse p i) \<le> 5"
  by (simp add: parser_parse_def Let_def)

lemma header_byte_skipped:
  "parser_state_s p = 0 \<Longrightarrow> stream_serialByte i \<noteq> 0x24 \<Longrightarrow>
     parser_state_s (parser_parse p i) = 0"
  "parser_state_s p = 1 \<Longrightarrow> stream_serialByte i \<noteq> 0x4D \<Longrightarrow>
     parser_state_s (parser_parse p i) = 1"
  "parser_state_s p = 2 \<Longrightarrow> stream_serialByte i \<noteq> 0x3C \<Longrightarrow> stream_serialByte i \<noteq> 0x3E \<Longrightarrow>
     parser_state_s (parser_parse p i) = 2"
  by (simp_all add: parser_parse_def Let_def)

lemma checksum_mismatch:
  assumes "parser_state_s p = 5" and "\<not> in_payload p i"
    and "crc_s p \<noteq> stream_serialByte i"
  shows "parser_state_s (parser_parse p i) = 0"
    and "buffer (parser_parse p i) = buffer p"
    and "buffer_size_s (parser_parse p i) = buffer_size_s p"
    and "buffer_checksum_s (parser_parse p i) = buffer_checksum_s p"
    and "buffer_index (parser_parse p i) = buffer_index p"
    and "type_s p \<noteq> 215 \<longrightarrow>
           motor_index (parser_parse p i) = 0 \<and> motor_percent (parser_parse p i) = 0"
  using assms
  by (auto simp add: parser_parse_def in_payload_def not_ready fun_upd_idem_iff Let_def)

lemma parser_states_reached:
  "map (\<lambda>n. parser_state_s (feed quietInput initParser (take n [0x24, 0x4D, 0x3C, 0, 122, 122])))
     [0, 1, 2, 3, 4, 5, 6] = [0, 1, 2, 3, 4, 5, 0]"
  by (simp add: feed_def quietInput_def initParser_def parser_parse_def not_ready
      fun_upd_idem_iff Let_def)

lemma header_byte_example:
  "parser_state_s (feed quietInput initParser [0x24, 0x58]) = 1"
  by (simp add: feed_def quietInput_def initParser_def parser_parse_def Let_def)

lemma motorFrame_fed:
  "feed quietInput initParser motorFrame =
     initParser\<lparr>parser_state_s := 5, type_s := 215, crc_s := 228, size_s := 2, index_s := 2,
       buffer := (\<lambda>_. 0)(0 := 3, 1 := 50), motor_index := 3, motor_percent := 50\<rparr>"
  by (simp add: motorFrame_def feed_def quietInput_def initParser_def parser_parse_def
      fun_upd_idem_iff Let_def)

lemma feed_append: "feed i p (bs @ cs) = feed i (feed i p bs) cs"
  by (simp add: feed_def)

text \<open>
  Claim C9, on the code. The motor-override frame is followed by the checksum byte 0
  where 228 is due. The parser returns to state 0 and \<open>ready\<close> is false (the running XOR
  228 differs from the byte), yet the call hands the payload to the motor outputs: motor 3
  at 50 percent, the same outputs as with the right checksum byte. Case 215 of the
  \<open>switch\<close> copies the buffer without looking at \<open>ready\<close>, which the two other cases
  pass to every serialisation call.
\<close>

theorem bad_checksum_frame_dispatched:
  "xor_bytes [2, 215, 3, 50] = 228 \<and>
   parser_state_s (feed quietInput initParser (motorFrame @ [0])) = 0 \<and>
   crc_s (feed quietInput initParser (motorFrame @ [0])) = 228 \<and>
   motor_index (feed quietInput initParser (motorFrame @ [0])) = 3 \<and>
   motor_percent (feed quietInput initParser (motorFrame @ [0])) = 50 \<and>
   motor_index (feed quietInput initParser (motorFrame @ [228])) = 3 \<and>
   motor_percent (feed quietInput initParser (motorFrame @ [228])) = 50"
  unfolding feed_append motorFrame_fed
  by (simp add: xor_bytes_def feed_def quietInput_def initParser_def parser_parse_def Let_def)

section \<open>Signal loss: the hold window\<close>

lemma replicate_18: "replicate 18 x = [x, x, x, x, x, x, x, x, x, x, x, x, x, x, x, x, x, x]"
  by (simp add: numeral_eq_Suc)

lemma pulse_1500_valid: "isPulseValid (float_to_u16 1500)"
  by (simp add: isPulseValid_def float_to_u16_def trunc_toward_zero_def)

lemma pulse_800_invalid: "\<not> isPulseValid (float_to_u16 800)"
  by (simp add: isPulseValid_def float_to_u16_def trunc_toward_zero_def)

lemma first_frame_loop: "fold (signalLossChannel (6000000 div 1000) True) [0..<CHANNEL_COUNT]
     (replicate CHANNEL_COUNT 1500, replicate CHANNEL_COUNT 0, True)
   = (replicate CHANNEL_COUNT 1500, replicate CHANNEL_COUNT 6300, True)"
  unfolding CHANNEL_COUNT_def upt_18 replicate_18
  by (simp add: signalLossChannel_def pulse_1500_valid MAX_INVALID__PULSE_TIME_def Let_def)

lemma second_frame_loop: "fold (signalLossChannel (6100000 div 1000) True) [0..<CHANNEL_COUNT]
     ((replicate CHANNEL_COUNT 1500)[ROLL := 800], replicate CHANNEL_COUNT 6300, True)
   = ((replicate CHANNEL_COUNT 1500)[ROLL := 800],
      (replicate CHANNEL_COUNT 6400)[ROLL := 6300], True)"
  unfolding CHANNEL_COUNT_def ROLL_def upt_18 replicate_18
  by (simp add: signalLossChannel_def pulse_1500_valid pulse_800_invalid MAX_INVALID__PULSE_TIME_def
      cmp32_def Let_def)

lemma fold_update_all:
  "n \<le> length xs \<Longrightarrow> fold (\<lambda>i ys. ys[i := f i]) [0..<n] xs = map f [0..<n] @ drop n xs"
proof (induction n)
  case 0
  show ?case by simp
next
  case (Suc n)
  then have n: "n < length xs" by simp
  with Suc have "fold (\<lambda>i ys. ys[i := f i]) [0..<Suc n] xs
      = (map f [0..<n] @ drop n xs)[n := f n]"
    by simp
  also have "\<dots> = map f [0..<n] @ (drop n xs)[0 := f n]"
    by (simp add: list_update_append)
  also have "drop n xs = xs ! n # drop (Suc n) xs"
    using n by (simp add: Cons_nth_drop_Suc)
  finally show ?case by simp
qed

lemma readChannels_raw:
  assumes "length (m_raw r) = CHANNEL_COUNT" and "m_channelData r = d"
  shows "readChannelsApplyRanges conv r =
     r\<lparr>m_raw := map (\<lambda>channel. if channel < 4
            then applyChannelRangeConfiguraton (conv d channel)
            else conv d channel) [0..<CHANNEL_COUNT]\<rparr>"
  using assms fold_update_all [of CHANNEL_COUNT "m_raw r"]
  by (simp add: readChannelsApplyRanges_def Let_def)

lemma samples_first_frame:
  "map (\<lambda>channel. if channel < 4
          then applyChannelRangeConfiguraton
                 (convertMicroseconds (replicate CHANNEL_COUNT 1500) channel)
          else convertMicroseconds (replicate CHANNEL_COUNT 1500) channel) [0..<CHANNEL_COUNT]
     = replicate CHANNEL_COUNT 1500"
  unfolding CHANNEL_COUNT_def upt_18 replicate_18
  by (simp add: convertMicroseconds_def u16_to_float_def applyChannelRangeConfiguraton_def
      constrain_f_def PWM_PULSE_MIN_def PWM_PULSE_MAX_def)

lemma samples_second_frame:
  "map (\<lambda>channel. if channel < 4
          then applyChannelRangeConfiguraton
                 (convertMicroseconds ((replicate CHANNEL_COUNT 1500)[ROLL := 800]) channel)
          else convertMicroseconds ((replicate CHANNEL_COUNT 1500)[ROLL := 800]) channel)
       [0..<CHANNEL_COUNT]
     = (replicate CHANNEL_COUNT 1500)[ROLL := 800]"
  unfolding CHANNEL_COUNT_def ROLL_def upt_18 replicate_18
  by (simp add: convertMicroseconds_def u16_to_float_def applyChannelRangeConfiguraton_def
      constrain_f_def PWM_PULSE_MIN_def PWM_PULSE_MAX_def)

lemma detect_valid:
  assumes "m_raw r = A" and "m_invalidPulsePeriod r = P"
    and "m_signalReceived r" and "\<not> m_inFailsafeMode r"
    and "fold (signalLossChannel (t div 1000) True) [0..<CHANNEL_COUNT] (A, P, True)
         = (A', P', True)"
  shows "detectAndApplySignalLossBehaviour r t =
     (r\<lparr>m_raw := A', m_invalidPulsePeriod := P'\<rparr>, OnValidDataReceived)"
  using assms by (simp add: detectAndApplySignalLossBehaviour_def Let_def)

lemma calc_frame:
  assumes "length (m_raw r) = CHANNEL_COUNT" and "\<not> m_auxiliaryProcessingRequired r"
  shows "calculateChannelsAndUpdateFailsafe conv (frameReceived r d) t =
     (case detectAndApplySignalLossBehaviour
        (r\<lparr>m_channelData := d, m_inFailsafeMode := False, m_signalReceived := True,
           m_dataProcessingRequired := False, m_nextUpdateAtUs := t + DELAY_15_HZ,
           m_raw := map (\<lambda>channel. if channel < 4
              then applyChannelRangeConfiguraton (conv d channel)
              else conv d channel) [0..<CHANNEL_COUNT]\<rparr>) t
      of (r4, call) \<Rightarrow> (r4, True, Some call))"
proof -
  let ?r2 = "(frameReceived r d)\<lparr>m_dataProcessingRequired := False,
      m_nextUpdateAtUs := t + DELAY_15_HZ\<rparr>"
  have "length (m_raw ?r2) = CHANNEL_COUNT" and "m_channelData ?r2 = d"
    using assms(1) by (simp_all add: frameReceived_def)
  from readChannels_raw [OF this, of conv] assms(2) show ?thesis
    by (simp add: calculateChannelsAndUpdateFailsafe_def frameReceived_def Let_def)
qed

lemma afterValidFrame_fields: "m_raw afterValidFrame = replicate CHANNEL_COUNT 1500 \<and>
   m_invalidPulsePeriod afterValidFrame = replicate CHANNEL_COUNT 6300 \<and>
   \<not> m_auxiliaryProcessingRequired afterValidFrame"
proof -
  let ?r = "bootReceiver\<lparr>m_channelData := replicate CHANNEL_COUNT 1500,
      m_inFailsafeMode := False, m_signalReceived := True,
      m_dataProcessingRequired := False, m_nextUpdateAtUs := 6000000 + DELAY_15_HZ,
      m_raw := replicate CHANNEL_COUNT 1500\<rparr>"
  have d: "(6000000 :: 32 word) div 1000 = 6000" by simp
  have boot: "length (m_raw bootReceiver) = CHANNEL_COUNT"
    "\<not> m_auxiliaryProcessingRequired bootReceiver"
    "m_invalidPulsePeriod bootReceiver = replicate CHANNEL_COUNT 0"
    by (simp_all add: bootReceiver_def)
  have "detectAndApplySignalLossBehaviour ?r 6000000 =
      (?r\<lparr>m_raw := replicate CHANNEL_COUNT 1500,
           m_invalidPulsePeriod := replicate CHANNEL_COUNT 6300\<rparr>, OnValidDataReceived)"
    by (rule detect_valid [OF _ _ _ _ first_frame_loop]) (simp_all add: boot)
  then show ?thesis
    unfolding afterValidFrame_def calc_frame [OF boot(1,2)] samples_first_frame
    by (simp add: boot)
qed

lemma afterInvalidRoll_fields: "m_raw afterInvalidRoll = (replicate CHANNEL_COUNT 1500)[ROLL := 800] \<and>
   m_invalidPulsePeriod afterInvalidRoll = (replicate CHANNEL_COUNT 6400)[ROLL := 6300]"
proof -
  let ?r = "afterValidFrame\<lparr>m_channelData := (replicate CHANNEL_COUNT 1500)[ROLL := 800],
      m_inFailsafeMode := False, m_signalReceived := True,
      m_dataProcessingRequired := False, m_nextUpdateAtUs := 6100000 + DELAY_15_HZ,
      m_raw := (replicate CHANNEL_COUNT 1500)[ROLL := 800]\<rparr>"
  have d: "(6100000 :: 32 word) div 1000 = 6100" by simp
  have pre: "length (m_raw afterValidFrame) = CHANNEL_COUNT"
    "\<not> m_auxiliaryProcessingRequired afterValidFrame"
    using afterValidFrame_fields by simp_all
  have "detectAndApplySignalLossBehaviour ?r 6100000 =
      (?r\<lparr>m_raw := (replicate CHANNEL_COUNT 1500)[ROLL := 800],
           m_invalidPulsePeriod := (replicate CHANNEL_COUNT 6400)[ROLL := 6300]\<rparr>,
       OnValidDataReceived)"
    by (rule detect_valid [OF _ _ _ _ second_frame_loop]) (simp_all add: afterValidFrame_fields)
  then show ?thesis
    unfolding afterInvalidRoll_def calc_frame [OF pre] samples_second_frame
    by simp
qed

lemma signalLoss_hold_branch:
  assumes "\<not> (useValueFromRx \<and> isPulseValid (float_to_u16 (raw ! channel)))"
    and "cmp32 currentTimeMs (invalidPulsePeriod ! channel) < 0"
  shows "signalLossChannel currentTimeMs useValueFromRx channel (raw, invalidPulsePeriod, v)
     = (raw, invalidPulsePeriod, v)"
  using assms by (auto simp add: signalLossChannel_def Let_def)

lemma signalLoss_fallback_branch:
  assumes "\<not> (useValueFromRx \<and> isPulseValid (float_to_u16 (raw ! channel)))"
    and "\<not> cmp32 currentTimeMs (invalidPulsePeriod ! channel) < 0"
    and "channel < length raw"
  shows "fst (signalLossChannel currentTimeMs useValueFromRx channel (raw, invalidPulsePeriod, v))
     ! channel = u16_to_float (getFailValue raw channel)"
  using assms by (auto simp add: signalLossChannel_def Let_def)

text \<open>
  Claim C3, on the code. A frame with every channel at 1500 is followed, 100 ms later and
  so inside the 300 ms window, by a frame whose roll pulse is 800, which \<open>isPulseValid\<close>
  rejects. After \<open>calculateChannelsAndUpdateFailsafe\<close> the roll output is 800, the
  invalid sample itself, and not 1500, the last valid value: \<open>readChannelsApplyRanges\<close>
  has already overwritten \<open>raw\<close> with the new samples when the loop of
  \<open>detectAndApplySignalLossBehaviour\<close> skips the channel "to hold" its value.
\<close>

theorem hold_window_keeps_invalid_sample:
  "m_raw afterValidFrame ! ROLL = 1500 \<and>
   \<not> isPulseValid (float_to_u16 800) \<and>
   cmp32 (6100000 div 1000) (m_invalidPulsePeriod afterValidFrame ! ROLL) < 0 \<and>
   m_raw afterInvalidRoll ! ROLL = 800"
  by (simp add: afterValidFrame_fields afterInvalidRoll_fields pulse_800_invalid
      CHANNEL_COUNT_def ROLL_def cmp32_def)

section \<open>Auto cutoff frequencies\<close>

lemma cutoff_algebra:
  fixes a t :: real
  assumes "0 < a" and "0 \<le> t"
  shows "cutoffFormula a t = 15000000 / (a * (10 + t))"
proof -
  have nz: "10 + t \<noteq> 0" "1 + t / 10 \<noteq> 0" using assms(2) by auto
  show ?thesis
    using assms(1) nz by (simp add: cutoffFormula_def field_simps)
qed

lemma cutoffFormula_range:
  fixes a t :: real
  assumes "23 \<le> a" and "0 \<le> t"
  shows "0 \<le> cutoffFormula a t" and "cutoffFormula a t < 65218"
proof -
  have a0: "0 < a" using assms(1) by simp
  note eq = cutoff_algebra [OF a0 assms(2)]
  have pos: "230 \<le> a * (10 + t)"
    using mult_mono [of 23 a 10 "10 + t"] assms by simp
  show "0 \<le> cutoffFormula a t"
    unfolding eq using pos by simp
  have "15000000 / (a * (10 + t)) \<le> 15000000 / 230"
    using pos by (intro divide_left_mono) simp_all
  then show "cutoffFormula a t < 65218"
    unfolding eq by simp
qed

lemma cutoff_chain:
  fixes a t :: real
  assumes a: "23 \<le> a" "a \<le> 2 ^ 31" and t: "t = 0 \<or> 1 \<le> t" "t \<le> 255"
  shows "f32_near 8 (cutoffFormula a t)
     (f32 (f32 (1 / f32 (f32 a * f32 (1 / 1000000))) * f32 (1.5 / f32 (1.0 + f32 (t / 10.0)))))"
proof -
  have t0: "0 \<le> t" using t(1) by auto
  have a0: "0 < a" using a(1) by simp
  define x1 where "x1 = f32 a * f32 (1 / 1000000)"
  define x2 where "x2 = f32 x1"
  define x3 where "x3 = f32 (1 / x2)"
  define t1 where "t1 = f32 (t / 10)"
  define t2 where "t2 = f32 (1 + t1)"
  define t3 where "t3 = f32 (3 / 2 / t2)"
  define F1 where "F1 = 1000000 / a"
  define F2 where "F2 = 3 / 2 / (1 + t / 10)"
  have n1: "f32_near 1 a (f32 a)"
    by (rule f32_near_mono [OF f32_near_step [OF f32_near_refl [OF a0]]]) (use a in simp_all)
  have c: "f32_near 1 (1 / 1000000) (f32 (1 / 1000000))"
    by (rule f32_near_round) simp_all
  have n2: "f32_near 2 (a / 1000000) x1"
    using f32_near_mono [OF f32_near_mult [OF n1 c], of 2] by (simp add: x1_def)
  have n3: "f32_near 3 (a / 1000000) x2"
    unfolding x2_def by (rule f32_near_mono [OF f32_near_step [OF n2]]) (use a in simp_all)
  have n4: "f32_near 3 F1 (1 / x2)"
    using f32_near_inverse [OF n3] by (simp add: F1_def)
  have r1: "1 / 100000 \<le> F1" "F1 \<le> 2 ^ 32"
  proof -
    have "1000000 / 2 ^ 31 \<le> 1000000 / a"
      using a a0 by (intro divide_left_mono) simp_all
    then show "1 / 100000 \<le> F1" by (simp add: F1_def)
    have "1000000 / a \<le> 1000000 / 23"
      using a by (intro divide_left_mono) simp_all
    then show "F1 \<le> 2 ^ 32" by (simp add: F1_def)
  qed
  have n5: "f32_near 4 F1 x3"
    unfolding x3_def by (rule f32_near_mono [OF f32_near_step [OF n4 _ r1]]) simp_all
  have d: "(t / 10 = 0 \<and> t1 = 0) \<or> f32_near 1 (t / 10) t1"
  proof (cases "t = 0")
    case True
    then show ?thesis by (simp add: t1_def f32_zero)
  next
    case False
    with t have "1 \<le> t" by simp
    then have "0 < t / 10" "1 / 100000 \<le> t / 10" "t / 10 \<le> 2 ^ 32"
      using t(2) by simp_all
    from f32_near_mono [OF f32_near_step [OF f32_near_refl [OF this(1)] _ this(2,3)], of 1]
    show ?thesis by (simp add: t1_def)
  qed
  have m1: "f32_near 1 (1 + t / 10) (1 + t1)"
    by (rule f32_near_one_plus [OF d])
  have m2: "f32_near 2 (1 + t / 10) t2"
    unfolding t2_def by (rule f32_near_mono [OF f32_near_step [OF m1]]) (use t0 t(2) in simp_all)
  have m3: "f32_near 2 F2 (3 / 2 / t2)"
    using f32_near_mono [OF f32_near_divide [OF f32_near_refl [of "3 / 2"] m2], of 2]
    by (simp add: F2_def)
  have r2: "1 / 100000 \<le> F2" "F2 \<le> 3 / 2"
  proof -
    have "3 / 2 / (1 + 255 / 10) \<le> 3 / 2 / (1 + t / 10)"
      using t0 t(2) by (intro divide_left_mono) simp_all
    then show "1 / 100000 \<le> F2" by (simp add: F2_def)
    have "3 / 2 / (1 + t / 10) \<le> 3 / 2 / 1"
      using t0 by (intro divide_left_mono) simp_all
    then show "F2 \<le> 3 / 2" by (simp add: F2_def)
  qed
  have m4: "f32_near 3 F2 t3"
    unfolding t3_def by (rule f32_near_mono [OF f32_near_step [OF m3]]) (use r2 in simp_all)
  have p: "f32_near 7 (F1 * F2) (x3 * t3)"
    using f32_near_mono [OF f32_near_mult [OF n5 m4], of 7] by simp
  have r3: "1 / 100000 \<le> F1 * F2" "F1 * F2 \<le> 2 ^ 32"
  proof -
    have "1000000 / 2 ^ 31 \<le> F1"
      unfolding F1_def using a a0 by (intro divide_left_mono) simp_all
    moreover have "1 / 20 \<le> F2"
    proof -
      have "3 / 2 / (1 + 255 / 10) \<le> 3 / 2 / (1 + t / 10)"
        using t0 t(2) by (intro divide_left_mono) simp_all
      then show ?thesis by (simp add: F2_def)
    qed
    ultimately have "1000000 / 2 ^ 31 * (1 / 20) \<le> F1 * F2"
      by (intro mult_mono) simp_all
    then show "1 / 100000 \<le> F1 * F2" by simp
    have "F1 \<le> 1000000 / 23"
      unfolding F1_def using a by (intro divide_left_mono) simp_all
    with r2(2) have "F1 * F2 \<le> 1000000 / 23 * (3 / 2)"
      using r1(1) r2(1) by (intro mult_mono) simp_all
    then show "F1 * F2 \<le> 2 ^ 32" by simp
  qed
  have v: "f32_near 8 (F1 * F2) (f32 (x3 * t3))"
    by (rule f32_near_mono [OF f32_near_step [OF p _ r3]]) simp_all
  have "10 + t \<noteq> 0" using t0 by simp
  then have "F1 * F2 = cutoffFormula a t"
    using a0 by (simp add: F1_def F2_def cutoffFormula_def field_simps)
  with v show ?thesis
    by (simp add: x1_def x2_def x3_def t1_def t2_def t3_def)
qed

lemma lrintf_close:
  assumes "\<bar>x - y\<bar> < 1"
  shows "\<bar>lrintf x - lrintf y\<bar> \<le> 1"
proof -
  define i where "i = lrintf x"
  define j where "j = lrintf y"
  have "\<bar>real_of_int i - x\<bar> \<le> 1 / 2" "\<bar>real_of_int j - y\<bar> \<le> 1 / 2"
    unfolding i_def j_def by (rule lrintf_near)+
  with assms have "\<bar>real_of_int i - real_of_int j\<bar> < 2" by linarith
  then have "\<bar>i - j\<bar> < 2" by linarith
  then show ?thesis
    unfolding i_def j_def by simp
qed

lemma calc_steps:
  assumes "0 < avg"
    and "f32 (real_of_int avg) = a" and "f32 (1 / 1000000) = c" and "f32 (a * c) = x2"
    and "f32 (1 / x2) = x3" and "f32 (real (unat s) / 10.0) = t1" and "f32 (1.0 + t1) = t2"
    and "f32 (1.5 / t2) = t3" and "f32 (x3 * t3) = v"
  shows "calcAutoSmoothingCutoff avg s = lrintf v"
  unfolding calcAutoSmoothingCutoff_def Let_def
  by (simp only: assms if_True)

lemma calc_near_formula:
  assumes "23 \<le> avg" and "avg < 2 ^ 31"
  shows "0 \<le> calcAutoSmoothingCutoff avg s" and "calcAutoSmoothingCutoff avg s < 65536"
    and "\<bar>calcAutoSmoothingCutoff avg s
          - lrintf (cutoffFormula (real_of_int avg) (real (unat s)))\<bar> \<le> 1"
proof -
  define a where "a = real_of_int avg"
  define t where "t = real (unat s)"
  define F where "F = cutoffFormula a t"
  define v where "v = f32 (f32 (1 / f32 (f32 a * f32 (1 / 1000000)))
      * f32 (1.5 / f32 (1.0 + f32 (t / 10.0))))"
  have a: "23 \<le> a" "a \<le> 2 ^ 31"
    using assms by (simp_all add: a_def)
  define n where "n = unat s"
  have "n < 2 ^ 8"
    unfolding n_def using unsigned_less [of s, where 'a = nat] by simp
  moreover have "t = real n"
    by (simp only: t_def n_def)
  ultimately have t: "t = 0 \<or> 1 \<le> t" "t \<le> 255" and t0: "0 \<le> t"
    by auto
  have pos: "0 < avg" using assms(1) by simp
  have c: "calcAutoSmoothingCutoff avg s = lrintf v"
    unfolding v_def a_def t_def by (rule calc_steps [OF pos]) (rule refl)+
  have near: "f32_near 8 F v"
    unfolding F_def v_def by (rule cutoff_chain [OF a t])
  have F: "0 \<le> F" "F < 65218"
    unfolding F_def by (rule cutoffFormula_range [OF a(1) t0])+
  have "\<bar>v - F\<bar> \<le> F / 1000000"
    by (rule f32_near_bounds(3) [OF near]) simp
  with F have d: "\<bar>v - F\<bar> < 1" by linarith
  have v0: "0 < v"
    using near by (simp add: f32_near_def)
  define i where "i = lrintf v"
  have i: "\<bar>real_of_int i - v\<bar> \<le> 1 / 2"
    unfolding i_def by (rule lrintf_near)
  with v0 have "- 1 < real_of_int i" by linarith
  then have "- 1 < i" by linarith
  then show "0 \<le> calcAutoSmoothingCutoff avg s"
    unfolding c i_def by simp
  from i d F have "real_of_int i < 65536" by linarith
  then have "i < 65536" by linarith
  then show "calcAutoSmoothingCutoff avg s < 65536"
    unfolding c i_def by simp
  from d show "\<bar>calcAutoSmoothingCutoff avg s
      - lrintf (cutoffFormula (real_of_int avg) (real (unat s)))\<bar> \<le> 1"
    unfolding c F_def a_def t_def by (rule lrintf_close)
qed

lemma u16_of_int:
  assumes "0 \<le> z" and "z < 65536"
  shows "int (unat (float_to_u16 (real_of_int z))) = z"
proof -
  have "float_to_u16 (real_of_int z) = word_of_int z"
    by (simp add: float_to_u16_def trunc_toward_zero_def)
  moreover have "uint (word_of_int z :: 16 word) = z"
    using assms by (simp add: uint_word_of_int)
  ultimately show ?thesis by simp
qed

lemma calc_nonpositive: "avg \<le> 0 \<Longrightarrow> calcAutoSmoothingCutoff avg s = 0"
  by (simp add: calcAutoSmoothingCutoff_def)

lemma autoCutoff_of_calc:
  assumes "0 \<le> calcAutoSmoothingCutoff (sint (averageFrameTimeUs sf)) s"
    and "calcAutoSmoothingCutoff (sint (averageFrameTimeUs sf)) s < 65536"
  shows "int (unat (autoCutoff sf s)) =
     max 15 (calcAutoSmoothingCutoff (sint (averageFrameTimeUs sf)) s)"
proof -
  define c where "c = calcAutoSmoothingCutoff (sint (averageFrameTimeUs sf)) s"
  have cb: "0 \<le> c" "c < 65536"
    using assms by (simp_all add: c_def)
  then have f: "f32 (real_of_int c) = real_of_int c"
    by (intro f32_of_int) simp_all
  have m: "max (u16_to_float SMOOTHING_CUTOFF_MIN_HZ) (real_of_int c) = real_of_int (max 15 c)"
    by (simp add: u16_to_float_def SMOOTHING_CUTOFF_MIN_HZ_def)
  from cb have "0 \<le> max 15 c" and "max 15 c < 65536" by simp_all
  note u = u16_of_int [OF this]
  have "autoCutoff sf s = float_to_u16 (real_of_int (max 15 c))"
    by (simp only: autoCutoff_def autoCutoffValue_def c_def [symmetric] f m)
  with u show ?thesis
    by (simp only: c_def)
qed

lemma autoCutoff_value:
  assumes "sint (averageFrameTimeUs sf) \<le> 0 \<or> 23 \<le> sint (averageFrameTimeUs sf)"
  shows "int (unat (autoCutoff sf s)) =
     max 15 (calcAutoSmoothingCutoff (sint (averageFrameTimeUs sf)) s)"
proof (rule autoCutoff_of_calc)
  define z where "z = sint (averageFrameTimeUs sf)"
  have zb: "z < 2 ^ 31"
    using sint_lt [of "averageFrameTimeUs sf"] by (simp add: z_def)
  have "0 \<le> calcAutoSmoothingCutoff z s \<and> calcAutoSmoothingCutoff z s < 65536"
  proof (cases "z \<le> 0")
    case True
    then show ?thesis by (simp add: calc_nonpositive)
  next
    case False
    with assms have "23 \<le> z" by (simp add: z_def)
    from calc_near_formula(1,2) [OF this zb] show ?thesis by simp
  qed
  then show "0 \<le> calcAutoSmoothingCutoff (sint (averageFrameTimeUs sf)) s"
    and "calcAutoSmoothingCutoff (sint (averageFrameTimeUs sf)) s < 65536"
    by (simp_all add: z_def)
qed

lemma cutoffs_set:
  "setpointCutoffFrequency (snd (setSmoothingFilterCutoffs pf a sf)) =
     (if setpointCutoffSetting sf = 0 then autoCutoff sf (autoSmoothnessFactorSetpoint sf)
      else setpointCutoffFrequency sf)"
  "throttleCutoffFrequency (snd (setSmoothingFilterCutoffs pf a sf)) =
     (if throttleCutoffSetting sf = 0 then autoCutoff sf (autoSmoothnessFactorThrottle sf)
      else throttleCutoffFrequency sf)"
  "feedforwardCutoffFrequency (snd (setSmoothingFilterCutoffs pf a sf)) =
     (if ffCutoffSetting sf = 0 then autoCutoff sf (autoSmoothnessFactorSetpoint sf)
      else feedforwardCutoffFrequency sf)"
  by (simp_all add: setSmoothingFilterCutoffs_def autoCutoff_def autoCutoffValue_def Let_def)

lemma calc_2000_30: "calcAutoSmoothingCutoff 2000 30 = 187"
proof -
  have a: "f32 (real_of_int 2000) = 2000"
    using f32_at [of 10 "2000"] by (simp add: lrintf_def)
  have c: "f32 (1 / 1000000) = 8796093 / 8796093022208"
    using f32_at [of "- 20" "1 / 1000000"] by (simp add: lrintf_def)
  have x2: "f32 (2000 * (8796093 / 8796093022208)) = 8589935 / 4294967296"
    using f32_at [of "- 9" "2000 * (8796093 / 8796093022208)"] by (simp add: lrintf_def)
  have x3: "f32 (1 / (8589935 / 4294967296)) = 16383999 / 32768"
    using f32_at [of 8 "1 / (8589935 / 4294967296)"] by (simp add: lrintf_def)
  have t1: "f32 (real (unat (30 :: 8 word)) / 10.0) = 3"
    using f32_at [of 1 "3"] by (simp add: lrintf_def)
  have t2: "f32 (1.0 + 3) = 4"
    using f32_at [of 2 "4"] by (simp add: lrintf_def)
  have t3: "f32 (1.5 / 4) = 3 / 8"
    using f32_at [of "- 2" "3 / 8"] by (simp add: lrintf_def)
  have v: "f32 ((16383999 / 32768) * (3 / 8)) = 12287999 / 65536"
    using f32_at [of 7 "(16383999 / 32768) * (3 / 8)"] by (simp add: lrintf_def)
  have "calcAutoSmoothingCutoff 2000 30 = lrintf (12287999 / 65536)"
    by (rule calc_steps [OF _ a c x2 x3 t1 t2 t3 v]) simp
  then show ?thesis by (simp add: lrintf_def)
qed

lemma calc_4000_30: "calcAutoSmoothingCutoff 4000 30 = 94"
proof -
  have a: "f32 (real_of_int 4000) = 4000"
    using f32_at [of 11 "4000"] by (simp add: lrintf_def)
  have c: "f32 (1 / 1000000) = 8796093 / 8796093022208"
    using f32_at [of "- 20" "1 / 1000000"] by (simp add: lrintf_def)
  have x2: "f32 (4000 * (8796093 / 8796093022208)) = 8589935 / 2147483648"
    using f32_at [of "- 8" "4000 * (8796093 / 8796093022208)"] by (simp add: lrintf_def)
  have x3: "f32 (1 / (8589935 / 2147483648)) = 16383999 / 65536"
    using f32_at [of 7 "1 / (8589935 / 2147483648)"] by (simp add: lrintf_def)
  have t1: "f32 (real (unat (30 :: 8 word)) / 10.0) = 3"
    using f32_at [of 1 "3"] by (simp add: lrintf_def)
  have t2: "f32 (1.0 + 3) = 4"
    using f32_at [of 2 "4"] by (simp add: lrintf_def)
  have t3: "f32 (1.5 / 4) = 3 / 8"
    using f32_at [of "- 2" "3 / 8"] by (simp add: lrintf_def)
  have v: "f32 ((16383999 / 65536) * (3 / 8)) = 12287999 / 131072"
    using f32_at [of 6 "(16383999 / 65536) * (3 / 8)"] by (simp add: lrintf_def)
  have "calcAutoSmoothingCutoff 4000 30 = lrintf (12287999 / 131072)"
    by (rule calc_steps [OF _ a c x2 x3 t1 t2 t3 v]) simp
  then show ?thesis by (simp add: lrintf_def)
qed

lemma autoFilter_fields:
  "setpointCutoffSetting (autoFilter avg) = 0"
  "throttleCutoffSetting (autoFilter avg) = 0"
  "ffCutoffSetting (autoFilter avg) = 0"
  "averageFrameTimeUs (autoFilter avg) = avg"
  "autoSmoothnessFactorSetpoint (autoFilter avg) = 30"
  "autoSmoothnessFactorThrottle (autoFilter avg) = 30"
  by (simp_all add: autoFilter_def rcSmoothingResetAccumulation_def bootReceiver_def)

text \<open>
  Claim C7, where it fails: with an average frame time of 2000 us and smoothness factor
  30 the formula gives \<open>500 * 0.375 = 187.5\<close>, which rounds to 188. The code computes
  the link frequency in single precision, \<open>1 / (2000 * 1e-6f) = 499.99997\<close>, so the
  product is \<open>187.49998\<close> and \<open>setSmoothingFilterCutoffs\<close> stores 187.
\<close>

theorem auto_cutoff_rounding_counterexample:
  "unat (setpointCutoffFrequency
     (snd (setSmoothingFilterCutoffs nominalPlatform zeroAnglePid (autoFilter 2000)))) = 187 \<and>
   max 15 (round (cutoffFormula 2000 30)) = 188"
proof -
  have "calcAutoSmoothingCutoff (sint (averageFrameTimeUs (autoFilter 2000)))
      (autoSmoothnessFactorSetpoint (autoFilter 2000)) = 187"
    by (simp add: autoFilter_fields calc_2000_30)
  then have "int (unat (autoCutoff (autoFilter 2000)
      (autoSmoothnessFactorSetpoint (autoFilter 2000)))) = 187"
    using autoCutoff_of_calc [of "autoFilter 2000" "autoSmoothnessFactorSetpoint (autoFilter 2000)"]
    by simp
  then have "unat (autoCutoff (autoFilter 2000)
      (autoSmoothnessFactorSetpoint (autoFilter 2000))) = 187"
    by linarith
  then have "unat (setpointCutoffFrequency
      (snd (setSmoothingFilterCutoffs nominalPlatform zeroAnglePid (autoFilter 2000)))) = 187"
    by (simp add: cutoffs_set autoFilter_fields)
  moreover have "max 15 (round (cutoffFormula 2000 30)) = 188"
    by (simp add: cutoffFormula_def round_def)
  ultimately show ?thesis by simp
qed

text \<open>
  Claim C7, amended. In every configuration the value that \<open>setSmoothingFilterCutoffs\<close>
  assigns to an auto cutoff, the \<open>float\<close> result of \<open>fmaxf\<close>, is at least 15. Let the
  average frame time, read as the \<open>int\<close> argument of \<open>calcAutoSmoothingCutoff\<close>, be 0
  (or negative) or at least 23 us; every average that training produces lies in
  \<open>[950, 65500]\<close>, and from 23 us on the value fits the \<open>uint16_t\<close> member that stores
  it. Then each cutoff whose setting is auto (0) is set to \<open>max(15, c)\<close>, where \<open>c\<close> is
  the result of \<open>calcAutoSmoothingCutoff\<close> for the setpoint smoothness factor (setpoint
  and feedforward cutoffs) or the throttle factor (throttle cutoff); so each of these
  cutoffs is at least 15. For a positive average \<open>c\<close> is the formula
  \<open>(1e6 / avg) * 1.5 / (1 + s/10)\<close> evaluated in single precision and rounded to an
  integer, which differs from the rounded exact value by at most 1; for average 0 it
  is 0.
\<close>

theorem auto_cutoff_floor:
  "15 \<le> autoCutoffValue sf s \<and>
   (sint (averageFrameTimeUs sf) \<le> 0 \<or> 23 \<le> sint (averageFrameTimeUs sf) \<longrightarrow>
     (setpointCutoffSetting sf = 0 \<longrightarrow>
        int (unat (setpointCutoffFrequency (snd (setSmoothingFilterCutoffs pf a sf)))) =
          max 15 (calcAutoSmoothingCutoff (sint (averageFrameTimeUs sf))
                    (autoSmoothnessFactorSetpoint sf)) \<and>
        15 \<le> unat (setpointCutoffFrequency (snd (setSmoothingFilterCutoffs pf a sf)))) \<and>
     (throttleCutoffSetting sf = 0 \<longrightarrow>
        int (unat (throttleCutoffFrequency (snd (setSmoothingFilterCutoffs pf a sf)))) =
          max 15 (calcAutoSmoothingCutoff (sint (averageFrameTimeUs sf))
                    (autoSmoothnessFactorThrottle sf)) \<and>
        15 \<le> unat (throttleCutoffFrequency (snd (setSmoothingFilterCutoffs pf a sf)))) \<and>
     (ffCutoffSetting sf = 0 \<longrightarrow>
        int (unat (feedforwardCutoffFrequency (snd (setSmoothingFilterCutoffs pf a sf)))) =
          max 15 (calcAutoSmoothingCutoff (sint (averageFrameTimeUs sf))
                    (autoSmoothnessFactorSetpoint sf)) \<and>
        15 \<le> unat (feedforwardCutoffFrequency (snd (setSmoothingFilterCutoffs pf a sf)))) \<and>
     (0 < sint (averageFrameTimeUs sf) \<longrightarrow>
        \<bar>calcAutoSmoothingCutoff (sint (averageFrameTimeUs sf)) s
          - lrintf (cutoffFormula (real_of_int (sint (averageFrameTimeUs sf)))
                      (real (unat s)))\<bar> \<le> 1) \<and>
     (sint (averageFrameTimeUs sf) \<le> 0 \<longrightarrow>
        calcAutoSmoothingCutoff (sint (averageFrameTimeUs sf)) s = 0))"
proof (intro conjI impI)
  show "15 \<le> autoCutoffValue sf s"
    by (simp add: autoCutoffValue_def u16_to_float_def SMOOTHING_CUTOFF_MIN_HZ_def)
next
  assume h: "sint (averageFrameTimeUs sf) \<le> 0 \<or> 23 \<le> sint (averageFrameTimeUs sf)"
  have ge: "15 \<le> unat (autoCutoff sf s')" for s'
  proof -
    have "(15::int) \<le> int (unat (autoCutoff sf s'))"
      unfolding autoCutoff_value [OF h] by simp
    then show ?thesis by linarith
  qed
  let ?sf' = "snd (setSmoothingFilterCutoffs pf a sf)"
  have e1: "setpointCutoffFrequency ?sf' = autoCutoff sf (autoSmoothnessFactorSetpoint sf)"
    if "setpointCutoffSetting sf = 0"
    using that by (simp add: cutoffs_set)
  have e2: "throttleCutoffFrequency ?sf' = autoCutoff sf (autoSmoothnessFactorThrottle sf)"
    if "throttleCutoffSetting sf = 0"
    using that by (simp add: cutoffs_set)
  have e3: "feedforwardCutoffFrequency ?sf' = autoCutoff sf (autoSmoothnessFactorSetpoint sf)"
    if "ffCutoffSetting sf = 0"
    using that by (simp add: cutoffs_set)
  have zb: "sint (averageFrameTimeUs sf) < 2 ^ 31"
    using sint_lt [of "averageFrameTimeUs sf"] by simp
  {
    assume s: "setpointCutoffSetting sf = 0"
    show "int (unat (setpointCutoffFrequency ?sf')) =
        max 15 (calcAutoSmoothingCutoff (sint (averageFrameTimeUs sf))
                  (autoSmoothnessFactorSetpoint sf))"
      unfolding e1 [OF s] by (rule autoCutoff_value [OF h])
    show "15 \<le> unat (setpointCutoffFrequency ?sf')"
      unfolding e1 [OF s] by (rule ge)
  }
  {
    assume s: "throttleCutoffSetting sf = 0"
    show "int (unat (throttleCutoffFrequency ?sf')) =
        max 15 (calcAutoSmoothingCutoff (sint (averageFrameTimeUs sf))
                  (autoSmoothnessFactorThrottle sf))"
      unfolding e2 [OF s] by (rule autoCutoff_value [OF h])
    show "15 \<le> unat (throttleCutoffFrequency ?sf')"
      unfolding e2 [OF s] by (rule ge)
  }
  {
    assume s: "ffCutoffSetting sf = 0"
    show "int (unat (feedforwardCutoffFrequency ?sf')) =
        max 15 (calcAutoSmoothingCutoff (sint (averageFrameTimeUs sf))
                  (autoSmoothnessFactorSetpoint sf))"
      unfolding e3 [OF s] by (rule autoCutoff_value [OF h])
    show "15 \<le> unat (feedforwardCutoffFrequency ?sf')"
      unfolding e3 [OF s] by (rule ge)
  }
  {
    assume "0 < sint (averageFrameTimeUs sf)"
    with h have "23 \<le> sint (averageFrameTimeUs sf)" by simp
    from calc_near_formula(3) [OF this zb]
    show "\<bar>calcAutoSmoothingCutoff (sint (averageFrameTimeUs sf)) s
          - lrintf (cutoffFormula (real_of_int (sint (averageFrameTimeUs sf)))
                      (real (unat s)))\<bar> \<le> 1" .
  }
  {
    assume "sint (averageFrameTimeUs sf) \<le> 0"
    then show "calcAutoSmoothingCutoff (sint (averageFrameTimeUs sf)) s = 0"
      by (rule calc_nonpositive)
  }
qed

text \<open>
  The amended claim at the first-call filter with average frame time 4000 us (cutoff 94
  Hz, from 93.75 in the formula and 93.74999 in single precision), with average frame
  time 2000 us (cutoff 187 Hz, one below the rounded formula) and with average frame time
  0 (cutoff 15 Hz).
\<close>

theorem auto_cutoff_floor_witness:
  "unat (setpointCutoffFrequency
     (snd (setSmoothingFilterCutoffs nominalPlatform zeroAnglePid (autoFilter 4000)))) = 94 \<and>
   unat (feedforwardCutoffFrequency
     (snd (setSmoothingFilterCutoffs nominalPlatform zeroAnglePid (autoFilter 2000)))) = 187 \<and>
   lrintf (cutoffFormula 2000 30) = 188 \<and>
   unat (throttleCutoffFrequency
     (snd (setSmoothingFilterCutoffs nominalPlatform zeroAnglePid (autoFilter 0)))) = 15"
proof -
  have h1: "sint (averageFrameTimeUs (autoFilter 4000)) \<le> 0 \<or>
      23 \<le> sint (averageFrameTimeUs (autoFilter 4000))"
    by (simp add: autoFilter_fields)
  have h2: "sint (averageFrameTimeUs (autoFilter 2000)) \<le> 0 \<or>
      23 \<le> sint (averageFrameTimeUs (autoFilter 2000))"
    by (simp add: autoFilter_fields)
  have h0: "sint (averageFrameTimeUs (autoFilter 0)) \<le> 0 \<or>
      23 \<le> sint (averageFrameTimeUs (autoFilter 0))"
    by (simp add: autoFilter_fields)
  have v: "lrintf (cutoffFormula 2000 30) = 188"
    by (simp add: lrintf_def cutoffFormula_def)
  from auto_cutoff_floor [of "autoFilter 4000" 30 nominalPlatform zeroAnglePid] h1
  have "int (unat (setpointCutoffFrequency
      (snd (setSmoothingFilterCutoffs nominalPlatform zeroAnglePid (autoFilter 4000))))) = 94"
    by (simp add: autoFilter_fields calc_4000_30)
  moreover from auto_cutoff_floor [of "autoFilter 2000" 30 nominalPlatform zeroAnglePid] h2
  have "int (unat (feedforwardCutoffFrequency
      (snd (setSmoothingFilterCutoffs nominalPlatform zeroAnglePid (autoFilter 2000))))) = 187"
    by (simp add: autoFilter_fields calc_2000_30)
  moreover from auto_cutoff_floor [of "autoFilter 0" 30 nominalPlatform zeroAnglePid] h0
  have "int (unat (throttleCutoffFrequency
      (snd (setSmoothingFilterCutoffs nominalPlatform zeroAnglePid (autoFilter 0))))) = 15"
    by (simp add: autoFilter_fields calc_nonpositive)
  ultimately show ?thesis using v by linarith
qed

section \<open>Initial training of the smoothing filter\<close>

lemma u16_float_of_int:
  assumes "0 \<le> z" and "z \<le> 65535"
  shows "u16_to_float (word_of_int z) = real_of_int z"
proof -
  have "uint (word_of_int z :: 16 word) = z"
    using assms by (simp add: uint_word_of_int)
  then have "int (unat (word_of_int z :: 16 word)) = z" by simp
  then have "real (unat (word_of_int z :: 16 word)) = real_of_int z"
    by (metis of_int_of_nat_eq)
  then show ?thesis by (simp only: u16_to_float_def)
qed

lemma float_to_u16_of_int: "float_to_u16 (real_of_int z) = word_of_int z"
  by (simp add: float_to_u16_def trunc_toward_zero_def)

lemma count_below_limit:
  assumes "n < 50"
  shows "\<not> (50 :: 32 word) \<le> of_nat n"
proof -
  have "unat (of_nat n :: 32 word) = n"
    using assms by (simp add: unat_of_nat)
  with assms show ?thesis
    by (simp add: word_le_nat_alt)
qed

lemma accumulate_step:
  assumes "\<not> filterInitialized sf" and "trainingCount sf = of_nat n" and "n < 49"
    and "0 \<le> x" and "x \<le> 65535"
    and "trainingMax sf = word_of_int M" and "0 \<le> M" and "M \<le> 65535"
    and "trainingMin sf = word_of_int m" and "0 \<le> m" and "m \<le> 65535"
  shows "rcSmoothingAccumulateSample sf x =
     (sf\<lparr>trainingSum := trainingSum sf + real_of_int x,
         trainingCount := of_nat (Suc n),
         trainingMax := word_of_int (max M x),
         trainingMin := word_of_int (min m x)\<rparr>, False)"
proof -
  have mx: "float_to_u16 (max (u16_to_float (trainingMax sf)) (real_of_int x))
      = word_of_int (max M x)"
    unfolding assms(6) u16_float_of_int [OF assms(7,8)]
    by (simp only: of_int_max [symmetric] float_to_u16_of_int)
  have mn: "float_to_u16 (min (u16_to_float (trainingMin sf)) (real_of_int x))
      = word_of_int (min m x)"
    unfolding assms(9) u16_float_of_int [OF assms(10,11)]
    by (simp only: of_int_min [symmetric] float_to_u16_of_int)
  have cnt: "trainingCount sf + 1 = of_nat (Suc n)"
    using assms(2) by simp
  have lim: "\<not> (50 :: 32 word) \<le> of_nat (Suc n)"
    using assms(3) by (intro count_below_limit) simp
  show ?thesis
    unfolding rcSmoothingAccumulateSample_def mx mn cnt
    using assms(1) lim
    by (simp add: Let_def SMOOTHING_FILTER_TRAINING_SAMPLES_def)
qed


lemma fold_max_bounds:
  fixes M :: int
  assumes "0 \<le> M" and "M \<le> 65535" and "\<forall>x\<in>set xs. 0 \<le> x \<and> x \<le> 65535"
  shows "0 \<le> fold max xs M \<and> fold max xs M \<le> 65535"
  using assms by (induction xs arbitrary: M) simp_all

lemma fold_min_bounds:
  fixes m :: int
  assumes "0 \<le> m" and "m \<le> 65535" and "\<forall>x\<in>set xs. 0 \<le> x \<and> x \<le> 65535"
  shows "0 \<le> fold min xs m \<and> fold min xs m \<le> 65535"
  using assms by (induction xs arbitrary: m) simp_all

lemma accumulate_partial:
  assumes "\<not> filterInitialized sf" and "trainingCount sf = of_nat n"
    and "n + length xs \<le> 49" and "\<forall>x\<in>set xs. 0 \<le> x \<and> x \<le> 65535"
    and "trainingMax sf = word_of_int M" and "0 \<le> M" and "M \<le> 65535"
    and "trainingMin sf = word_of_int m" and "0 \<le> m" and "m \<le> 65535"
  shows "accumulateSamples sf xs =
     (sf\<lparr>trainingSum := trainingSum sf + real_of_int (sum_list xs),
         trainingCount := of_nat (n + length xs),
         trainingMax := word_of_int (fold max xs M),
         trainingMin := word_of_int (fold min xs m)\<rparr>, replicate (length xs) False)"
  using assms
proof (induction xs arbitrary: sf n M m)
  case Nil
  then show ?case by simp
next
  case (Cons x xs)
  let ?sf1 = "sf\<lparr>trainingSum := trainingSum sf + real_of_int x,
      trainingCount := of_nat (Suc n),
      trainingMax := word_of_int (max M x),
      trainingMin := word_of_int (min m x)\<rparr>"
  from Cons.prems have x: "0 \<le> x" "x \<le> 65535" and n: "n < 49" by simp_all
  have step: "rcSmoothingAccumulateSample sf x = (?sf1, False)"
    using Cons.prems(1,2) n x Cons.prems(5-10) by (rule accumulate_step)
  have rest: "accumulateSamples ?sf1 xs =
     (?sf1\<lparr>trainingSum := trainingSum ?sf1 + real_of_int (sum_list xs),
         trainingCount := of_nat (Suc n + length xs),
         trainingMax := word_of_int (fold max xs (max M x)),
         trainingMin := word_of_int (fold min xs (min m x))\<rparr>, replicate (length xs) False)"
    using Cons.prems x by (intro Cons.IH) simp_all
  have "accumulateSamples sf (x # xs) =
      (fst (accumulateSamples ?sf1 xs), False # snd (accumulateSamples ?sf1 xs))"
    by (simp only: accumulateSamples.simps step case_prod_beta fst_conv snd_conv)
  also have "\<dots> = (sf\<lparr>trainingSum := trainingSum sf + real_of_int (sum_list (x # xs)),
         trainingCount := of_nat (n + length (x # xs)),
         trainingMax := word_of_int (fold max (x # xs) M),
         trainingMin := word_of_int (fold min (x # xs) m)\<rparr>,
       replicate (length (x # xs)) False)"
    unfolding rest by (simp add: max.commute min.commute add.assoc)
  finally show ?case .
qed


lemma accumulate_final:
  assumes "\<not> filterInitialized sf" and "trainingCount sf = 49"
    and "0 \<le> x" and "x \<le> 65535"
    and "trainingMax sf = word_of_int M" and "0 \<le> M" and "M \<le> 65535"
    and "trainingMin sf = word_of_int m" and "0 \<le> m" and "m \<le> 65535"
  shows "rcSmoothingAccumulateSample sf x =
     (rcSmoothingResetAccumulation
        (sf\<lparr>averageFrameTimeUs :=
             word_of_int (lrintf ((trainingSum sf + real_of_int x - real_of_int (min m x)
                - real_of_int (max M x)) / 48))\<rparr>), True)"
proof -
  have mx: "float_to_u16 (max (u16_to_float (trainingMax sf)) (real_of_int x))
      = word_of_int (max M x)"
    unfolding assms(5) u16_float_of_int [OF assms(6,7)]
    by (simp only: of_int_max [symmetric] float_to_u16_of_int)
  have mn: "float_to_u16 (min (u16_to_float (trainingMin sf)) (real_of_int x))
      = word_of_int (min m x)"
    unfolding assms(8) u16_float_of_int [OF assms(9,10)]
    by (simp only: of_int_min [symmetric] float_to_u16_of_int)
  have bx: "0 \<le> max M x" "max M x \<le> 65535" "0 \<le> min m x" "min m x \<le> 65535"
    using assms by simp_all
  have c: "unat (49 + 1 - 2 :: 32 word) = 48" by simp
  show ?thesis
    unfolding rcSmoothingAccumulateSample_def mx mn assms(2)
    using assms(1)
    by (simp add: Let_def SMOOTHING_FILTER_TRAINING_SAMPLES_def rcSmoothingResetAccumulation_def
        u16_float_of_int [OF bx(1,2)] u16_float_of_int [OF bx(3,4)])
qed

lemma accumulateSamples_append:
  "accumulateSamples sf (ys @ zs) =
     (fst (accumulateSamples (fst (accumulateSamples sf ys)) zs),
      snd (accumulateSamples sf ys) @ snd (accumulateSamples (fst (accumulateSamples sf ys)) zs))"
  by (induction ys arbitrary: sf) (simp_all add: case_prod_beta)

lemma fold_max_Max:
  fixes xs :: "int list"
  assumes "xs \<noteq> []" and "\<forall>x\<in>set xs. 0 \<le> x"
  shows "fold max xs 0 = Max (set xs)"
proof -
  have "fold max xs 0 = Max (set (0 # xs))"
    by (simp only: Max.set_eq_fold)
  also have "\<dots> = max 0 (Max (set xs))"
    using assms(1) by simp
  also have "\<dots> = Max (set xs)"
  proof -
    from assms(1) obtain x where x: "x \<in> set xs" by (cases xs) auto
    with assms(2) have "0 \<le> x" by simp
    moreover from x have "x \<le> Max (set xs)" by simp
    ultimately have "0 \<le> Max (set xs)" by linarith
    then show ?thesis by simp
  qed
  finally show ?thesis .
qed

lemma fold_min_Min:
  fixes xs :: "int list"
  assumes "xs \<noteq> []" and "\<forall>x\<in>set xs. x \<le> 65535"
  shows "fold min xs 65535 = Min (set xs)"
proof -
  have "fold min xs 65535 = Min (set (65535 # xs))"
    by (simp only: Min.set_eq_fold)
  also have "\<dots> = min 65535 (Min (set xs))"
    using assms(1) by simp
  also have "\<dots> = Min (set xs)"
  proof -
    from assms(1) obtain x where x: "x \<in> set xs" by (cases xs) auto
    with assms(2) have "x \<le> 65535" by simp
    moreover from x have "Min (set xs) \<le> x" by simp
    ultimately have "Min (set xs) \<le> 65535" by linarith
    then show ?thesis by simp
  qed
  finally show ?thesis .
qed


text \<open>
  Claim C6 (initial training). Start from a reset accumulator with the filter not yet
  initialised and feed 50 frame intervals, each in \<open>[0, 65535]\<close> (the receiver passes
  intervals constrained to \<open>[950, 65500]\<close>). The first 49 calls of
  \<open>rcSmoothingAccumulateSample\<close> return false and the 50th returns true; it sets
  \<open>averageFrameTimeUs\<close> to the sum of the samples minus their minimum and their maximum,
  divided by 48 and rounded by \<open>lrintf\<close>, and leaves the accumulator reset. With a
  constant interval \<open>T\<close> the average is exactly \<open>T\<close>.
\<close>

theorem initial_training_average:
  assumes "\<not> filterInitialized sf" and "length xs = 50"
    and "\<forall>x\<in>set xs. 0 \<le> x \<and> x \<le> 65535"
  shows "snd (accumulateSamples (rcSmoothingResetAccumulation sf) xs)
       = replicate 49 False @ [True] \<and>
     averageFrameTimeUs (fst (accumulateSamples (rcSmoothingResetAccumulation sf) xs))
       = word_of_int (lrintf (real_of_int (sum_list xs - Min (set xs) - Max (set xs)) / 48)) \<and>
     trainingSum (fst (accumulateSamples (rcSmoothingResetAccumulation sf) xs)) = 0 \<and>
     trainingCount (fst (accumulateSamples (rcSmoothingResetAccumulation sf) xs)) = 0 \<and>
     trainingMin (fst (accumulateSamples (rcSmoothingResetAccumulation sf) xs)) = 65535 \<and>
     trainingMax (fst (accumulateSamples (rcSmoothingResetAccumulation sf) xs)) = 0 \<and>
     (\<forall>T. xs = replicate 50 T \<longrightarrow>
        uint (averageFrameTimeUs
          (fst (accumulateSamples (rcSmoothingResetAccumulation sf) xs))) = T)"
proof -
  let ?r = "rcSmoothingResetAccumulation sf"
  from assms(2) have ne: "xs \<noteq> []" by auto
  define ys where "ys = butlast xs"
  define x where "x = last xs"
  from ne have xs: "xs = ys @ [x]" by (simp add: ys_def x_def)
  from assms(2) have len: "length ys = 49" by (simp add: ys_def)
  from assms(3) xs have ysb: "\<forall>y\<in>set ys. 0 \<le> y \<and> y \<le> 65535"
    and xb: "0 \<le> x" "x \<le> 65535" by auto
  let ?M = "fold max ys 0" and ?m = "fold min ys 65535"
  let ?mid = "?r\<lparr>trainingSum := trainingSum ?r + real_of_int (sum_list ys),
      trainingCount := 49,
      trainingMax := word_of_int ?M, trainingMin := word_of_int ?m\<rparr>"
  have "accumulateSamples ?r ys =
      (?r\<lparr>trainingSum := trainingSum ?r + real_of_int (sum_list ys),
          trainingCount := of_nat (0 + length ys),
          trainingMax := word_of_int ?M, trainingMin := word_of_int ?m\<rparr>,
       replicate (length ys) False)"
    by (rule accumulate_partial [where n = 0 and M = 0 and m = 65535])
       (use assms(1) len ysb in \<open>simp_all add: rcSmoothingResetAccumulation_def\<close>)
  then have part: "accumulateSamples ?r ys = (?mid, replicate 49 False)"
    by (simp add: len)
  have Mb: "0 \<le> ?M \<and> ?M \<le> 65535" by (rule fold_max_bounds) (use ysb in simp_all)
  have mb: "0 \<le> ?m \<and> ?m \<le> 65535" by (rule fold_min_bounds) (use ysb in simp_all)
  let ?avg = "word_of_int (lrintf ((trainingSum ?mid + real_of_int x - real_of_int (min ?m x)
                - real_of_int (max ?M x)) / 48)) :: 32 word"
  have fin: "rcSmoothingAccumulateSample ?mid x =
      (rcSmoothingResetAccumulation (?mid\<lparr>averageFrameTimeUs := ?avg\<rparr>), True)"
    by (rule accumulate_final [where M = ?M and m = ?m])
       (use assms(1) len xb Mb mb in \<open>simp_all add: rcSmoothingResetAccumulation_def\<close>)
  have all: "accumulateSamples ?r xs =
      (rcSmoothingResetAccumulation (?mid\<lparr>averageFrameTimeUs := ?avg\<rparr>),
       replicate 49 False @ [True])"
  proof -
    have one: "accumulateSamples ?mid [x] =
        (rcSmoothingResetAccumulation (?mid\<lparr>averageFrameTimeUs := ?avg\<rparr>), [True])"
      by (simp only: accumulateSamples.simps fin prod.case)
    show ?thesis
      by (simp only: xs accumulateSamples_append part one fst_conv snd_conv)
  qed
  have mx: "max ?M x = Max (set xs)"
    using fold_max_Max [of xs] ne assms(3) by (simp add: xs max.commute)
  have mn: "min ?m x = Min (set xs)"
    using fold_min_Min [of xs] ne assms(3) by (simp add: xs min.commute)
  have sum: "trainingSum ?mid + real_of_int x - real_of_int (min ?m x) - real_of_int (max ?M x)
      = real_of_int (sum_list xs - Min (set xs) - Max (set xs))"
    unfolding mx mn by (simp add: xs rcSmoothingResetAccumulation_def)
  have avg: "averageFrameTimeUs (fst (accumulateSamples ?r xs))
      = word_of_int (lrintf (real_of_int (sum_list xs - Min (set xs) - Max (set xs)) / 48))"
    unfolding all sum [symmetric] by (simp add: rcSmoothingResetAccumulation_def)
  have const: "uint (averageFrameTimeUs (fst (accumulateSamples ?r xs))) = T"
    if "xs = replicate 50 T" for T
  proof -
    from that assms(3) have T: "0 \<le> T" "T \<le> 65535" by simp_all
    have "sum_list xs - Min (set xs) - Max (set xs) = 48 * T"
      unfolding that by (simp add: sum_list_replicate)
    then have "lrintf (real_of_int (sum_list xs - Min (set xs) - Max (set xs)) / 48) = T"
      by (simp add: lrintf_def)
    with T show ?thesis
      unfolding avg by (simp add: uint_word_of_int)
  qed
  from all avg const show ?thesis
    by (simp add: rcSmoothingResetAccumulation_def)
qed

text \<open>The claim at 50 frames that are 4000 us apart.\<close>

theorem initial_training_average_witness:
  "snd (accumulateSamples (rcSmoothingResetAccumulation (autoFilter 0)) (replicate 50 4000))
     = replicate 49 False @ [True] \<and>
   uint (averageFrameTimeUs
     (fst (accumulateSamples (rcSmoothingResetAccumulation (autoFilter 0)) (replicate 50 4000))))
     = 4000"
proof -
  have h1: "\<not> filterInitialized (autoFilter 0)"
    by (simp add: autoFilter_def rcSmoothingResetAccumulation_def bootReceiver_def)
  have h2: "length (replicate 50 (4000::int)) = 50" by simp
  have h3: "\<forall>x\<in>set (replicate 50 (4000::int)). 0 \<le> x \<and> x \<le> 65535" by simp
  from initial_training_average [OF h1 h2 h3] show ?thesis by blast
qed

section \<open>Demands stay in range\<close>

lemma pt3FilterGain_range:
  assumes "0 \<le> f_cut" and "0 \<le> dT"
  shows "0 \<le> pt3FilterGain f_cut dT \<and> pt3FilterGain f_cut dT \<le> 1"
proof (cases "f_cut = 0")
  case True
  then show ?thesis by (simp add: pt3FilterGain_def)
next
  case False
  define c :: real where "c = 1 / sqrt (2 powr (1 / 3) - 1)"
  define RC where "RC = 1 / (2 * c * pi * f_cut)"
  have "(1::real) \<le> 2 powr (1 / 3)"
    by (rule ge_one_powr_ge_zero) simp_all
  then have "0 \<le> c"
    by (simp add: c_def)
  with assms(1) have "0 \<le> RC"
    by (simp add: RC_def)
  with assms(2) have "0 \<le> dT / (RC + dT) \<and> dT / (RC + dT) \<le> 1"
    by (auto simp add: divide_le_eq_1)
  with False show ?thesis
    by (simp add: pt3FilterGain_def Let_def c_def RC_def)
qed

lemma inBand_convex:
  assumes "inBand s" and "inBand x" and "0 \<le> g" and "g \<le> 1"
  shows "inBand (s + g * (x - s))"
proof -
  have eq: "s + g * (x - s) = (1 - g) * s + g * x"
    by (simp add: algebra_simps)
  from assms have lo: "- RATE_LIMIT \<le> s" "- RATE_LIMIT \<le> x" and hi: "s \<le> RATE_LIMIT" "x \<le> RATE_LIMIT"
    by (simp_all add: inBand_def)
  have g1: "0 \<le> 1 - g" using assms(4) by simp
  have "(1 - g) * (- RATE_LIMIT) + g * (- RATE_LIMIT) \<le> (1 - g) * s + g * x"
    by (intro add_mono mult_left_mono lo g1 assms(3))
  moreover have "(1 - g) * s + g * x \<le> (1 - g) * RATE_LIMIT + g * RATE_LIMIT"
    by (intro add_mono mult_left_mono hi g1 assms(3))
  ultimately show ?thesis
    unfolding eq inBand_def by (simp add: algebra_simps)
qed

lemma pt3FilterApply_ok:
  assumes "filterOk f" and "inBand x"
  shows "filterOk (fst (pt3FilterApply f x)) \<and> inBand (snd (pt3FilterApply f x))"
proof -
  from assms(1) have s: "inBand (state f)" "inBand (state1 f)" "inBand (state2 f)"
    and g: "0 \<le> k f" "k f \<le> 1"
    by (simp_all add: filterOk_def)
  let ?s1 = "state1 f + k f * (x - state1 f)"
  let ?s2 = "state2 f + k f * (?s1 - state2 f)"
  let ?s = "state f + k f * (?s2 - state f)"
  have b1: "inBand ?s1" using s(2) assms(2) g by (rule inBand_convex)
  have b2: "inBand ?s2" using s(3) b1 g by (rule inBand_convex)
  have b: "inBand ?s" using s(1) b2 g by (rule inBand_convex)
  from b1 b2 b g show ?thesis
    by (simp add: pt3FilterApply_def filterOk_def Let_def)
qed

lemma smoothingFilterApply_ok:
  assumes "filterOk f" and "inBand x"
  shows "filterOk (fst (smoothingFilterApply sf f x)) \<and> inBand (snd (smoothingFilterApply sf f x))"
  using assms pt3FilterApply_ok [OF assms]
  by (simp add: smoothingFilterApply_def)

lemma getRawSetpoint_inBand: "inBand (getRawSetpoint c d)"
  by (simp add: getRawSetpoint_def constrain_f_def inBand_def RATE_LIMIT_def Let_def)

lemma inBand_0: "inBand 0"
  by (simp add: inBand_def RATE_LIMIT_def)

lemma constrain_throttle: "0 \<le> constrain_f x 0 1 \<and> constrain_f x 0 1 \<le> 1"
  by (simp add: constrain_f_def)


lemma filterInit_ok:
  assumes "filterOk f" and "0 \<le> dT"
  shows "filterOk (smoothingFilterInitRollPitchYaw sf f dT)"
proof -
  have "0 \<le> u16_to_float (setpointCutoffFrequency sf)"
    unfolding u16_to_float_def by (rule of_nat_0_le_iff)
  from pt3FilterGain_range [OF this assms(2)] assms(1) show ?thesis
    by (simp add: smoothingFilterInitRollPitchYaw_def smoothingFilterInit_def pt3FilterInit_def
        pt3FilterUpdateCutoff_def filterOk_def inBand_0)
qed

lemma setCutoffs_filters:
  "filterRoll (snd (setSmoothingFilterCutoffs pf a sf)) = filterRoll sf \<or>
   (\<exists>sf'. filterRoll (snd (setSmoothingFilterCutoffs pf a sf))
       = smoothingFilterInitRollPitchYaw sf' (filterRoll sf) (clock_PERIOD pf * (1 / 1000000)))"
  "filterPitch (snd (setSmoothingFilterCutoffs pf a sf)) = filterPitch sf \<or>
   (\<exists>sf'. filterPitch (snd (setSmoothingFilterCutoffs pf a sf))
       = smoothingFilterInitRollPitchYaw sf' (filterPitch sf) (clock_PERIOD pf * (1 / 1000000)))"
  "filterYaw (snd (setSmoothingFilterCutoffs pf a sf)) = filterYaw sf \<or>
   (\<exists>sf'. filterYaw (snd (setSmoothingFilterCutoffs pf a sf))
       = smoothingFilterInitRollPitchYaw sf' (filterYaw sf) (clock_PERIOD pf * (1 / 1000000)))"
  by (auto simp add: setSmoothingFilterCutoffs_def Let_def)

lemma setCutoffs_ok:
  assumes "setpointFiltersOk sf" and "0 \<le> clock_PERIOD pf"
  shows "setpointFiltersOk (snd (setSmoothingFilterCutoffs pf a sf))"
proof -
  have dT: "0 \<le> clock_PERIOD pf * (1 / 1000000)"
    using assms(2) by simp
  from assms(1) have f: "filterOk (filterRoll sf)" "filterOk (filterPitch sf)"
      "filterOk (filterYaw sf)"
    by (simp_all add: setpointFiltersOk_def)
  have "filterOk (filterRoll (snd (setSmoothingFilterCutoffs pf a sf)))"
    using setCutoffs_filters(1) [of pf a sf] f(1) filterInit_ok [OF f(1) dT] by auto
  moreover have "filterOk (filterPitch (snd (setSmoothingFilterCutoffs pf a sf)))"
    using setCutoffs_filters(2) [of pf a sf] f(2) filterInit_ok [OF f(2) dT] by auto
  moreover have "filterOk (filterYaw (snd (setSmoothingFilterCutoffs pf a sf)))"
    using setCutoffs_filters(3) [of pf a sf] f(3) filterInit_ok [OF f(3) dT] by auto
  ultimately show ?thesis
    by (simp add: setpointFiltersOk_def)
qed

lemma setpointFiltersOk_updates:
  "setpointFiltersOk (rcSmoothingResetAccumulation sf) = setpointFiltersOk sf"
  "setpointFiltersOk (fst (rcSmoothingAccumulateSample sf x)) = setpointFiltersOk sf"
  "setpointFiltersOk (sf\<lparr>filterInitialized := b\<rparr>) = setpointFiltersOk sf"
  by (simp_all add: setpointFiltersOk_def rcSmoothingResetAccumulation_def
      rcSmoothingAccumulateSample_def Let_def)


lemma setpointFiltersOk_fields:
  "setpointFiltersOk (sf\<lparr>filterInitialized := v0\<rparr>) = setpointFiltersOk sf"
  "setpointFiltersOk (sf\<lparr>averageFrameTimeUs := v1\<rparr>) = setpointFiltersOk sf"
  "setpointFiltersOk (sf\<lparr>autoSmoothnessFactorSetpoint := v2\<rparr>) = setpointFiltersOk sf"
  "setpointFiltersOk (sf\<lparr>autoSmoothnessFactorThrottle := v3\<rparr>) = setpointFiltersOk sf"
  "setpointFiltersOk (sf\<lparr>setpointCutoffSetting := v4\<rparr>) = setpointFiltersOk sf"
  "setpointFiltersOk (sf\<lparr>throttleCutoffSetting := v5\<rparr>) = setpointFiltersOk sf"
  "setpointFiltersOk (sf\<lparr>ffCutoffSetting := v6\<rparr>) = setpointFiltersOk sf"
  "setpointFiltersOk (sf\<lparr>trainingSum := v7\<rparr>) = setpointFiltersOk sf"
  "setpointFiltersOk (sf\<lparr>trainingCount := v8\<rparr>) = setpointFiltersOk sf"
  "setpointFiltersOk (sf\<lparr>trainingMin := v9\<rparr>) = setpointFiltersOk sf"
  "setpointFiltersOk (sf\<lparr>trainingMax := v10\<rparr>) = setpointFiltersOk sf"
  "setpointFiltersOk (sf\<lparr>setpointCutoffFrequency := v11\<rparr>) = setpointFiltersOk sf"
  "setpointFiltersOk (sf\<lparr>throttleCutoffFrequency := v12\<rparr>) = setpointFiltersOk sf"
  "setpointFiltersOk (sf\<lparr>feedforwardCutoffFrequency := v13\<rparr>) = setpointFiltersOk sf"
  by (simp_all add: setpointFiltersOk_def)

lemma firstCallInit_ok:
  assumes "setpointFiltersOk (m_smoothingFilter r)" and "0 \<le> clock_PERIOD pf"
  shows "setpointFiltersOk (m_smoothingFilter (fst (smoothingFirstCallInit pf r a)))"
    and "m_dataToSmooth (fst (smoothingFirstCallInit pf r a)) = m_dataToSmooth r"
proof -
  have ok: "setpointFiltersOk (snd (setSmoothingFilterCutoffs pf a sf))"
    if "setpointFiltersOk sf" for sf
    using that assms(2) by (rule setCutoffs_ok)
  show "setpointFiltersOk (m_smoothingFilter (fst (smoothingFirstCallInit pf r a)))"
    using assms(1)
    by (auto simp add: smoothingFirstCallInit_def Let_def case_prod_beta
        setpointFiltersOk_updates setpointFiltersOk_fields intro!: ok)
  show "m_dataToSmooth (fst (smoothingFirstCallInit pf r a)) = m_dataToSmooth r"
    by (simp add: smoothingFirstCallInit_def Let_def case_prod_beta)
qed

lemma trainOnFrame_ok:
  assumes "setpointFiltersOk (m_smoothingFilter r)" and "0 \<le> clock_PERIOD pf"
  shows "setpointFiltersOk (m_smoothingFilter (fst (smoothingTrainOnFrame pf r a t)))"
    and "m_dataToSmooth (fst (smoothingTrainOnFrame pf r a t)) = m_dataToSmooth r"
proof -
  have ok: "setpointFiltersOk (snd (setSmoothingFilterCutoffs pf a sf))"
    if "setpointFiltersOk sf" for sf
    using that assms(2) by (rule setCutoffs_ok)
  show "setpointFiltersOk (m_smoothingFilter (fst (smoothingTrainOnFrame pf r a t)))"
    using assms(1)
    by (auto simp add: smoothingTrainOnFrame_def Let_def case_prod_beta
        setpointFiltersOk_updates intro!: ok)
  show "m_dataToSmooth (fst (smoothingTrainOnFrame pf r a t)) = m_dataToSmooth r"
    by (simp add: smoothingTrainOnFrame_def Let_def case_prod_beta)
qed


lemma firstCallInit_inv:
  assumes "smoothingInvariant r" and "0 \<le> clock_PERIOD pf"
  shows "smoothingInvariant (fst (smoothingFirstCallInit pf r a))"
  using assms firstCallInit_ok [of r pf a]
  by (simp add: smoothingInvariant_def)

lemma trainOnFrame_inv:
  assumes "smoothingInvariant r" and "0 \<le> clock_PERIOD pf"
  shows "smoothingInvariant (fst (smoothingTrainOnFrame pf r a t))"
  using assms trainOnFrame_ok [of r pf a t]
  by (simp add: smoothingInvariant_def)

lemma smoothingInvariant_updates:
  "smoothingInvariant (r\<lparr>m_initializedFilter := b\<rparr>) = smoothingInvariant r"
  "smoothingInvariant (r\<lparr>m_previousFrameTimeUs := w\<rparr>) = smoothingInvariant r"
  "smoothingInvariant (r\<lparr>m_gotNewData := b\<rparr>) = smoothingInvariant r"
  by (simp_all add: smoothingInvariant_def)

lemma storeData_inv:
  assumes "smoothingInvariant r" and "inBand x" and "inBand y" and "inBand z"
  shows "smoothingInvariant (r\<lparr>m_dataToSmooth := \<lparr>throttle = th, roll = x, pitch = y, yaw = z\<rparr>\<rparr>)"
  using assms by (simp add: smoothingInvariant_def)

lemma applyFilters_ok:
  assumes "smoothingInvariant r"
  shows "smoothingInvariant (fst (smoothingApplyFilters r))"
    and "inBand (snd (smoothingApplyFilters r) ! 0)"
    and "inBand (snd (smoothingApplyFilters r) ! 1)"
    and "inBand (snd (smoothingApplyFilters r) ! 2)"
proof -
  let ?sf = "m_smoothingFilter r"
  from assms have f: "filterOk (filterRoll ?sf)" "filterOk (filterPitch ?sf)"
      "filterOk (filterYaw ?sf)"
    and d: "inBand (roll (m_dataToSmooth r))" "inBand (pitch (m_dataToSmooth r))"
      "inBand (yaw (m_dataToSmooth r))"
    by (simp_all add: smoothingInvariant_def setpointFiltersOk_def)
  note okr = smoothingFilterApply_ok [OF f(1) d(1), of ?sf]
  note okp = smoothingFilterApply_ok [OF f(2) d(2), of ?sf]
  note oky = smoothingFilterApply_ok [OF f(3) d(3), of ?sf]
  show "smoothingInvariant (fst (smoothingApplyFilters r))"
    using okr okp oky d
    by (simp add: smoothingApplyFilters_def Let_def smoothingInvariant_def setpointFiltersOk_def)
  show "inBand (snd (smoothingApplyFilters r) ! 0)"
    using okr by (simp add: smoothingApplyFilters_def Let_def)
  show "inBand (snd (smoothingApplyFilters r) ! 1)"
    using okp by (simp add: smoothingApplyFilters_def Let_def)
  show "inBand (snd (smoothingApplyFilters r) ! 2)"
    using oky by (simp add: smoothingApplyFilters_def Let_def)
qed

lemma beforeFilters_inv:
  assumes "smoothingInvariant r" and "0 \<le> clock_PERIOD pf"
    and "inBand (raw ! 0)" and "inBand (raw ! 1)" and "inBand (raw ! 2)"
  shows "smoothingInvariant
     (fst (case (if \<not> m_initializedFilter r then smoothingFirstCallInit pf r a else (r, a)) of
        (r1, a1) \<Rightarrow>
          let r2 = r1\<lparr>m_initializedFilter := True\<rparr>
          in (if m_gotNewData r2 then
                     (case (if m_calculatedCutoffs r2
                            then smoothingTrainOnFrame pf r2 a1 t
                            else (r2, a1)) of
                        (r', a') \<Rightarrow>
                          (r'\<lparr>m_dataToSmooth :=
                               \<lparr>throttle = throttle (m_commands r'),
                                roll = raw ! 0, pitch = raw ! 1,
                                yaw = raw ! 2\<rparr>\<rparr>, a'))
                   else (r2, a1))))"
  using assms
  by (auto simp add: case_prod_beta Let_def smoothingInvariant_updates
      intro!: storeData_inv trainOnFrame_inv firstCallInit_inv)

lemma processSmoothingFilter_ok:
  assumes "smoothingInvariant r" and "0 \<le> clock_PERIOD pf"
    and "inBand (raw ! 0)" and "inBand (raw ! 1)" and "inBand (raw ! 2)"
  shows "smoothingInvariant (fst (processSmoothingFilter pf r t a raw))"
    and "inBand (snd (snd (processSmoothingFilter pf r t a raw)) ! 0)"
    and "inBand (snd (snd (processSmoothingFilter pf r t a raw)) ! 1)"
    and "inBand (snd (snd (processSmoothingFilter pf r t a raw)) ! 2)"
  using applyFilters_ok [OF beforeFilters_inv [OF assms, where a = a and t = t]]
  by (simp_all add: processSmoothingFilter_def case_prod_beta Let_def)


lemma receiveInputs_inv: "smoothingInvariant (receiveInputs r i) = smoothingInvariant r"
  by (simp add: smoothingInvariant_def receiveInputs_def)

lemma bootReceiver_inv: "smoothingInvariant bootReceiver"
  by (simp add: smoothingInvariant_def setpointFiltersOk_def filterOk_def bootReceiver_def
      zeroFilter_def zeroDemands_def inBand_0)

lemma getDemands_ok:
  assumes "smoothingInvariant r" and "0 \<le> clock_PERIOD pf"
  shows "smoothingInvariant (fst (getDemands pf r t a))"
    and "demandsInRange (snd (snd (getDemands pf r t a)))"
proof -
  define r1 where "r1 = (if m_gotNewData r then r\<lparr>m_previousFrameTimeUs := 0\<rparr> else r)"
  define raw where "raw =
      (if m_gotNewData r then
         [getRawSetpoint (m_command r ! ROLL) COMMAND_DIVIDER,
          getRawSetpoint (m_command r ! PITCH) COMMAND_DIVIDER,
          getRawSetpoint (m_command r ! YAW) YAW_COMMAND_DIVIDER]
       else [0, 0, 0])"
  have i1: "smoothingInvariant r1"
    using assms(1) by (simp add: r1_def smoothingInvariant_updates)
  have b: "inBand (raw ! 0)" "inBand (raw ! 1)" "inBand (raw ! 2)"
    by (simp_all add: raw_def getRawSetpoint_inBand inBand_0)
  note p = processSmoothingFilter_ok [OF i1 assms(2) b, of t a]
  have eq: "getDemands pf r t a =
      ((fst (processSmoothingFilter pf r1 t a raw))\<lparr>m_gotNewData := False\<rparr>,
       fst (snd (processSmoothingFilter pf r1 t a raw)),
       \<lparr>throttle =
          constrain_f ((throttle (m_commands (fst (processSmoothingFilter pf r1 t a raw)))
             - PWM_MIN pf) / (PWM_MAX pf - PWM_MIN pf)) 0 1,
        roll = snd (snd (processSmoothingFilter pf r1 t a raw)) ! 0,
        pitch = snd (snd (processSmoothingFilter pf r1 t a raw)) ! 1,
        yaw = snd (snd (processSmoothingFilter pf r1 t a raw)) ! 2\<rparr>)"
    unfolding getDemands_def r1_def raw_def
    by (simp only: Let_def case_prod_beta)
  show "smoothingInvariant (fst (getDemands pf r t a))"
    unfolding eq using p(1) by (simp add: smoothingInvariant_updates)
  show "demandsInRange (snd (snd (getDemands pf r t a)))"
    unfolding eq using p(2-4) constrain_throttle
    by (simp add: demandsInRange_def)
qed

lemma demandsTrace_ok:
  assumes "smoothingInvariant r" and "0 \<le> clock_PERIOD pf"
  shows "\<forall>d\<in>set (demandsTrace pf r a is). demandsInRange d"
  using assms(1)
proof (induction "is" arbitrary: r a)
  case Nil
  show ?case by simp
next
  case (Cons i "is")
  from Cons.prems have "smoothingInvariant (receiveInputs r i)"
    by (simp add: receiveInputs_inv)
  from getDemands_ok [OF this assms(2), of "inTimeUs i" a] Cons.IH
  show ?case
    by (simp add: case_prod_beta)
qed


lemma train_step:
  assumes "inTraining n r" and "n < 49"
    and "m_signalReceived r" and "m_isRateValid r" and "m_refreshPeriod r = 4000"
    and "5000 < t div 1000" and "7000 < t div 1000"
  shows "smoothingTrainOnFrame pf r a t =
     (r\<lparr>m_smoothingFilter := (m_smoothingFilter r)
          \<lparr>trainingSum := 4000 * real (Suc n), trainingCount := of_nat (Suc n),
           trainingMax := 4000, trainingMin := 4000\<rparr>\<rparr>, a)"
proof -
  let ?sf = "m_smoothingFilter r"
  let ?M = "if n = 0 then 0 else 4000 :: int"
  let ?m = "if n = 0 then 65535 else 4000 :: int"
  from assms(1) have f: "\<not> filterInitialized ?sf" "trainingCount ?sf = of_nat n"
      "trainingMax ?sf = word_of_int ?M" "trainingMin ?sf = word_of_int ?m"
      "trainingSum ?sf = 4000 * real n"
      "m_validFrameTimeMs r = 7000"
    by (simp_all add: inTraining_def)
  have acc: "rcSmoothingAccumulateSample ?sf 4000 =
     (?sf\<lparr>trainingSum := trainingSum ?sf + real_of_int 4000,
         trainingCount := of_nat (Suc n),
         trainingMax := word_of_int (max ?M 4000),
         trainingMin := word_of_int (min ?m 4000)\<rparr>, False)"
    by (rule accumulate_step [OF f(1,2) assms(2) _ _ f(3) _ _ f(4)]) simp_all
  have s: "sint (4000 :: 32 word) = 4000" by simp
  have nz: "(7000 :: 32 word) \<noteq> 0" by simp
  have sum: "4000 * real n + 4000 = 4000 * real (Suc n)" by simp
  show ?thesis
    using assms(3-7) f(1,6) nz
    by (simp add: smoothingTrainOnFrame_def Let_def acc s SMOOTHING_FILTER_STARTUP_DELAY_MS_def
        f(5) sum del: of_nat_Suc)
qed


lemma demands_step:
  assumes "inTraining n r" and "n < 49" and "5000 < t div 1000" and "7000 < t div 1000"
  shows "inTraining (Suc n) (fst (getDemands pf (receiveInputs r (overStick t)) t a))"
  using assms(1)
  by (simp add: getDemands_def processSmoothingFilter_def receiveInputs_def overStick_def
       train_step [where n = n, OF _ assms(2) _ _ _ assms(3,4)] smoothingApplyFilters_def
       smoothingFilterApply_def inTraining_def Let_def case_prod_beta del: of_nat_Suc)


lemma train_final:
  assumes "inTraining 49 r"
    and "m_signalReceived r" and "m_isRateValid r" and "m_refreshPeriod r = 4000"
    and "5000 < t div 1000" and "7000 < t div 1000"
  shows "smoothingTrainOnFrame pf r a t =
     (r\<lparr>m_smoothingFilter :=
          (snd (setSmoothingFilterCutoffs pf a
             (rcSmoothingResetAccumulation ((m_smoothingFilter r)\<lparr>averageFrameTimeUs := 4000\<rparr>))))
          \<lparr>filterInitialized := True\<rparr>,
        m_validFrameTimeMs := 0\<rparr>,
      fst (setSmoothingFilterCutoffs pf a
             (rcSmoothingResetAccumulation ((m_smoothingFilter r)\<lparr>averageFrameTimeUs := 4000\<rparr>))))"
proof -
  let ?sf = "m_smoothingFilter r"
  from assms(1) have f: "\<not> filterInitialized ?sf" "trainingCount ?sf = 49"
      "trainingMax ?sf = word_of_int 4000" "trainingMin ?sf = word_of_int 4000"
      "trainingSum ?sf = 196000"
      "m_validFrameTimeMs r = 7000"
    by (simp_all add: inTraining_def)
  have acc: "rcSmoothingAccumulateSample ?sf 4000 =
     (rcSmoothingResetAccumulation
        (?sf\<lparr>averageFrameTimeUs :=
             word_of_int (lrintf ((trainingSum ?sf + real_of_int 4000 - real_of_int (min 4000 4000)
                - real_of_int (max 4000 4000)) / 48))\<rparr>), True)"
    by (rule accumulate_final [OF f(1,2) _ _ f(3) _ _ f(4)]) simp_all
  have avg: "lrintf ((196000 + real_of_int 4000 - real_of_int (min 4000 4000)
                - real_of_int (max 4000 4000)) / 48) = 4000"
    by (simp add: lrintf_def)
  have l: "lrintf 4000 = 4000"
    by (simp add: lrintf_def)
  have s: "sint (4000 :: 32 word) = 4000" by simp
  have nz: "(7000 :: 32 word) \<noteq> 0" by simp
  show ?thesis
    using assms(2-6) f(1,6) nz
    by (simp add: smoothingTrainOnFrame_def Let_def acc s SMOOTHING_FILTER_STARTUP_DELAY_MS_def
        f(5) avg l case_prod_beta)
qed

lemma setCutoffs_roll:
  assumes "\<not> filterInitialized sf" and "setpointCutoffSetting sf = 0"
  shows "filterRoll (snd (setSmoothingFilterCutoffs pf a sf)) =
     pt3FilterInit (pt3FilterGain
       (u16_to_float (autoCutoff sf (autoSmoothnessFactorSetpoint sf)))
       (clock_PERIOD pf * (1 / 1000000)))"
  using assms
  by (simp add: setSmoothingFilterCutoffs_def smoothingFilterInitRollPitchYaw_def
      smoothingFilterInit_def Let_def)

lemma autoCutoff_4000:
  assumes "averageFrameTimeUs sf = 4000"
  shows "autoCutoff sf 30 = 94"
proof -
  have c: "calcAutoSmoothingCutoff (sint (averageFrameTimeUs sf)) 30 = 94"
    by (simp add: assms calc_4000_30)
  have "int (unat (autoCutoff sf 30)) = 94"
    using autoCutoff_of_calc [of sf 30] by (simp add: c)
  then have "unat (autoCutoff sf 30) = 94" by linarith
  then have "word_of_nat (unat (autoCutoff sf 30)) = (word_of_nat 94 :: 16 word)"
    by (simp only:)
  then show ?thesis by simp
qed

lemma applyRates_over: "getRawSetpoint 1000 COMMAND_DIVIDER = 1998"
  by (simp add: getRawSetpoint_def applyRates_def constrain_f_def RATE_LIMIT_def RC_EXPO_def
      RC_RATE_def RATE_def COMMAND_DIVIDER_def Let_def)

lemma demands_final:
  assumes "inTraining 49 r" and "5000 < t div 1000" and "7000 < t div 1000"
  shows "roll (snd (snd (getDemands nominalPlatform (receiveInputs r (overStick t)) t a))) =
     1998 * pt3FilterGain 94 (1 / 8000) ^ 3"
proof -
  have g: "getRawSetpoint 1000 COMMAND_DIVIDER = 1998" by (rule applyRates_over)
  show ?thesis
    using assms(1)
    apply (simp add: getDemands_def processSmoothingFilter_def receiveInputs_def overStick_def
       train_final [OF _ _ _ _ assms(2,3)] smoothingApplyFilters_def
       smoothingFilterApply_def inTraining_def Let_def case_prod_beta g ROLL_def
       setCutoffs_roll rcSmoothingResetAccumulation_def autoCutoff_4000 pt3FilterApply_def
       pt3FilterInit_def u16_to_float_def nominalPlatform_def power3_eq_cube)
    done
qed


lemma first_call:
  "inTraining 0 (fst (getDemands nominalPlatform (receiveInputs bootReceiver (overStick 6000000))
      6000000 zeroAnglePid))"
  "snd (snd (getDemands nominalPlatform (receiveInputs bootReceiver (overStick 6000000))
      6000000 zeroAnglePid)) = \<lparr>throttle = 1, roll = 1998, pitch = 0, yaw = 0\<rparr>"
  by (simp_all add: getDemands_def processSmoothingFilter_def smoothingFirstCallInit_def
        smoothingTrainOnFrame_def smoothingApplyFilters_def smoothingFilterApply_def
        receiveInputs_def overStick_def bootReceiver_def rcSmoothingResetAccumulation_def
        rcSmoothingAutoCalculate_def getRawSetpoint_def applyRates_def constrain_f_def
        RATE_LIMIT_def RC_EXPO_def RC_RATE_def RATE_def COMMAND_DIVIDER_def YAW_COMMAND_DIVIDER_def
        ROLL_def PITCH_def YAW_def SMOOTHING_FILTER_STARTUP_DELAY_MS_def
        SMOOTHING_FILTER_TRAINING_DELAY_MS_def nominalPlatform_def
        inTraining_def case_prod_beta Let_def)

lemma demandsTrace_length: "length (demandsTrace pf r a is) = length is"
  by (induction "is" arbitrary: r a) (simp_all add: case_prod_beta)

lemma training_run:
  assumes "inTraining n r" and "n + length ts = 50" and "ts \<noteq> []"
    and "\<forall>t\<in>set ts. 5000 < t div 1000 \<and> 7000 < t div 1000"
  shows "roll (last (demandsTrace nominalPlatform r a (map overStick ts))) =
     1998 * pt3FilterGain 94 (1 / 8000) ^ 3"
  using assms
proof (induction ts arbitrary: n r a)
  case Nil
  then show ?case by simp
next
  case (Cons t ts)
  from Cons.prems(4) have t: "5000 < t div 1000" "7000 < t div 1000" by simp_all
  have time: "inTimeUs (overStick t) = t" by (simp add: overStick_def)
  show ?case
  proof (cases "ts = []")
    case True
    with Cons.prems(2) have "n = 49" by simp
    with Cons.prems(1) have "inTraining 49 r" by simp
    from demands_final [OF this t, of a] True show ?thesis
      by (simp add: case_prod_beta time)
  next
    case False
    with Cons.prems(2) have n: "n < 49" by (cases ts) simp_all
    let ?g = "getDemands nominalPlatform (receiveInputs r (overStick t)) t a"
    have "inTraining (Suc n) (fst ?g)"
      by (rule demands_step [OF Cons.prems(1) n t])
    from Cons.IH [OF this _ False, of "fst (snd ?g)"] Cons.prems(2,4)
    have "roll (last (demandsTrace nominalPlatform (fst ?g) (fst (snd ?g)) (map overStick ts))) =
        1998 * pt3FilterGain 94 (1 / 8000) ^ 3"
      by simp
    moreover have "demandsTrace nominalPlatform (fst ?g) (fst (snd ?g)) (map overStick ts) \<noteq> []"
      using False demandsTrace_length [of nominalPlatform "fst ?g" "fst (snd ?g)" "map overStick ts"]
      by auto
    ultimately show ?thesis
      by (simp add: case_prod_beta time)
  qed
qed

lemma run_times:
  "\<forall>t\<in>set (map (\<lambda>j. 7001000 + 4000 * of_nat j) [0..<50] :: 32 word list).
     5000 < t div 1000 \<and> 7000 < t div 1000"
  by (simp add: upt_rec)

lemma trainingRun_trace:
  "hd (demandsTrace nominalPlatform bootReceiver zeroAnglePid trainingRun) =
     \<lparr>throttle = 1, roll = 1998, pitch = 0, yaw = 0\<rparr>"
  "roll (last (demandsTrace nominalPlatform bootReceiver zeroAnglePid trainingRun)) =
     1998 * pt3FilterGain 94 (1 / 8000) ^ 3"
proof -
  let ?g = "getDemands nominalPlatform (receiveInputs bootReceiver (overStick 6000000))
      6000000 zeroAnglePid"
  let ?ts = "map (\<lambda>j. 7001000 + 4000 * of_nat j) [0..<50] :: 32 word list"
  have tr: "demandsTrace nominalPlatform bootReceiver zeroAnglePid trainingRun =
      snd (snd ?g) # demandsTrace nominalPlatform (fst ?g) (fst (snd ?g)) (map overStick ?ts)"
    by (simp add: trainingRun_def case_prod_beta overStick_def comp_def)
  show "hd (demandsTrace nominalPlatform bootReceiver zeroAnglePid trainingRun) =
     \<lparr>throttle = 1, roll = 1998, pitch = 0, yaw = 0\<rparr>"
    unfolding tr by (simp add: first_call(2))
  have ne: "?ts \<noteq> []" by (simp add: upt_rec)
  have len: "0 + length ?ts = 50" by simp
  note run = training_run [OF first_call(1) len ne run_times, of "fst (snd ?g)"]
  have "demandsTrace nominalPlatform (fst ?g) (fst (snd ?g)) (map overStick ?ts) \<noteq> []"
    using ne demandsTrace_length [of nominalPlatform "fst ?g" "fst (snd ?g)" "map overStick ?ts"]
    by auto
  then show "roll (last (demandsTrace nominalPlatform bootReceiver zeroAnglePid trainingRun)) =
     1998 * pt3FilterGain 94 (1 / 8000) ^ 3"
    unfolding tr using run by simp
qed

lemma gain_94: "0 < pt3FilterGain 94 (1 / 8000)" "pt3FilterGain 94 (1 / 8000) < 1"
proof -
  define c :: real where "c = 1 / sqrt (2 powr (1 / 3) - 1)"
  define RC where "RC = 1 / (2 * c * pi * 94)"
  have "(1::real) < 2 powr (1 / 3)"
    by (rule gr_one_powr) simp_all
  then have "0 < c"
    by (simp add: c_def)
  then have rc: "0 < RC"
    by (simp add: RC_def)
  have g: "pt3FilterGain 94 (1 / 8000) = (1 / 8000) / (RC + 1 / 8000)"
    by (simp add: pt3FilterGain_def Let_def c_def RC_def)
  show "0 < pt3FilterGain 94 (1 / 8000)"
    unfolding g using rc by simp
  show "pt3FilterGain 94 (1 / 8000) < 1"
    unfolding g using rc by (simp add: divide_less_eq_1)
qed

text \<open>
  Claim C5 (demand clamp). The receiver at boot satisfies the smoothing invariant, and from
  any receiver state that satisfies it, whatever the inputs written between the calls,
  every demands record that \<open>getDemands\<close> produces has throttle in \<open>[0, 1]\<close> and roll,
  pitch and yaw in \<open>[-1998, 1998]\<close>. The loop period is taken non-negative and
  \<open>PWM_MIN < PWM_MAX\<close>, so that the throttle quotient is a number.
\<close>

theorem demands_in_range:
  assumes "smoothingInvariant r" and "0 \<le> clock_PERIOD pf" and "PWM_MIN pf < PWM_MAX pf"
  shows "smoothingInvariant bootReceiver \<and>
    (\<forall>d\<in>set (demandsTrace pf r a is).
       0 \<le> throttle d \<and> throttle d \<le> 1 \<and>
       - 1998 \<le> roll d \<and> roll d \<le> 1998 \<and>
       - 1998 \<le> pitch d \<and> pitch d \<le> 1998 \<and>
       - 1998 \<le> yaw d \<and> yaw d \<le> 1998)"
  using demandsTrace_ok [OF assms(1,2), of a "is"] bootReceiver_inv
  by (simp add: demandsInRange_def inBand_def RATE_LIMIT_def)

text \<open>
  The claim along the training run from boot. On the first call the filters are not yet
  in use and both clamps are active: the roll demand is 1998, from a raw setpoint of 2540,
  and the throttle demand is 1, from a quotient of 1.5. The 51st call completes the
  training, sets the cutoffs to 94 Hz and runs the demands through the filters: the roll
  demand, \<open>1998 * k^3\<close> for the filter gain \<open>k\<close>, lies strictly between 0 and 1998.
\<close>

theorem demands_in_range_witness:
  "applyRates (1000 / COMMAND_DIVIDER) \<bar>1000 / COMMAND_DIVIDER\<bar> = 2540 \<and>
   (2500 - PWM_MIN nominalPlatform) / (PWM_MAX nominalPlatform - PWM_MIN nominalPlatform)
     = 3 / 2 \<and>
   hd (demandsTrace nominalPlatform bootReceiver zeroAnglePid trainingRun) =
     \<lparr>throttle = 1, roll = 1998, pitch = 0, yaw = 0\<rparr> \<and>
   0 < roll (last (demandsTrace nominalPlatform bootReceiver zeroAnglePid trainingRun)) \<and>
   roll (last (demandsTrace nominalPlatform bootReceiver zeroAnglePid trainingRun)) < 1998 \<and>
   - 1998 \<le> roll (last (demandsTrace nominalPlatform bootReceiver zeroAnglePid trainingRun)) \<and>
   roll (last (demandsTrace nominalPlatform bootReceiver zeroAnglePid trainingRun)) \<le> 1998 \<and>
   0 \<le> throttle (last (demandsTrace nominalPlatform bootReceiver zeroAnglePid trainingRun)) \<and>
   throttle (last (demandsTrace nominalPlatform bootReceiver zeroAnglePid trainingRun)) \<le> 1"
proof -
  let ?tr = "demandsTrace nominalPlatform bootReceiver zeroAnglePid trainingRun"
  let ?k = "pt3FilterGain 94 (1 / 8000)"
  have raw: "applyRates (1000 / COMMAND_DIVIDER) \<bar>1000 / COMMAND_DIVIDER\<bar> = 2540"
    by (simp add: applyRates_def RC_EXPO_def RC_RATE_def RATE_def COMMAND_DIVIDER_def Let_def)
  have thr: "(2500 - PWM_MIN nominalPlatform) / (PWM_MAX nominalPlatform - PWM_MIN nominalPlatform)
      = 3 / 2"
    by (simp add: nominalPlatform_def)
  have "0 < ?k ^ 3"
    using gain_94(1) by simp
  moreover have "?k ^ 3 < 1"
    using gain_94 by (intro power_less_one_iff [THEN iffD2]) simp_all
  ultimately have filtered: "0 < roll (last ?tr)" "roll (last ?tr) < 1998"
    unfolding trainingRun_trace(2) by simp_all
  have h1: "smoothingInvariant bootReceiver"
    by (simp add: smoothingInvariant_def setpointFiltersOk_def filterOk_def bootReceiver_def
        zeroFilter_def zeroDemands_def inBand_def RATE_LIMIT_def)
  have h2: "0 \<le> clock_PERIOD nominalPlatform"
    and h3: "PWM_MIN nominalPlatform < PWM_MAX nominalPlatform"
    by (simp_all add: nominalPlatform_def)
  have "length ?tr = 51"
    unfolding demandsTrace_length by (simp add: trainingRun_def)
  then have "?tr \<noteq> []" by auto
  then have mem: "last ?tr \<in> set ?tr" by (rule last_in_set)
  from demands_in_range [OF h1 h2 h3, of zeroAnglePid trainingRun] mem
  have rng: "0 \<le> throttle (last ?tr) \<and> throttle (last ?tr) \<le> 1 \<and>
      - 1998 \<le> roll (last ?tr) \<and> roll (last ?tr) \<le> 1998"
    by blast
  from raw thr trainingRun_trace(1) filtered rng show ?thesis
    by simp
qed

end
